(* ===== verification/Text.thy ===== *)
theory Text
  imports Prelude
begin

text \<open>
  Rust strings. A \<open>String\<close> is its UTF-8 encoding, a list of bytes (\<open>char\<close> is an 8-bit
  value in HOL), so \<open>len\<close> is \<open>length\<close> and slicing works on bytes. \<open>chars\<close> cuts the
  bytes into encoded characters, and \<open>code_point\<close> decodes one. The standard-library
  operations the source uses are written over these: \<open>trim\<close>, \<open>to_ascii_uppercase\<close>,
  \<open>String::truncate\<close> (which panics off a character boundary, modelled by \<open>None\<close>),
  \<open>split_once\<close>, \<open>strip_suffix\<close>, decimal printing and \<open>str::parse::<u64>\<close>.
\<close>

section \<open>Characters\<close>

definition is_cont :: "char \<Rightarrow> bool" where
  "is_cont c \<longleftrightarrow> 128 \<le> (of_char c :: nat) \<and> (of_char c :: nat) < 192"

function chars :: "string \<Rightarrow> string list" where
  "chars [] = []"
| "chars (c # cs) = (c # takeWhile is_cont cs) # chars (dropWhile is_cont cs)"
  by pat_completeness auto
termination
  by (relation "measure length") (auto simp: le_imp_less_Suc length_dropWhile_le)

definition code_point :: "string \<Rightarrow> nat" where
  "code_point g = (case map of_char g of
     [a] \<Rightarrow> a
   | [a, b] \<Rightarrow> (a mod 32) * 64 + b mod 64
   | [a, b, c] \<Rightarrow> (a mod 16) * 4096 + (b mod 64) * 64 + c mod 64
   | [a, b, c, d] \<Rightarrow> (a mod 8) * 262144 + (b mod 64) * 4096 + (c mod 64) * 64 + d mod 64
   | _ \<Rightarrow> 0)"

definition is_whitespace :: "nat \<Rightarrow> bool" where
  "is_whitespace c \<longleftrightarrow>
     (9 \<le> c \<and> c \<le> 13) \<or> c = 32 \<or> c = 133 \<or> c = 160 \<or> c = 5760 \<or> (8192 \<le> c \<and> c \<le> 8202) \<or>
     c = 8232 \<or> c = 8233 \<or> c = 8239 \<or> c = 8287 \<or> c = 12288"

definition is_control :: "nat \<Rightarrow> bool" where
  "is_control c \<longleftrightarrow> c < 32 \<or> (127 \<le> c \<and> c < 160)"

definition is_ascii_digit :: "nat \<Rightarrow> bool" where
  "is_ascii_digit c \<longleftrightarrow> 48 \<le> c \<and> c \<le> 57"

definition is_ascii_alphanumeric :: "nat \<Rightarrow> bool" where
  "is_ascii_alphanumeric c \<longleftrightarrow>
     is_ascii_digit c \<or> (65 \<le> c \<and> c \<le> 90) \<or> (97 \<le> c \<and> c \<le> 122)"

text \<open>
  \<open>char::is_alphanumeric\<close>: the ASCII range is fixed here; membership of the other scalar
  values is a Unicode table, which is the argument \<open>uni\<close>.
\<close>

definition is_alphanumeric :: "(nat \<Rightarrow> bool) \<Rightarrow> nat \<Rightarrow> bool" where
  "is_alphanumeric uni c \<longleftrightarrow> (if c < 128 then is_ascii_alphanumeric c else uni c)"

section \<open>String operations\<close>

definition trim_start_chars :: "string list \<Rightarrow> string list" where
  "trim_start_chars gs = dropWhile (\<lambda>g. is_whitespace (code_point g)) gs"

definition trim :: "string \<Rightarrow> string" where
  "trim s = concat (rev (trim_start_chars (rev (trim_start_chars (chars s)))))"

definition ascii_upper :: "char \<Rightarrow> char" where
  "ascii_upper c = (if 97 \<le> (of_char c :: nat) \<and> (of_char c :: nat) \<le> 122
     then char_of ((of_char c :: nat) - 32) else c)"

definition to_ascii_uppercase :: "string \<Rightarrow> string" where
  "to_ascii_uppercase s = map ascii_upper s"

definition ascii_lower :: "char \<Rightarrow> char" where
  "ascii_lower c = (if 65 \<le> (of_char c :: nat) \<and> (of_char c :: nat) \<le> 90
     then char_of ((of_char c :: nat) + 32) else c)"

definition to_ascii_lowercase :: "string \<Rightarrow> string" where
  "to_ascii_lowercase s = map ascii_lower s"

definition eq_ignore_ascii_case :: "string \<Rightarrow> string \<Rightarrow> bool" where
  "eq_ignore_ascii_case a b \<longleftrightarrow> to_ascii_uppercase a = to_ascii_uppercase b"

definition is_char_boundary :: "string \<Rightarrow> nat \<Rightarrow> bool" where
  "is_char_boundary s n \<longleftrightarrow> n = 0 \<or> n = length s \<or> (n < length s \<and> \<not> is_cont (s ! n))"

definition truncate_str :: "string \<Rightarrow> nat \<Rightarrow> string option" where
  "truncate_str s n = (if length s < n then Some s
     else if is_char_boundary s n then Some (take n s) else None)"

definition take_chars :: "nat \<Rightarrow> string \<Rightarrow> string" where
  "take_chars n s = concat (take n (chars s))"

definition starts_with :: "string \<Rightarrow> string \<Rightarrow> bool" where
  "starts_with p s \<longleftrightarrow> take (length p) s = p"

definition ends_with :: "string \<Rightarrow> string \<Rightarrow> bool" where
  "ends_with p s \<longleftrightarrow> length p \<le> length s \<and> drop (length s - length p) s = p"

definition strip_suffix :: "string \<Rightarrow> string \<Rightarrow> string option" where
  "strip_suffix p s = (if ends_with p s then Some (take (length s - length p) s) else None)"

definition strip_prefix :: "string \<Rightarrow> string \<Rightarrow> string option" where
  "strip_prefix p s = (if starts_with p s then Some (drop (length p) s) else None)"

definition split_once :: "char \<Rightarrow> string \<Rightarrow> (string \<times> string) option" where
  "split_once c s = (if c \<in> set s
     then Some (takeWhile (\<lambda>x. x \<noteq> c) s, tl (dropWhile (\<lambda>x. x \<noteq> c) s)) else None)"

section \<open>Decimal integers\<close>

definition digit_char :: "nat \<Rightarrow> char" where
  "digit_char d = char_of (48 + d)"

fun show_nat :: "nat \<Rightarrow> string" where
  "show_nat n = (if n < 10 then [digit_char n] else show_nat (n div 10) @ [digit_char (n mod 10)])"

declare show_nat.simps [simp del]

definition show_int :: "int \<Rightarrow> string" where
  "show_int i = (if i < 0 then ''-'' @ show_nat (nat (- i)) else show_nat (nat i))"

definition digits_value :: "string \<Rightarrow> nat" where
  "digits_value s = foldl (\<lambda>n c. 10 * n + (of_char c - 48)) 0 s"

definition all_digits :: "string \<Rightarrow> bool" where
  "all_digits s \<longleftrightarrow> list_all (\<lambda>c. is_ascii_digit (of_char c)) s"

text \<open>\<open>str::parse::<u64>\<close>: an optional plus sign, then digits whose value fits in 64 bits.\<close>

definition parse_u64 :: "string \<Rightarrow> u64 option" where
  "parse_u64 s =
     (let ds = (case s of c # cs \<Rightarrow> if c = CHR ''+'' then cs else s | [] \<Rightarrow> [])
      in if ds \<noteq> [] \<and> all_digits ds \<and> digits_value ds < 2 ^ 64
         then Some (word_of_nat (digits_value ds)) else None)"

section \<open>Lemmas\<close>

lemma concat_chars [simp]: "concat (chars s) = s"
  by (induction s rule: chars.induct) simp_all

lemma chars_Nil_iff [simp]: "chars s = [] \<longleftrightarrow> s = []"
  by (cases s) simp_all

text \<open>A group is one character when only its tail bytes are continuation bytes.\<close>

definition char_group :: "string \<Rightarrow> bool" where
  "char_group g \<longleftrightarrow> (case g of [] \<Rightarrow> False | c # cs \<Rightarrow> list_all is_cont cs)"

definition lead_group :: "string \<Rightarrow> bool" where
  "lead_group g \<longleftrightarrow> (case g of [] \<Rightarrow> False | c # cs \<Rightarrow> \<not> is_cont c \<and> list_all is_cont cs)"

lemma takeWhile_group:
  "list_all P cs \<Longrightarrow> (ys = [] \<or> \<not> P (hd ys)) \<Longrightarrow> takeWhile P (cs @ ys) = cs"
  by (cases ys) (auto simp: list_all_iff takeWhile_append)

lemma dropWhile_group:
  "list_all P cs \<Longrightarrow> (ys = [] \<or> \<not> P (hd ys)) \<Longrightarrow> dropWhile P (cs @ ys) = ys"
  by (cases ys) (auto simp: list_all_iff dropWhile_append)

lemma lead_group_hd: "lead_group g \<Longrightarrow> g \<noteq> [] \<and> \<not> is_cont (hd g)"
  by (auto simp: lead_group_def split: list.splits)

lemma lead_concat:
  "list_all lead_group gs \<Longrightarrow> concat gs = [] \<or> \<not> is_cont (hd (concat gs))"
  by (cases gs) (auto simp: hd_append dest: lead_group_hd)

lemma chars_concat:
  assumes "list_all lead_group gs"
  shows "chars (concat gs) = gs"
  using assms
proof (induction gs)
  case Nil
  then show ?case by simp
next
  case (Cons g gs)
  then obtain c cs where g: "g = c # cs" and cs: "list_all is_cont cs"
    by (auto simp: lead_group_def split: list.splits)
  from Cons.prems have "concat gs = [] \<or> \<not> is_cont (hd (concat gs))"
    by (intro lead_concat) simp
  with cs Cons show ?case
    by (simp add: g takeWhile_group dropWhile_group)
qed

lemma chars_tail_lead:
  "list_all lead_group (chars (dropWhile is_cont s))"
proof (induction s rule: length_induct)
  case (1 s)
  show ?case
  proof (cases "dropWhile is_cont s")
    case Nil
    show ?thesis unfolding Nil by simp
  next
    case (Cons c cs)
    then have c: "\<not> is_cont c" by (metis dropWhile_eq_Cons_conv)
    have "length (dropWhile is_cont s) \<le> length s" by (rule length_dropWhile_le)
    with Cons have "length cs < length s" by simp
    with 1 have "list_all lead_group (chars (dropWhile is_cont cs))" by blast
    with c Cons show ?thesis
      by (auto simp: lead_group_def list_all_iff dest: set_takeWhileD)
  qed
qed

lemma chars_lead: "s = [] \<or> \<not> is_cont (hd s) \<Longrightarrow> list_all lead_group (chars s)"
  using chars_tail_lead [of s] by (cases s) auto

lemma of_char_upper:
  "(of_char (ascii_upper c) :: nat) =
     (if 97 \<le> (of_char c :: nat) \<and> (of_char c :: nat) \<le> 122 then of_char c - 32 else of_char c)"
proof (cases "97 \<le> (of_char c :: nat) \<and> (of_char c :: nat) \<le> 122")
  case True
  then have "((of_char c :: nat) - 32) mod 256 = of_char c - 32" by (intro mod_less) linarith
  with True show ?thesis by (simp add: ascii_upper_def)
qed (auto simp: ascii_upper_def)

lemma is_cont_upper [simp]: "is_cont (ascii_upper c) = is_cont c"
  by (auto simp: is_cont_def of_char_upper)

lemma chars_map_upper: "chars (map ascii_upper s) = map (map ascii_upper) (chars s)"
  by (induction s rule: chars.induct)
    (simp_all add: takeWhile_map dropWhile_map comp_def)

lemma ascii_upper_fixed:
  "\<not> (97 \<le> (of_char c :: nat) \<and> (of_char c :: nat) \<le> 122) \<Longrightarrow> ascii_upper c = c"
  by (auto simp: ascii_upper_def)

lemma ascii_upper_idem [simp]: "ascii_upper (ascii_upper c) = ascii_upper c"
  by (rule ascii_upper_fixed) (auto simp: of_char_upper)

lemma to_ascii_uppercase_idem [simp]:
  "to_ascii_uppercase (to_ascii_uppercase s) = to_ascii_uppercase s"
  by (simp add: to_ascii_uppercase_def comp_def)

lemma length_to_ascii_uppercase [simp]: "length (to_ascii_uppercase s) = length s"
  by (simp add: to_ascii_uppercase_def)

text \<open>The characters of any string: a first group, then groups that start at a lead byte.\<close>

definition wf_chars :: "string list \<Rightarrow> bool" where
  "wf_chars gs \<longleftrightarrow> (case gs of [] \<Rightarrow> True | g # gs' \<Rightarrow> char_group g \<and> list_all lead_group gs')"

lemma lead_imp_char_group: "lead_group g \<Longrightarrow> char_group g"
  by (auto simp: lead_group_def char_group_def split: list.splits)

lemma wf_chars_chars: "wf_chars (chars s)"
proof (cases s)
  case (Cons c cs)
  then show ?thesis
    using chars_tail_lead [of cs]
    by (simp add: wf_chars_def char_group_def) (auto simp: list_all_iff dest: set_takeWhileD)
qed (simp add: wf_chars_def)

lemma chars_concat_wf:
  assumes "wf_chars gs"
  shows "chars (concat gs) = gs"
proof (cases gs)
  case Nil
  then show ?thesis by simp
next
  case (Cons g gs')
  with assms obtain c cs where g: "g = c # cs" "list_all is_cont cs" and gs': "list_all lead_group gs'"
    by (auto simp: wf_chars_def char_group_def split: list.splits)
  then show ?thesis
    using Cons lead_concat [OF gs'] by (simp add: takeWhile_group dropWhile_group chars_concat)
qed

lemma wf_chars_tail: "wf_chars (g # gs) \<Longrightarrow> wf_chars gs"
  by (cases gs) (auto simp: wf_chars_def lead_imp_char_group)

lemma wf_chars_dropWhile: "wf_chars gs \<Longrightarrow> wf_chars (dropWhile P gs)"
  by (induction gs) (auto dest: wf_chars_tail)

lemma wf_chars_prefix: "wf_chars (gs @ hs) \<Longrightarrow> wf_chars gs"
  by (cases gs) (auto simp: wf_chars_def)

lemma dropWhile_rev_prefix:
  "\<exists>hs. gs = rev (dropWhile P (rev gs)) @ hs"
  by (metis rev_append rev_swap takeWhile_dropWhile_id)

lemma chars_trim:
  "chars (trim s) = rev (trim_start_chars (rev (trim_start_chars (chars s))))"
proof -
  have "wf_chars (trim_start_chars (chars s))"
    unfolding trim_start_chars_def by (intro wf_chars_dropWhile wf_chars_chars)
  then have "wf_chars (rev (trim_start_chars (rev (trim_start_chars (chars s)))))"
    using dropWhile_rev_prefix wf_chars_prefix unfolding trim_start_chars_def by metis
  then show ?thesis unfolding trim_def by (rule chars_concat_wf)
qed

lemma trim_start_chars_id:
  "list_all (\<lambda>g. \<not> is_whitespace (code_point g)) gs \<Longrightarrow> trim_start_chars gs = gs"
  by (cases gs) (auto simp: trim_start_chars_def)

lemma trim_id:
  "list_all (\<lambda>g. \<not> is_whitespace (code_point g)) (chars s) \<Longrightarrow> trim s = s"
  by (simp add: trim_def trim_start_chars_id)

lemma of_char_upper_mod:
  "(of_char (ascii_upper c) :: nat) mod 32 = of_char c mod 32"
  "(of_char (ascii_upper c) :: nat) mod 16 = of_char c mod 16"
  "(of_char (ascii_upper c) :: nat) mod 8 = of_char c mod 8"
proof -
  have sub: "(n - 32) mod m = n mod m" if "32 \<le> n" and "m dvd 32" for n m :: nat
    using that by (metis add.right_neutral mod_0_imp_dvd dvd_imp_mod_0 le_add_diff_inverse2 mod_add_right_eq)
  show "(of_char (ascii_upper c) :: nat) mod 32 = of_char c mod 32"
    "(of_char (ascii_upper c) :: nat) mod 16 = of_char c mod 16"
    "(of_char (ascii_upper c) :: nat) mod 8 = of_char c mod 8"
    by (auto simp: of_char_upper sub)
qed

lemma map_upper_cont: "list_all is_cont cs \<Longrightarrow> map ascii_upper cs = cs"
  by (auto simp: list_all_iff is_cont_def intro!: map_idI ascii_upper_fixed)

text \<open>Upper-casing changes the character only where it is one ASCII byte.\<close>

lemma code_point_upper:
  assumes "char_group (c # cs)"
  shows "code_point (map ascii_upper (c # cs)) =
     (if cs = [] then of_char (ascii_upper c) else code_point (c # cs))"
  using assms map_upper_cont [of cs]
  by (auto simp: char_group_def code_point_def of_char_upper_mod split: list.splits)

lemma char_group_chars: "g \<in> set (chars s) \<Longrightarrow> char_group g"
  using wf_chars_chars [of s]
  by (auto simp: wf_chars_def list_all_iff split: list.splits intro: lead_imp_char_group)

subsection \<open>Decimal rendering\<close>

lemma digits_value_snoc: "digits_value (xs @ [c]) = 10 * digits_value xs + (of_char c - 48)"
  by (simp add: digits_value_def)

lemma digits_value_show_nat: "digits_value (show_nat n) = n"
proof (induction n rule: show_nat.induct)
  case (1 n)
  show ?case
  proof (cases "n < 10")
    case True
    then show ?thesis by (simp add: show_nat.simps [of n] digits_value_def digit_char_def)
  next
    case False
    with 1 have "digits_value (show_nat (n div 10)) = n div 10" by simp
    with False show ?thesis
      by (simp add: show_nat.simps [of n] digits_value_snoc) (simp add: digit_char_def)
  qed
qed

lemma show_nat_inj: "show_nat m = show_nat n \<Longrightarrow> m = n"
  by (metis digits_value_show_nat)

lemma show_nat_not_Nil [simp]: "show_nat n \<noteq> []"
  by (subst show_nat.simps) simp

lemma all_digits_show_nat: "all_digits (show_nat n)"
proof (induction n rule: show_nat.induct)
  case (1 n)
  have digit: "is_ascii_digit (of_char (digit_char d))" if "d < 10" for d
    using that by (simp add: is_ascii_digit_def digit_char_def)
  show ?case
  proof (cases "n < 10")
    case True
    then show ?thesis by (simp add: show_nat.simps [of n] all_digits_def digit)
  next
    case False
    with 1 show ?thesis by (simp add: show_nat.simps [of n] all_digits_def digit)
  qed
qed

end
