(* ===== verification/Domain.thy ===== *)
theory Domain
  imports Text
begin

text \<open>
  The vocabulary of the gateway (\<^verbatim>\<open>src/src/domain.rs\<close>): providers, channels,
  subscription keys, tickers, candles and events, with symbol normalization and the
  validation every normalized payload passes before fan-out.

  Code outside the repository enters through the record \<open>ext\<close>: the Unicode table behind
  \<open>char::is_alphanumeric\<close> and the \<open>rust_decimal\<close> functions the gateway calls. A
  \<open>Decimal\<close> is its documented representation, an integer coefficient and a scale;
  comparisons are comparisons of the number it denotes.
\<close>

section \<open>External functions\<close>

datatype decimal = Decimal (mantissa: int) (scale: nat)

definition dec_value :: "decimal \<Rightarrow> rat" where
  "dec_value d = of_int (mantissa d) / 10 ^ scale d"

record ext =
  uni_alnum :: "nat \<Rightarrow> bool"
  dec_from_str :: "string \<Rightarrow> decimal option"
  dec_from_scientific :: "string \<Rightarrow> decimal option"
  dec_to_string :: "decimal \<Rightarrow> string"
  dec_checked_mul :: "decimal \<Rightarrow> decimal \<Rightarrow> decimal option"
  dec_normalize :: "decimal \<Rightarrow> decimal"

text \<open>In Unicode no white-space character is alphabetic or numeric.\<close>

definition unicode_classes_disjoint :: "ext \<Rightarrow> bool" where
  "unicode_classes_disjoint E \<longleftrightarrow> (\<forall>c. is_whitespace c \<longrightarrow> \<not> uni_alnum E c)"

section \<open>Enumerations\<close>

datatype provider = Bybit | Binance | Okx | Kucoin | Mexc | Bingx

datatype market_kind = LinearPerpetual

datatype channel = Ticker | Candle1m

fun provider_name :: "provider \<Rightarrow> string" where
  "provider_name Bybit = ''bybit''"
| "provider_name Binance = ''binance''"
| "provider_name Okx = ''okx''"
| "provider_name Kucoin = ''kucoin''"
| "provider_name Mexc = ''mexc''"
| "provider_name Bingx = ''bingx''"

fun market_name :: "market_kind \<Rightarrow> string" where
  "market_name LinearPerpetual = ''linear_perpetual''"

fun channel_name :: "channel \<Rightarrow> string" where
  "channel_name Ticker = ''ticker''"
| "channel_name Candle1m = ''candle_1m''"

definition all_providers :: "provider list" where
  "all_providers = [Bybit, Binance, Okx, Kucoin, Mexc, Bingx]"

text \<open>The derived \<open>Ord\<close> of an enumeration is the order of its variants.\<close>

fun provider_rank :: "provider \<Rightarrow> nat" where
  "provider_rank Bybit = 0"
| "provider_rank Binance = 1"
| "provider_rank Okx = 2"
| "provider_rank Kucoin = 3"
| "provider_rank Mexc = 4"
| "provider_rank Bingx = 5"

fun channel_rank :: "channel \<Rightarrow> nat" where
  "channel_rank Ticker = 0"
| "channel_rank Candle1m = 1"

lemma provider_rank_inj: "provider_rank p = provider_rank q \<Longrightarrow> p = q"
  by (cases p; cases q) simp_all

lemma channel_rank_inj: "channel_rank c = channel_rank d \<Longrightarrow> c = d"
  by (cases c; cases d) simp_all

instantiation provider :: linorder
begin

definition less_eq_provider :: "provider \<Rightarrow> provider \<Rightarrow> bool" where
  "p \<le> q \<longleftrightarrow> provider_rank p \<le> provider_rank q"

definition less_provider :: "provider \<Rightarrow> provider \<Rightarrow> bool" where
  "p < q \<longleftrightarrow> provider_rank p < provider_rank q"

instance
  by standard (auto simp: less_eq_provider_def less_provider_def intro: provider_rank_inj)

end

instantiation channel :: linorder
begin

definition less_eq_channel :: "channel \<Rightarrow> channel \<Rightarrow> bool" where
  "c \<le> d \<longleftrightarrow> channel_rank c \<le> channel_rank d"

definition less_channel :: "channel \<Rightarrow> channel \<Rightarrow> bool" where
  "c < d \<longleftrightarrow> channel_rank c < channel_rank d"

instance
  by standard (auto simp: less_eq_channel_def less_channel_def intro: channel_rank_inj)

end

instantiation market_kind :: linorder
begin

definition less_eq_market_kind :: "market_kind \<Rightarrow> market_kind \<Rightarrow> bool" where
  "m \<le> n \<longleftrightarrow> (m :: market_kind) = n"

definition less_market_kind :: "market_kind \<Rightarrow> market_kind \<Rightarrow> bool" where
  "m < n \<longleftrightarrow> \<not> ((m :: market_kind) = n)"

instance
proof
  fix m n :: market_kind
  show "(m < n) = (m \<le> n \<and> \<not> n \<le> m)" "m \<le> m" "m \<le> n \<or> n \<le> m"
    by (cases m; cases n; simp add: less_eq_market_kind_def less_market_kind_def)+
qed (auto simp: less_eq_market_kind_def)

end

section \<open>Errors\<close>

datatype domain_error =
    InvalidSymbol string
  | NoChannels
  | InvalidDecimal string
  | InvalidMarketData string

fun domain_error_text :: "domain_error \<Rightarrow> string" where
  "domain_error_text (InvalidSymbol s) = ''invalid venue symbol: '' @ s"
| "domain_error_text NoChannels = ''subscription must contain at least one channel''"
| "domain_error_text (InvalidDecimal s) = ''invalid decimal value: '' @ s"
| "domain_error_text (InvalidMarketData s) = ''invalid normalized market data: '' @ s"

section \<open>Symbols\<close>

definition symbol_char :: "ext \<Rightarrow> string \<Rightarrow> bool" where
  "symbol_char E g \<longleftrightarrow>
     (let c = code_point g in is_alphanumeric (uni_alnum E) c \<or> c = 45 \<or> c = 95 \<or> c = 46)"

definition normalize_symbol :: "ext \<Rightarrow> string \<Rightarrow> domain_error + string" where
  "normalize_symbol E symbol =
     (let s = trim symbol
      in if s = [] \<or> length s > 64 then Inl (InvalidSymbol s)
         else if \<not> list_all (symbol_char E) (chars s) then Inl (InvalidSymbol s)
         else Inr (to_ascii_uppercase s))"

section \<open>Subscriptions\<close>

datatype sub_key = SubscriptionKey
  (key_provider: provider) (key_market: market_kind) (key_symbol: string) (key_channel: channel)

definition key_tuple :: "sub_key \<Rightarrow> provider \<times> market_kind \<times> string \<times> channel" where
  "key_tuple k = (key_provider k, key_market k, key_symbol k, key_channel k)"

lemma key_tuple_inj: "key_tuple k = key_tuple l \<Longrightarrow> k = l"
  by (cases k; cases l) (simp add: key_tuple_def)

instantiation sub_key :: linorder
begin

definition less_eq_sub_key :: "sub_key \<Rightarrow> sub_key \<Rightarrow> bool" where
  "k \<le> l \<longleftrightarrow> key_tuple k \<le> key_tuple l"

definition less_sub_key :: "sub_key \<Rightarrow> sub_key \<Rightarrow> bool" where
  "k < l \<longleftrightarrow> key_tuple k < key_tuple l"

instance
  by standard (auto simp: less_eq_sub_key_def less_sub_key_def intro: key_tuple_inj)

end

definition new_sub_key ::
  "ext \<Rightarrow> provider \<Rightarrow> market_kind \<Rightarrow> string \<Rightarrow> channel \<Rightarrow> domain_error + sub_key" where
  "new_sub_key E provider market symbol channel =
     and_then (normalize_symbol E symbol)
       (\<lambda>s. Inr (SubscriptionKey provider market s channel))"

definition instrument_id :: "sub_key \<Rightarrow> string" where
  "instrument_id k =
     provider_name (key_provider k) @ '':'' @ market_name (key_market k) @ '':'' @ key_symbol k"

record subscription =
  sub_provider :: provider
  sub_market :: market_kind
  sub_symbol :: string
  sub_channels :: "channel list"

definition into_keys :: "ext \<Rightarrow> subscription \<Rightarrow> domain_error + sub_key list" where
  "into_keys E s =
     (if sub_channels s = [] then Inl NoChannels
      else and_then (normalize_symbol E (sub_symbol s))
        (\<lambda>symbol. Inr (map (SubscriptionKey (sub_provider s) (sub_market s) symbol)
                         (remdups_adj (sort (sub_channels s))))))"

section \<open>Decimals, tickers and candles\<close>

datatype decimal_value = DecimalValue (as_str: string)

definition new_decimal_value :: "ext \<Rightarrow> string \<Rightarrow> domain_error + decimal_value" where
  "new_decimal_value E v =
     (case dec_from_str E v of None \<Rightarrow> Inl (InvalidDecimal v) | Some _ \<Rightarrow> Inr (DecimalValue v))"

definition decimal :: "ext \<Rightarrow> decimal_value \<Rightarrow> domain_error + decimal" where
  "decimal E v = ok_or (InvalidDecimal (as_str v)) (dec_from_str E (as_str v))"

record observed_decimal =
  od_value :: decimal_value
  od_observed_at_ms :: u64

definition new_observed_decimal :: "ext \<Rightarrow> string \<Rightarrow> u64 \<Rightarrow> domain_error + observed_decimal" where
  "new_observed_decimal E v t =
     and_then (new_decimal_value E v) (\<lambda>d. Inr \<lparr>od_value = d, od_observed_at_ms = t\<rparr>)"

record ticker =
  tk_last :: "observed_decimal option"
  tk_mark :: "observed_decimal option"
  tk_index :: "observed_decimal option"
  tk_bid :: "observed_decimal option"
  tk_ask :: "observed_decimal option"
  tk_funding_rate :: "observed_decimal option"
  tk_next_funding_time_ms :: "u64 option"

definition default_ticker :: ticker where
  "default_ticker = \<lparr>tk_last = None, tk_mark = None, tk_index = None, tk_bid = None,
     tk_ask = None, tk_funding_rate = None, tk_next_funding_time_ms = None\<rparr>"

definition has_price :: "ticker \<Rightarrow> bool" where
  "has_price t \<longleftrightarrow> tk_last t \<noteq> None \<or> tk_mark t \<noteq> None \<or> tk_index t \<noteq> None
     \<or> tk_bid t \<noteq> None \<or> tk_ask t \<noteq> None"

fun check_observations ::
  "ext \<Rightarrow> (string \<times> observed_decimal option) list \<Rightarrow> domain_error + unit" where
  "check_observations E [] = Inr ()"
| "check_observations E ((name, None) # rest) = check_observations E rest"
| "check_observations E ((name, Some obs) # rest) =
     (if od_observed_at_ms obs = 0
      then Inl (InvalidMarketData (name @ '' observation timestamp must be positive''))
      else and_then (decimal E (od_value obs)) (\<lambda>d.
        if dec_value d \<le> 0 then Inl (InvalidMarketData (name @ '' price must be positive''))
        else check_observations E rest))"

definition check_crossed ::
  "ext \<Rightarrow> observed_decimal option \<Rightarrow> observed_decimal option \<Rightarrow> domain_error + unit" where
  "check_crossed E bid ask =
     (case (bid, ask) of
        (Some b, Some a) \<Rightarrow>
          and_then (decimal E (od_value b)) (\<lambda>bv.
          and_then (decimal E (od_value a)) (\<lambda>av.
            if dec_value bv > dec_value av
            then Inl (InvalidMarketData ''best bid must not exceed best ask'') else Inr ()))
      | _ \<Rightarrow> Inr ())"

definition validate_ticker :: "ext \<Rightarrow> ticker \<Rightarrow> domain_error + unit" where
  "validate_ticker E t =
     and_then (check_observations E
       [(''last'', tk_last t), (''mark'', tk_mark t), (''index'', tk_index t),
        (''bid'', tk_bid t), (''ask'', tk_ask t)]) (\<lambda>_.
     if (case tk_funding_rate t of Some f \<Rightarrow> od_observed_at_ms f = 0 | None \<Rightarrow> False)
     then Inl (InvalidMarketData ''funding observation timestamp must be positive'')
     else and_then (check_crossed E (tk_bid t) (tk_ask t)) (\<lambda>_.
       if \<not> has_price t then Inl (InvalidMarketData ''ticker must contain at least one price'')
       else Inr ()))"

datatype candle_finality = Open | Closed | Unknown

datatype data_quality = ProviderVolumeUntrusted

record candle =
  cd_interval :: string
  cd_start_time_ms :: u64
  cd_end_time_ms :: u64
  cd_open :: decimal_value
  cd_high :: decimal_value
  cd_low :: decimal_value
  cd_close :: decimal_value
  cd_base_volume :: "decimal_value option"
  cd_quote_volume :: "decimal_value option"
  cd_contract_volume :: "decimal_value option"
  cd_finality :: candle_finality
  cd_data_quality :: "data_quality list"

fun check_volumes :: "ext \<Rightarrow> decimal_value option list \<Rightarrow> domain_error + unit" where
  "check_volumes E [] = Inr ()"
| "check_volumes E (None # rest) = check_volumes E rest"
| "check_volumes E (Some v # rest) =
     and_then (decimal E v) (\<lambda>d.
       if dec_value d < 0 then Inl (InvalidMarketData ''candle volume must not be negative'')
       else check_volumes E rest)"

definition validate_candle :: "ext \<Rightarrow> candle \<Rightarrow> domain_error + unit" where
  "validate_candle E c =
     (if cd_interval c \<noteq> ''1m''
         \<or> checked_sub (cd_end_time_ms c) (cd_start_time_ms c) \<noteq> Some 60000
      then Inl (InvalidMarketData ''candle must cover exactly one minute'')
      else
        and_then (decimal E (cd_open c)) (\<lambda>open'.
        and_then (decimal E (cd_high c)) (\<lambda>high.
        and_then (decimal E (cd_low c)) (\<lambda>low.
        and_then (decimal E (cd_close c)) (\<lambda>close.
          if list_ex (\<lambda>v. dec_value v \<le> 0) [open', high, low, close]
          then Inl (InvalidMarketData ''candle prices must be positive'')
          else if dec_value high < dec_value open' \<or> dec_value high < dec_value close
            \<or> dec_value high < dec_value low \<or> dec_value low > dec_value open'
            \<or> dec_value low > dec_value close
          then Inl (InvalidMarketData ''candle OHLC bounds are inconsistent'')
          else check_volumes E
            [cd_base_volume c, cd_quote_volume c, cd_contract_volume c])))))"

section \<open>Events\<close>

type_synonym uuid = "128 word"

definition SCHEMA_VERSION :: nat where
  "SCHEMA_VERSION = 1"

record source_sequence =
  sq_first :: "string option"
  sq_last :: "string option"
  sq_previous :: "string option"

datatype market_payload = TickerPayload ticker | CandlePayload candle

fun payload_channel :: "market_payload \<Rightarrow> channel" where
  "payload_channel (TickerPayload _) = Ticker"
| "payload_channel (CandlePayload _) = Candle1m"

fun validate_payload :: "ext \<Rightarrow> market_payload \<Rightarrow> domain_error + unit" where
  "validate_payload E (TickerPayload t) = validate_ticker E t"
| "validate_payload E (CandlePayload c) = validate_candle E c"

record market_event =
  me_schema_version :: nat
  me_stream_epoch :: uuid
  me_delivery_sequence :: u64
  me_connection_epoch :: uuid
  me_instrument_id :: string
  me_provider :: provider
  me_market :: market_kind
  me_symbol :: string
  me_exchange_time_ms :: "u64 option"
  me_gateway_received_time_ms :: u64
  me_source_sequence :: "source_sequence option"
  me_payload :: market_payload

definition subscription_key :: "market_event \<Rightarrow> sub_key" where
  "subscription_key e =
     SubscriptionKey (me_provider e) (me_market e) (me_symbol e) (payload_channel (me_payload e))"

record provider_event =
  pe_connection_epoch :: uuid
  pe_provider :: provider
  pe_market :: market_kind
  pe_symbol :: string
  pe_exchange_time_ms :: "u64 option"
  pe_gateway_received_time_ms :: u64
  pe_source_sequence :: "source_sequence option"
  pe_payload :: market_payload

definition into_market_event :: "provider_event \<Rightarrow> uuid \<Rightarrow> u64 \<Rightarrow> market_event" where
  "into_market_event e stream_epoch delivery_sequence =
     \<lparr>me_schema_version = SCHEMA_VERSION,
      me_stream_epoch = stream_epoch,
      me_delivery_sequence = delivery_sequence,
      me_connection_epoch = pe_connection_epoch e,
      me_instrument_id = provider_name (pe_provider e) @ '':'' @ market_name (pe_market e)
        @ '':'' @ pe_symbol e,
      me_provider = pe_provider e,
      me_market = pe_market e,
      me_symbol = pe_symbol e,
      me_exchange_time_ms = pe_exchange_time_ms e,
      me_gateway_received_time_ms = pe_gateway_received_time_ms e,
      me_source_sequence = pe_source_sequence e,
      me_payload = pe_payload e\<rparr>"

definition validate_event :: "ext \<Rightarrow> provider_event \<Rightarrow> domain_error + unit" where
  "validate_event E e =
     (if pe_gateway_received_time_ms e = 0
      then Inl (InvalidMarketData ''gateway receive timestamp must be positive'')
      else validate_payload E (pe_payload e))"

definition event_key :: "provider_event \<Rightarrow> sub_key" where
  "event_key e =
     SubscriptionKey (pe_provider e) (pe_market e) (pe_symbol e) (payload_channel (pe_payload e))"

section \<open>What the validators promise\<close>

text \<open>The declarative reading of the ticker and candle rules, against which the validators
  are proved.\<close>

definition sound_price :: "ext \<Rightarrow> observed_decimal option \<Rightarrow> bool" where
  "sound_price E obs \<longleftrightarrow> (case obs of None \<Rightarrow> True
     | Some ob \<Rightarrow> od_observed_at_ms ob \<noteq> 0
         \<and> (\<exists>d. dec_from_str E (as_str (od_value ob)) = Some d \<and> 0 < dec_value d))"

definition uncrossed :: "ext \<Rightarrow> ticker \<Rightarrow> bool" where
  "uncrossed E t \<longleftrightarrow> (\<forall>b a bv av. tk_bid t = Some b \<longrightarrow> tk_ask t = Some a \<longrightarrow>
     dec_from_str E (as_str (od_value b)) = Some bv \<longrightarrow>
     dec_from_str E (as_str (od_value a)) = Some av \<longrightarrow> dec_value bv \<le> dec_value av)"

definition sound_ticker :: "ext \<Rightarrow> ticker \<Rightarrow> bool" where
  "sound_ticker E t \<longleftrightarrow>
     sound_price E (tk_last t) \<and> sound_price E (tk_mark t) \<and> sound_price E (tk_index t) \<and>
     sound_price E (tk_bid t) \<and> sound_price E (tk_ask t) \<and>
     (\<forall>f. tk_funding_rate t = Some f \<longrightarrow> od_observed_at_ms f \<noteq> 0) \<and>
     uncrossed E t \<and> has_price t"

definition sound_volume :: "ext \<Rightarrow> decimal_value option \<Rightarrow> bool" where
  "sound_volume E v \<longleftrightarrow> (case v of None \<Rightarrow> True
     | Some x \<Rightarrow> (\<exists>d. dec_from_str E (as_str x) = Some d \<and> 0 \<le> dec_value d))"

definition sound_candle :: "ext \<Rightarrow> candle \<Rightarrow> bool" where
  "sound_candle E c \<longleftrightarrow>
     cd_interval c = ''1m'' \<and> unat (cd_end_time_ms c) = unat (cd_start_time_ms c) + 60000 \<and>
     (\<exists>o' h l cl.
        dec_from_str E (as_str (cd_open c)) = Some o' \<and> dec_from_str E (as_str (cd_high c)) = Some h \<and>
        dec_from_str E (as_str (cd_low c)) = Some l \<and> dec_from_str E (as_str (cd_close c)) = Some cl \<and>
        0 < dec_value l \<and> dec_value l \<le> dec_value o' \<and> dec_value l \<le> dec_value cl \<and>
        dec_value o' \<le> dec_value h \<and> dec_value cl \<le> dec_value h) \<and>
     sound_volume E (cd_base_volume c) \<and> sound_volume E (cd_quote_volume c) \<and>
     sound_volume E (cd_contract_volume c)"

section \<open>Lemmas\<close>

lemma decimal_Inr [result_simps]:
  "decimal E v = Inr d \<longleftrightarrow> dec_from_str E (as_str v) = Some d"
  by (simp add: decimal_def ok_or_Inr)

lemma and_then_decimal:
  "and_then (decimal E v) f =
     (case dec_from_str E (as_str v) of None \<Rightarrow> Inl (InvalidDecimal (as_str v)) | Some d \<Rightarrow> f d)"
  by (simp add: decimal_def split: option.splits)

lemma check_observations_Inr:
  "check_observations E obs = Inr () \<longleftrightarrow> (\<forall>(name, v) \<in> set obs. sound_price E v)"
proof (induction E obs rule: check_observations.induct)
  case (3 E name ob rest)
  then show ?case
    by (cases "dec_from_str E (as_str (od_value ob))")
      (auto simp: sound_price_def and_then_decimal decimal_Inr)
qed (simp_all add: sound_price_def)

lemma check_crossed_Inr:
  assumes "sound_price E (tk_bid t)" and "sound_price E (tk_ask t)"
  shows "check_crossed E (tk_bid t) (tk_ask t) = Inr () \<longleftrightarrow> uncrossed E t"
  using assms
  by (auto simp: check_crossed_def uncrossed_def sound_price_def and_then_decimal
      split: option.splits)

lemma check_volumes_Inr:
  "check_volumes E vs = Inr () \<longleftrightarrow> (\<forall>v \<in> set vs. sound_volume E v)"
proof (induction E vs rule: check_volumes.induct)
  case (3 E v rest)
  then show ?case
    by (cases "dec_from_str E (as_str v)")
      (auto simp: sound_volume_def and_then_decimal decimal_Inr)
qed (simp_all add: sound_volume_def)

lemma one_minute:
  "checked_sub e s = Some 60000 \<longleftrightarrow> unat e = unat s + 60000"
  by (auto simp: checked_sub_Some)


lemma validate_candle_sound: "validate_candle E c = Inr () \<longleftrightarrow> sound_candle E c"
  unfolding validate_candle_def sound_candle_def
  by (simp add: and_then_decimal check_volumes_Inr one_minute split: option.split)
    (auto simp: not_less not_le)

lemma ascii_symbol_no_space:
  "is_ascii_alphanumeric c \<or> c = 45 \<or> c = 95 \<or> c = 46 \<Longrightarrow> \<not> is_whitespace c"
  unfolding is_ascii_alphanumeric_def is_ascii_digit_def is_whitespace_def by linarith

lemma symbol_char_no_space:
  assumes "unicode_classes_disjoint E" and "symbol_char E g"
  shows "\<not> is_whitespace (code_point g)"
proof (cases "is_alphanumeric (uni_alnum E) (code_point g) \<and> 128 \<le> code_point g")
  case True
  with assms(1) show ?thesis by (auto simp: unicode_classes_disjoint_def is_alphanumeric_def)
next
  case False
  with assms(2) show ?thesis
    by (intro ascii_symbol_no_space) (auto simp: symbol_char_def is_alphanumeric_def Let_def)
qed

lemma symbol_char_upper:
  assumes "char_group g" and "symbol_char E g"
  shows "symbol_char E (map ascii_upper g)"
proof (cases g)
  case (Cons c cs)
  show ?thesis
  proof (cases "cs = []")
    case True
    with Cons assms(2) show ?thesis
      by (auto simp: symbol_char_def code_point_def of_char_upper is_alphanumeric_def
          is_ascii_alphanumeric_def is_ascii_digit_def Let_def split: if_splits)
  next
    case False
    with Cons assms code_point_upper [of c cs] show ?thesis by (simp add: symbol_char_def)
  qed
qed (use assms in \<open>simp add: char_group_def\<close>)

lemma normalize_symbol_Inr:
  "normalize_symbol E s = Inr t \<longleftrightarrow>
     trim s \<noteq> [] \<and> length (trim s) \<le> 64 \<and> list_all (symbol_char E) (chars (trim s)) \<and>
     t = to_ascii_uppercase (trim s)"
  by (auto simp: normalize_symbol_def Let_def)

lemma normalized_chars:
  "list_all (symbol_char E) (chars s) \<Longrightarrow> list_all (symbol_char E) (chars (to_ascii_uppercase s))"
  using symbol_char_upper char_group_chars
  by (auto simp: to_ascii_uppercase_def chars_map_upper list_all_iff)

lemma normalize_symbol_fixed:
  assumes "unicode_classes_disjoint E" and "normalize_symbol E s = Inr t"
  shows "normalize_symbol E t = Inr t"
proof -
  let ?u = "trim s"
  from assms(2) have u: "?u \<noteq> []" "length ?u \<le> 64" "list_all (symbol_char E) (chars ?u)"
    and t: "t = to_ascii_uppercase ?u"
    by (auto simp: normalize_symbol_Inr)
  from u(3) have c: "list_all (symbol_char E) (chars t)"
    unfolding t by (rule normalized_chars)
  then have "trim t = t"
    using symbol_char_no_space [OF assms(1)] by (intro trim_id) (simp add: list_all_iff)
  moreover from u t have "t \<noteq> []" "length t \<le> 64" "to_ascii_uppercase t = t"
    by (auto simp: to_ascii_uppercase_def)
  ultimately show ?thesis using c by (simp add: normalize_symbol_Inr)
qed

lemma sorted_dedup: "sorted_wrt (<) (remdups_adj (sort (xs :: 'a :: linorder list)))"
proof -
  have "sorted xs \<Longrightarrow> sorted_wrt (<) (remdups_adj xs)" for xs :: "'a list"
    by (induction xs rule: remdups_adj.induct) (auto simp: order_le_neq_trans order_less_le_trans)
  then show ?thesis by simp
qed

lemma provider_name_no_colon: "CHR '':'' \<notin> set (provider_name p)"
  by (cases p) simp_all

lemma provider_name_inj: "provider_name p = provider_name q \<Longrightarrow> p = q"
  by (cases p; cases q) simp_all

lemma takeWhile_colon:
  "CHR '':'' \<notin> set xs \<Longrightarrow> takeWhile (\<lambda>c. c \<noteq> CHR '':'') (xs @ CHR '':'' # ys) = xs"
  by (auto simp: takeWhile_append)

lemma instrument_id_provider:
  assumes "instrument_id k = instrument_id l"
  shows "key_provider k = key_provider l"
proof -
  have "takeWhile (\<lambda>c. c \<noteq> CHR '':'') (instrument_id j) = provider_name (key_provider j)" for j
    using takeWhile_colon [OF provider_name_no_colon] by (simp add: instrument_id_def)
  with assms show ?thesis by (metis provider_name_inj)
qed

lemma all_providers_complete [simp]: "p \<in> set all_providers"
  by (cases p) (simp_all add: all_providers_def)

lemma market_kind_eq: "(m :: market_kind) = n"
  by (cases m; cases n) simp

lemma into_market_event_key [simp]: "subscription_key (into_market_event e u n) = event_key e"
  by (simp add: subscription_key_def into_market_event_def event_key_def)

lemma into_market_event_sequence [simp]: "me_delivery_sequence (into_market_event e u n) = n"
  by (simp add: into_market_event_def)

section \<open>Properties\<close>

text \<open>
  Normalizing a symbol is idempotent and lands in the venue alphabet: the result is
  non-empty, at most 64 bytes, has no ASCII lower-case letter and no surrounding white space,
  and normalizing it again returns it unchanged.
\<close>

theorem normalize_symbol_canonical:
  assumes "unicode_classes_disjoint E" and "normalize_symbol E s = Inr t"
  shows "t \<noteq> [] \<and> length t \<le> 64 \<and> to_ascii_uppercase t = t \<and>
    list_all (symbol_char E) (chars t) \<and> trim t = t \<and> normalize_symbol E t = Inr t"
proof -
  from normalize_symbol_fixed [OF assms] have "normalize_symbol E t = Inr t" .
  moreover from assms(2) have "length t \<le> 64" "t \<noteq> []" "to_ascii_uppercase t = t"
    "list_all (symbol_char E) (chars t)"
    using normalized_chars by (auto simp: normalize_symbol_Inr to_ascii_uppercase_def)
  moreover from this(4) have "trim t = t"
    using symbol_char_no_space [OF assms(1)] by (intro trim_id) (simp add: list_all_iff)
  ultimately show ?thesis by blast
qed

text \<open>
  Expanding a client subscription yields one key per distinct requested channel, in
  strictly ascending order, all with the normalized symbol, and fails exactly when no channel
  was requested or the symbol does not normalize.
\<close>

theorem into_keys_spec:
  "into_keys E s =
     (if sub_channels s = [] then Inl NoChannels
      else case normalize_symbol E (sub_symbol s) of Inl e \<Rightarrow> Inl e
        | Inr t \<Rightarrow> Inr (sorted_list_of_set
            {SubscriptionKey (sub_provider s) (sub_market s) t c | c. c \<in> set (sub_channels s)}))"
proof (cases "normalize_symbol E (sub_symbol s)")
  case (Inr t)
  let ?f = "SubscriptionKey (sub_provider s) (sub_market s) t"
  let ?cs = "remdups_adj (sort (sub_channels s))"
  have "?f c < ?f d \<longleftrightarrow> c < d" for c d
    by (simp add: less_sub_key_def key_tuple_def)
  then have "sorted_wrt (<) (map ?f ?cs)"
    using sorted_dedup [of "sub_channels s"] by (simp add: sorted_wrt_map)
  then have "map ?f ?cs = sorted_list_of_set (set (map ?f ?cs))"
    by (intro strict_sorted_equal) (simp_all del: set_map)
  moreover have "set (map ?f ?cs) = {?f c | c. c \<in> set (sub_channels s)}" by auto
  ultimately show ?thesis using Inr by (simp add: into_keys_def)
qed (simp add: into_keys_def)

text \<open>
  A ticker passes validation exactly when each quoted price is a positive decimal with a
  positive observation time, a reported funding rate has one too, the best bid does not exceed
  the best ask, and at least one price is present.
\<close>

theorem validate_ticker_iff:
  "validate_ticker E t = Inr () \<longleftrightarrow> sound_ticker E t"
  using check_crossed_Inr [of E t]
  by (auto simp: validate_ticker_def sound_ticker_def and_then_Inr check_observations_Inr
      split: option.splits)

text \<open>
  (C40) A candle passes validation exactly when it is a one-minute candle whose end is its
  start plus 60,000 ms without wrap-around, its prices are positive decimals with
  low \<open>\<le>\<close> open, close \<open>\<le>\<close> high, and every reported volume is a non-negative decimal.
\<close>

theorem validate_candle_iff:
  "validate_candle E c = Inr () \<longleftrightarrow> sound_candle E c"
  by (rule validate_candle_sound)

text \<open>
  The instrument identifier is injective: two keys with the same identifier name the same
  provider, market and symbol, whatever characters the symbol holds.
\<close>

theorem instrument_id_injective:
  assumes "instrument_id k = instrument_id l"
  shows "key_provider k = key_provider l \<and> key_market k = key_market l \<and> key_symbol k = key_symbol l"
proof -
  from assms have "key_provider k = key_provider l" by (rule instrument_id_provider)
  moreover have "key_market k = key_market l" by (rule market_kind_eq)
  ultimately show ?thesis using assms by (simp add: instrument_id_def)
qed

subsection \<open>Witnesses\<close>

text \<open>A library that knows no letter or digit beyond ASCII and reads unsigned integers.\<close>

definition sample_decimal :: "string \<Rightarrow> decimal option" where
  "sample_decimal s = (if s \<noteq> [] \<and> all_digits s then Some (Decimal (int (digits_value s)) 0) else None)"

definition sample_lib :: ext where
  "sample_lib = \<lparr>uni_alnum = (\<lambda>_. False), dec_from_str = sample_decimal,
     dec_from_scientific = (\<lambda>_. None), dec_to_string = (\<lambda>d. show_int (mantissa d)),
     dec_checked_mul = (\<lambda>a b. Some (Decimal (mantissa a * mantissa b) (scale a + scale b))),
     dec_normalize = (\<lambda>d. d)\<rparr>"

lemma sample_lib_unicode: "unicode_classes_disjoint sample_lib"
  by (simp add: unicode_classes_disjoint_def sample_lib_def)

lemma sample_symbol: "normalize_symbol sample_lib '' btc'' = Inr ''BTC''"
  by (simp add: normalize_symbol_def Let_def trim_def trim_start_chars_def is_cont_def code_point_def
      is_whitespace_def symbol_char_def is_alphanumeric_def is_ascii_alphanumeric_def is_ascii_digit_def
      to_ascii_uppercase_def ascii_upper_def char_of_eq_iff)

theorem normalize_symbol_canonical_witness:
  "unicode_classes_disjoint sample_lib \<and> normalize_symbol sample_lib '' btc'' = Inr ''BTC'' \<and>
     normalize_symbol sample_lib ''BTC'' = Inr ''BTC''"
  using normalize_symbol_canonical [OF sample_lib_unicode sample_symbol] sample_lib_unicode sample_symbol
  by blast

theorem instrument_id_injective_witness:
  "instrument_id (SubscriptionKey Okx LinearPerpetual ''A:B'' Ticker) =
     instrument_id (SubscriptionKey Okx LinearPerpetual ''A:B'' Candle1m) \<and>
   key_symbol (SubscriptionKey Okx LinearPerpetual ''A:B'' Ticker) =
     key_symbol (SubscriptionKey Okx LinearPerpetual ''A:B'' Candle1m)"
  using instrument_id_injective
    [of "SubscriptionKey Okx LinearPerpetual ''A:B'' Ticker" "SubscriptionKey Okx LinearPerpetual ''A:B'' Candle1m"]
  by (simp add: instrument_id_def)

end
