(* ===== verification/Providers.thy ===== *)
theory Providers
  imports Domain
begin

text \<open>
  The interface between the gateway and a venue (\<^verbatim>\<open>src/src/providers/mod.rs\<close>): endpoints,
  connection parameters, outbound commands, parsed frames, adapter errors with the text they
  display, and the two traits. A trait object is the record of its methods: \<open>adapter\<close> for
  \<open>ProviderAdapter\<close> and the \<open>as_\<close> fields for \<open>AdapterSession\<close>, whose receiver
  \<open>&mut self\<close> is a session state \<open>'s\<close> passed in and returned.
\<close>

section \<open>Data\<close>

datatype endpoint_kind = Primary | Public | Business

fun endpoint_name :: "endpoint_kind \<Rightarrow> string" where
  "endpoint_name Primary = ''primary''"
| "endpoint_name Public = ''public''"
| "endpoint_name Business = ''business''"

fun endpoint_rank :: "endpoint_kind \<Rightarrow> nat" where
  "endpoint_rank Primary = 0"
| "endpoint_rank Public = 1"
| "endpoint_rank Business = 2"

lemma endpoint_rank_inj: "endpoint_rank p = endpoint_rank q \<Longrightarrow> p = q"
  by (cases p; cases q) simp_all

instantiation endpoint_kind :: linorder
begin

definition less_eq_endpoint_kind :: "endpoint_kind \<Rightarrow> endpoint_kind \<Rightarrow> bool" where
  "p \<le> q \<longleftrightarrow> endpoint_rank p \<le> endpoint_rank q"

definition less_endpoint_kind :: "endpoint_kind \<Rightarrow> endpoint_kind \<Rightarrow> bool" where
  "p < q \<longleftrightarrow> endpoint_rank p < endpoint_rank q"

instance
  by standard (auto simp: less_eq_endpoint_kind_def less_endpoint_kind_def intro: endpoint_rank_inj)

end

definition DEFAULT_MAX_PROVIDER_SUBSCRIPTIONS :: usize where
  "DEFAULT_MAX_PROVIDER_SUBSCRIPTIONS = 1000"

record connection_target =
  ct_url :: string
  ct_command_interval :: duration
  ct_subscription_ack_timeout :: duration
  ct_heartbeat_interval :: duration
  ct_stale_after :: duration
  ct_max_message_bytes :: usize
  ct_rotate_after :: "duration option"

datatype subscription_action = Subscribe | Unsubscribe

datatype heartbeat = HeartbeatText string | WebSocketPing string

record outbound_command =
  oc_request_id :: string
  oc_text :: string
  oc_expected_acknowledgements :: usize

datatype parsed_frame =
    Events "provider_event list"
  | Acknowledgement string
  | Reply heartbeat
  | Pong
  | Ignored

datatype adapter_error =
    UnsupportedEndpoint provider endpoint_kind
  | InvalidSubscription provider string
  | InvalidPayload provider string
  | CommandRejected provider string
  | Discovery provider string

fun show_adapter_error :: "adapter_error \<Rightarrow> string" where
  "show_adapter_error (UnsupportedEndpoint p e) =
     ''unsupported '' @ provider_name p @ '' endpoint '' @ endpoint_name e"
| "show_adapter_error (InvalidSubscription p m) =
     ''invalid subscription for '' @ provider_name p @ '': '' @ m"
| "show_adapter_error (InvalidPayload p m) = provider_name p @ '' returned invalid data: '' @ m"
| "show_adapter_error (CommandRejected p m) = provider_name p @ '' rejected a command: '' @ m"
| "show_adapter_error (Discovery p m) =
     ''could not discover '' @ provider_name p @ '' websocket endpoint: '' @ m"

section \<open>Traits\<close>

record 's adapter =
  ad_provider :: provider
  ad_endpoints :: "endpoint_kind list"
  ad_endpoint_for :: "channel \<Rightarrow> endpoint_kind"
  ad_max_subscriptions :: usize
  ad_session :: "endpoint_kind \<Rightarrow> uuid \<Rightarrow> 's"
  as_subscription_messages ::
    "'s \<Rightarrow> subscription_action \<Rightarrow> sub_key list \<Rightarrow> 's \<times> (adapter_error + outbound_command list)"
  as_heartbeat :: "'s \<Rightarrow> 's \<times> heartbeat"
  as_parse :: "'s \<Rightarrow> string \<Rightarrow> u64 \<Rightarrow> 's \<times> (adapter_error + parsed_frame)"

definition validate_subscriptions :: "provider \<Rightarrow> sub_key list \<Rightarrow> adapter_error + unit" where
  "validate_subscriptions p subs =
     (case find (\<lambda>k. key_provider k \<noteq> p) subs of
        Some k \<Rightarrow> Inl (InvalidSubscription p
          (''received '' @ provider_name (key_provider k) @ '' subscription for '' @ key_symbol k))
      | None \<Rightarrow> Inr ())"

section \<open>Lemmas\<close>

lemma validate_subscriptions_ok:
  "validate_subscriptions p subs = Inr () \<longleftrightarrow> (\<forall>k \<in> set subs. key_provider k = p)"
  using find_None_iff [of "\<lambda>k. key_provider k \<noteq> p" subs]
  by (auto simp: validate_subscriptions_def split: option.splits)

end
