(* ===== verification/Config.thy ===== *)
theory Config
  imports Providers
begin

text \<open>
  The settings of the gateway (\<^verbatim>\<open>src/src/config.rs\<close>): their validation, the durations
  derived from them and the set of enabled providers. Command-line parsing is clap's; a
  \<open>Url\<close> is the components the code reads of one.
\<close>

section \<open>Settings\<close>

record url =
  url_text :: string
  url_scheme :: string
  url_path :: string
  url_query :: "string option"
  url_fragment :: "string option"

datatype log_format = Json | Pretty

datatype provider_selection =
    SelAll | SelNone | SelBybit | SelBinance | SelOkx | SelKucoin | SelMexc | SelBingx

fun selection_provider :: "provider_selection \<Rightarrow> provider option" where
  "selection_provider SelAll = None"
| "selection_provider SelNone = None"
| "selection_provider SelBybit = Some Bybit"
| "selection_provider SelBinance = Some Binance"
| "selection_provider SelOkx = Some Okx"
| "selection_provider SelKucoin = Some Kucoin"
| "selection_provider SelMexc = Some Mexc"
| "selection_provider SelBingx = Some Bingx"

record settings =
  st_bind :: string
  st_log_format :: log_format
  st_downstream_buffer :: usize
  st_max_downstream_clients :: usize
  st_max_client_subscriptions :: usize
  st_max_provider_subscriptions :: "usize option"
  st_max_command_bytes :: usize
  st_max_history_requests :: usize
  st_allowed_origins :: "string list"
  st_upstream_backoff_min_ms :: u64
  st_upstream_backoff_max_ms :: u64
  st_stable_connection_seconds :: u64
  st_shutdown_grace_seconds :: u64
  st_catalog_refresh_seconds :: u64
  st_bybit_ws_url :: url
  st_binance_ws_url :: url
  st_okx_public_ws_url :: url
  st_okx_business_ws_url :: url
  st_mexc_ws_url :: url
  st_bingx_ws_url :: url
  st_bybit_rest_url :: url
  st_binance_futures_rest_url :: url
  st_okx_rest_url :: url
  st_kucoin_futures_rest_url :: url
  st_mexc_futures_rest_url :: url
  st_bingx_swap_rest_url :: url
  st_providers :: "provider_selection list"

section \<open>Validation\<close>

fun check_ws_urls :: "(string \<times> url) list \<Rightarrow> string + unit" where
  "check_ws_urls [] = Inr ()"
| "check_ws_urls ((name, u) # rest) =
     (if url_scheme u \<noteq> ''ws'' \<and> url_scheme u \<noteq> ''wss'' then Inl (name @ '' URL must use ws or wss'')
      else check_ws_urls rest)"

fun check_rest_urls :: "(string \<times> url) list \<Rightarrow> string + unit" where
  "check_rest_urls [] = Inr ()"
| "check_rest_urls ((name, u) # rest) =
     (if url_scheme u \<noteq> ''http'' \<and> url_scheme u \<noteq> ''https''
      then Inl (name @ '' URL must use http or https'')
      else if url_query u \<noteq> None \<or> url_fragment u \<noteq> None \<or> \<not> ends_with ''/'' (url_path u)
      then Inl (name @ '' URL must be a root URL ending in / without a query or fragment'')
      else check_rest_urls rest)"

definition ws_urls :: "settings \<Rightarrow> (string \<times> url) list" where
  "ws_urls st =
     [(''Bybit websocket'', st_bybit_ws_url st),
      (''Binance websocket'', st_binance_ws_url st),
      (''OKX public websocket'', st_okx_public_ws_url st),
      (''OKX business websocket'', st_okx_business_ws_url st),
      (''MEXC websocket'', st_mexc_ws_url st),
      (''BingX websocket'', st_bingx_ws_url st)]"

definition rest_urls :: "settings \<Rightarrow> (string \<times> url) list" where
  "rest_urls st =
     [(''Bybit REST'', st_bybit_rest_url st),
      (''Binance Futures REST'', st_binance_futures_rest_url st),
      (''OKX REST'', st_okx_rest_url st),
      (''KuCoin Futures REST'', st_kucoin_futures_rest_url st),
      (''MEXC Futures REST'', st_mexc_futures_rest_url st),
      (''BingX Swap REST'', st_bingx_swap_rest_url st)]"

definition validate_settings :: "settings \<Rightarrow> string + unit" where
  "validate_settings st =
     (if st_downstream_buffer st = 0 then Inl ''downstream buffer must be greater than zero''
      else if st_max_downstream_clients st = 0
      then Inl ''max downstream clients must be greater than zero''
      else if st_max_client_subscriptions st = 0
      then Inl ''max client subscriptions must be greater than zero''
      else if st_max_provider_subscriptions st = Some 0
      then Inl ''max provider subscriptions must be greater than zero''
      else if st_max_command_bytes st = 0 then Inl ''max command bytes must be greater than zero''
      else if st_max_history_requests st = 0
      then Inl ''max history requests must be greater than zero''
      else if st_upstream_backoff_min_ms st = 0
        \<or> st_upstream_backoff_max_ms st < st_upstream_backoff_min_ms st
      then Inl ''upstream reconnect backoff range is invalid''
      else if st_stable_connection_seconds st = 0 \<or> st_shutdown_grace_seconds st = 0
        \<or> st_catalog_refresh_seconds st = 0
      then Inl ''connection stability, shutdown, and catalog refresh durations must be positive''
      else
        and_then (check_ws_urls (ws_urls st)) (\<lambda>_.
        and_then (check_rest_urls (rest_urls st)) (\<lambda>_.
          if st_providers st = [] then Inl ''providers must contain at least one selection''
          else if (SelAll \<in> set (st_providers st) \<or> SelNone \<in> set (st_providers st))
            \<and> length (st_providers st) \<noteq> 1
          then Inl ''all and none provider selections cannot be combined''
          else if [] \<in> set (st_allowed_origins st)
          then Inl ''allowed origins must not contain an empty value''
          else Inr ())))"

definition backoff_min :: "settings \<Rightarrow> duration" where
  "backoff_min st = from_millis (st_upstream_backoff_min_ms st)"

definition backoff_max :: "settings \<Rightarrow> duration" where
  "backoff_max st = from_millis (st_upstream_backoff_max_ms st)"

definition stable_connection_duration :: "settings \<Rightarrow> duration" where
  "stable_connection_duration st = from_secs (st_stable_connection_seconds st)"

definition shutdown_grace :: "settings \<Rightarrow> duration" where
  "shutdown_grace st = from_secs (st_shutdown_grace_seconds st)"

definition catalog_refresh_interval :: "settings \<Rightarrow> duration" where
  "catalog_refresh_interval st = from_secs (st_catalog_refresh_seconds st)"

definition enabled_providers :: "settings \<Rightarrow> provider set" where
  "enabled_providers st =
     (if SelNone \<in> set (st_providers st) then {}
      else if SelAll \<in> set (st_providers st) then {Bybit, Binance, Okx, Kucoin, Mexc, Bingx}
      else set (List.map_filter selection_provider (st_providers st)))"

section \<open>Specification\<close>

definition ws_url_ok :: "url \<Rightarrow> bool" where
  "ws_url_ok u \<longleftrightarrow> url_scheme u \<in> {''ws'', ''wss''}"

definition rest_url_ok :: "url \<Rightarrow> bool" where
  "rest_url_ok u \<longleftrightarrow> url_scheme u \<in> {''http'', ''https''} \<and> url_query u = None \<and>
     url_fragment u = None \<and> url_path u \<noteq> [] \<and> last (url_path u) = CHR ''/''"

definition selection_ok :: "provider_selection list \<Rightarrow> bool" where
  "selection_ok ps \<longleftrightarrow> ps \<noteq> [] \<and> (ps = [SelAll] \<or> ps = [SelNone] \<or> set ps \<inter> {SelAll, SelNone} = {})"

section \<open>Lemmas\<close>

lemma check_ws_urls_ok: "check_ws_urls us = Inr () \<longleftrightarrow> (\<forall>(n, u) \<in> set us. ws_url_ok u)"
  by (induction us rule: check_ws_urls.induct) (auto simp: ws_url_ok_def)

lemma ends_with_slash: "ends_with ''/'' s \<longleftrightarrow> s \<noteq> [] \<and> last s = CHR ''/''"
  by (cases s rule: rev_cases) (auto simp: ends_with_def)

lemma check_rest_urls_ok: "check_rest_urls us = Inr () \<longleftrightarrow> (\<forall>(n, u) \<in> set us. rest_url_ok u)"
  by (induction us rule: check_rest_urls.induct) (auto simp: rest_url_ok_def ends_with_slash)

lemma selection_ok_alt:
  "selection_ok ps \<longleftrightarrow>
     ps \<noteq> [] \<and> \<not> ((SelAll \<in> set ps \<or> SelNone \<in> set ps) \<and> length ps \<noteq> 1)"
  by (cases ps; cases "tl ps") (auto simp: selection_ok_def)

lemma unit_result: "r = Inr () \<longleftrightarrow> (\<nexists>e. r = Inl (e :: 'e))" for r :: "'e + unit"
  by (cases r) auto

lemma validate_settings_ok:
  "validate_settings st = Inr () \<longleftrightarrow>
     0 < st_downstream_buffer st \<and> 0 < st_max_downstream_clients st \<and>
     0 < st_max_client_subscriptions st \<and> st_max_provider_subscriptions st \<noteq> Some 0 \<and>
     0 < st_max_command_bytes st \<and> 0 < st_max_history_requests st \<and>
     0 < backoff_min st \<and> backoff_min st \<le> backoff_max st \<and>
     0 < stable_connection_duration st \<and> 0 < shutdown_grace st \<and> 0 < catalog_refresh_interval st \<and>
     list_all (\<lambda>(n, u). ws_url_ok u) (ws_urls st) \<and> list_all (\<lambda>(n, u). rest_url_ok u) (rest_urls st) \<and>
     selection_ok (st_providers st) \<and> [] \<notin> set (st_allowed_origins st)"
proof -
  have pos: "0 < from_millis n \<longleftrightarrow> n \<noteq> 0" "0 < from_secs n \<longleftrightarrow> n \<noteq> 0" for n
    by (simp_all add: from_millis_def from_secs_def unat_gt_0)
  have le: "from_millis m \<le> from_millis n \<longleftrightarrow> \<not> n < m" for m n
    by (simp add: from_millis_def word_less_nat_alt not_less)
  show ?thesis
    unfolding validate_settings_def backoff_min_def backoff_max_def stable_connection_duration_def
      shutdown_grace_def catalog_refresh_interval_def pos le selection_ok_alt list_all_iff
      check_ws_urls_ok [symmetric] check_rest_urls_ok [symmetric]
    by (auto simp: and_then_def split: sum.splits)
qed

lemma validated_selection: "validate_settings st = Inr () \<Longrightarrow> selection_ok (st_providers st)"
  by (simp add: validate_settings_ok)

section \<open>Properties\<close>

text \<open>
  Settings pass validation exactly when every buffer and limit is positive, the reconnect
  range is positive and not inverted, the durations are positive, every websocket URL is ws or
  wss, every REST URL is an http(s) root ending in a slash without query or fragment, the
  provider selection is either \<open>all\<close>, \<open>none\<close> or a non-empty list of providers, and
  no allowed origin is empty.
\<close>

theorem validate_settings_iff:
  "validate_settings st = Inr () \<longleftrightarrow>
     0 < st_downstream_buffer st \<and> 0 < st_max_downstream_clients st \<and>
     0 < st_max_client_subscriptions st \<and> st_max_provider_subscriptions st \<noteq> Some 0 \<and>
     0 < st_max_command_bytes st \<and> 0 < st_max_history_requests st \<and>
     0 < backoff_min st \<and> backoff_min st \<le> backoff_max st \<and>
     0 < stable_connection_duration st \<and> 0 < shutdown_grace st \<and> 0 < catalog_refresh_interval st \<and>
     list_all (\<lambda>(n, u). ws_url_ok u) (ws_urls st) \<and> list_all (\<lambda>(n, u). rest_url_ok u) (rest_urls st) \<and>
     selection_ok (st_providers st) \<and> [] \<notin> set (st_allowed_origins st)"
  by (rule validate_settings_ok)

text \<open>
  With validated settings the enabled providers are all six for \<open>all\<close>, none for
  \<open>none\<close>, and otherwise exactly the providers that the selection names.
\<close>

theorem enabled_providers_spec:
  assumes "validate_settings st = Inr ()"
  shows "p \<in> enabled_providers st \<longleftrightarrow>
    st_providers st = [SelAll] \<or> (\<exists>s \<in> set (st_providers st). selection_provider s = Some p)"
proof -
  have ok: "selection_ok (st_providers st)" by (rule validated_selection [OF assms])
  have "p \<in> {Bybit, Binance, Okx, Kucoin, Mexc, Bingx}" by (cases p) simp_all
  with ok show ?thesis
    by (auto simp: enabled_providers_def selection_ok_def List.map_filter_def image_iff)
qed

subsection \<open>Witnesses\<close>

definition sample_url :: "string \<Rightarrow> url" where
  "sample_url scheme = \<lparr>url_text = scheme @ ''://x/'', url_scheme = scheme, url_path = ''/'',
     url_query = None, url_fragment = None\<rparr>"

definition sample_settings :: settings where
  "sample_settings = \<lparr>st_bind = ''127.0.0.1:8080'', st_log_format = Json, st_downstream_buffer = 4096,
     st_max_downstream_clients = 64, st_max_client_subscriptions = 512,
     st_max_provider_subscriptions = None, st_max_command_bytes = 65536, st_max_history_requests = 8,
     st_allowed_origins = [], st_upstream_backoff_min_ms = 500, st_upstream_backoff_max_ms = 30000,
     st_stable_connection_seconds = 60, st_shutdown_grace_seconds = 10, st_catalog_refresh_seconds = 21600,
     st_bybit_ws_url = sample_url ''wss'', st_binance_ws_url = sample_url ''wss'',
     st_okx_public_ws_url = sample_url ''wss'', st_okx_business_ws_url = sample_url ''wss'',
     st_mexc_ws_url = sample_url ''wss'', st_bingx_ws_url = sample_url ''wss'',
     st_bybit_rest_url = sample_url ''https'', st_binance_futures_rest_url = sample_url ''https'',
     st_okx_rest_url = sample_url ''https'', st_kucoin_futures_rest_url = sample_url ''https'',
     st_mexc_futures_rest_url = sample_url ''https'', st_bingx_swap_rest_url = sample_url ''https'',
     st_providers = [SelAll]\<rparr>"

lemma sample_settings_valid: "validate_settings sample_settings = Inr ()"
  by (simp add: validate_settings_def sample_settings_def sample_url_def ws_urls_def rest_urls_def
      and_then_def ends_with_def word_less_nat_alt)

theorem enabled_providers_spec_witness:
  "validate_settings sample_settings = Inr () \<and> Okx \<in> enabled_providers sample_settings"
  using enabled_providers_spec [OF sample_settings_valid, of Okx] sample_settings_valid
  by (simp add: sample_settings_def)

end
