(* ===== verification/Json.thy ===== *)
theory Json
  imports Providers
begin

text \<open>
  JSON values as the adapters see them (\<open>serde_json::Value\<close>). Reading and printing JSON text,
  the texts of serde's errors and the \<open>Debug\<close> rendering of a string (which needs a Unicode
  table) are the fields of \<open>json_lib\<close>. The typed decoders below follow serde's documented
  treatment of the derived structures: a missing required field or a value of the wrong kind is
  an error, an absent or \<open>null\<close> optional field is \<open>None\<close>, unknown fields are ignored.
\<close>

section \<open>Values\<close>

text \<open>An object lists its fields; a number is an integer or another number with the text that is printed for it.\<close>

datatype json =
    JNull
  | JBool bool
  | JInt int
  | JFloat string
  | JString string
  | JArray "json list"
  | JObject "(string \<times> json) list"

record json_lib =
  js_from_str :: "string \<Rightarrow> string + json"
  js_to_string :: "json \<Rightarrow> string"
  js_error :: "json \<Rightarrow> string"
  fmt_debug :: "string \<Rightarrow> string"

fun is_object :: "json \<Rightarrow> bool" where
  "is_object (JObject _) = True"
| "is_object _ = False"

fun js_get :: "json \<Rightarrow> string \<Rightarrow> json option" where
  "js_get (JObject fs) k = map_of fs k"
| "js_get _ k = None"

fun js_as_str :: "json \<Rightarrow> string option" where
  "js_as_str (JString s) = Some s"
| "js_as_str _ = None"

fun js_as_bool :: "json \<Rightarrow> bool option" where
  "js_as_bool (JBool b) = Some b"
| "js_as_bool _ = None"

fun js_as_array :: "json \<Rightarrow> json list option" where
  "js_as_array (JArray vs) = Some vs"
| "js_as_array _ = None"

fun js_as_object :: "json \<Rightarrow> json option" where
  "js_as_object (JObject fs) = Some (JObject fs)"
| "js_as_object _ = None"

fun js_as_i64 :: "json \<Rightarrow> int option" where
  "js_as_i64 (JInt n) = (if - (2 ^ 63) \<le> n \<and> n < 2 ^ 63 then Some n else None)"
| "js_as_i64 _ = None"

fun js_as_u64 :: "json \<Rightarrow> u64 option" where
  "js_as_u64 (JInt n) = (if 0 \<le> n \<and> n < 2 ^ 64 then Some (of_int n) else None)"
| "js_as_u64 _ = None"

definition get_str :: "json \<Rightarrow> string \<Rightarrow> string option" where
  "get_str v k = Option.bind (js_get v k) js_as_str"

definition get_bool :: "json \<Rightarrow> string \<Rightarrow> bool option" where
  "get_bool v k = Option.bind (js_get v k) js_as_bool"

text \<open>\<open>a.or_else(|| b)\<close>\<close>

definition or_else :: "'a option \<Rightarrow> 'a option \<Rightarrow> 'a option" where
  "or_else a b = (case a of None \<Rightarrow> b | Some x \<Rightarrow> Some x)"

section \<open>Typed fields\<close>

text \<open>
  A derived structure is read from an object, or from an array that lists all its fields in
  declaration order.
\<close>

definition as_struct :: "string list \<Rightarrow> json \<Rightarrow> json option" where
  "as_struct names v = (case v of
     JObject fs \<Rightarrow> Some v
   | JArray vs \<Rightarrow> if length vs = length names then Some (JObject (zip names vs)) else None
   | _ \<Rightarrow> None)"

definition field_str :: "json \<Rightarrow> string \<Rightarrow> string option" where
  "field_str v k = get_str v k"

definition field_u64 :: "json \<Rightarrow> string \<Rightarrow> u64 option" where
  "field_u64 v k = Option.bind (js_get v k) js_as_u64"

definition field_bool :: "json \<Rightarrow> string \<Rightarrow> bool option" where
  "field_bool v k = get_bool v k"

text \<open>An \<open>Option<String>\<close> field: the outer option is the failure to decode.\<close>

definition field_opt_str :: "json \<Rightarrow> string \<Rightarrow> string option option" where
  "field_opt_str v k = (case js_get v k of
     None \<Rightarrow> Some None
   | Some JNull \<Rightarrow> Some None
   | Some (JString s) \<Rightarrow> Some (Some s)
   | Some _ \<Rightarrow> None)"

text \<open>The same for an optional field of another type.\<close>

definition field_opt :: "(json \<Rightarrow> 'a option) \<Rightarrow> json \<Rightarrow> string \<Rightarrow> 'a option option" where
  "field_opt decode v k = (case js_get v k of
     None \<Rightarrow> Some None
   | Some JNull \<Rightarrow> Some None
   | Some w \<Rightarrow> map_option Some (decode w))"

definition field_i64 :: "json \<Rightarrow> string \<Rightarrow> int option" where
  "field_i64 v k = Option.bind (js_get v k) js_as_i64"

fun js_as_u8 :: "json \<Rightarrow> nat option" where
  "js_as_u8 (JInt n) = (if 0 \<le> n \<and> n < 256 then Some (nat n) else None)"
| "js_as_u8 _ = None"

fun decode_all :: "('a \<Rightarrow> 'b option) \<Rightarrow> 'a list \<Rightarrow> 'b list option" where
  "decode_all f [] = Some []"
| "decode_all f (x # xs) =
     (case f x of None \<Rightarrow> None
      | Some y \<Rightarrow> (case decode_all f xs of None \<Rightarrow> None | Some ys \<Rightarrow> Some (y # ys)))"

section \<open>Integer parsing errors\<close>

text \<open>The text of \<open>ParseIntError\<close> for \<open>u64\<close>.\<close>

fun scan_u64 :: "nat \<Rightarrow> string \<Rightarrow> string + nat" where
  "scan_u64 acc [] = Inr acc"
| "scan_u64 acc (c # cs) =
     (if \<not> is_ascii_digit (of_char c) then Inl ''invalid digit found in string''
      else if acc * 10 + (of_char c - 48) \<ge> 2 ^ 64 then Inl ''number too large to fit in target type''
      else scan_u64 (acc * 10 + (of_char c - 48)) cs)"

definition parse_u64_error :: "string \<Rightarrow> string" where
  "parse_u64_error s =
     (if s = [] then ''cannot parse integer from empty string''
      else case scan_u64 0 (case strip_prefix ''+'' s of Some t \<Rightarrow> if t = [] then s else t | None \<Rightarrow> s) of
        Inl e \<Rightarrow> e | Inr _ \<Rightarrow> [])"

end
