(* ===== verification/Commands.thy ===== *)
theory Commands
  imports Providers
begin

text \<open>
  Outbound command bookkeeping of one upstream connection (\<^verbatim>\<open>src/src/runtime.rs\<close>,
  \<open>CommandState\<close>): commands wait in a queue, are sent one per pacer tick, and stay
  pending until the venue has acknowledged each as often as announced. The theory also holds the
  runtime's errors with the text they display.
\<close>

section \<open>Errors\<close>

datatype runtime_error =
    AdapterErr adapter_error
  | WebSocket string
  | ConnectTimeout duration
  | WriteTimeout duration
  | Closed
  | Stale duration
  | ProviderClosed string
  | RegistryClosed
  | NonUtf8Binary
  | InvalidBinary string
  | DecompressedFrameTooLarge usize
  | InvalidOutboundCommand
  | DuplicateOutboundRequestId string
  | UnexpectedAcknowledgement string
  | SubscriptionAcknowledgementTimeout duration

text \<open>The \<open>Debug\<close> text of a duration: a whole part, a trimmed fraction and a unit.\<close>

definition strip_zeros :: "string \<Rightarrow> string" where
  "strip_zeros s = rev (dropWhile (\<lambda>c. c = CHR ''0'') (rev s))"

definition pad_zeros :: "nat \<Rightarrow> string \<Rightarrow> string" where
  "pad_zeros n s = replicate (n - length s) (CHR ''0'') @ s"

definition show_scaled :: "nat \<Rightarrow> nat \<Rightarrow> nat \<Rightarrow> string" where
  "show_scaled whole part width =
     (if part = 0 then show_nat whole
      else show_nat whole @ ''.'' @ strip_zeros (pad_zeros width (show_nat part)))"

definition show_duration :: "duration \<Rightarrow> string" where
  "show_duration d =
     (if d \<ge> 10 ^ 9 then show_scaled (d div 10 ^ 9) (d mod 10 ^ 9) 9 @ ''s''
      else if d \<ge> 10 ^ 6 then show_scaled (d div 10 ^ 6) (d mod 10 ^ 6) 6 @ ''ms''
      else if d \<ge> 10 ^ 3
      then show_scaled (d div 10 ^ 3) (d mod 10 ^ 3) 3 @ [char_of (194 :: nat), char_of (181 :: nat)] @ ''s''
      else show_nat d @ ''ns'')"

fun show_runtime_error :: "runtime_error \<Rightarrow> string" where
  "show_runtime_error (AdapterErr e) = show_adapter_error e"
| "show_runtime_error (WebSocket m) = m"
| "show_runtime_error (ConnectTimeout d) =
     ''upstream websocket connect timed out after '' @ show_duration d"
| "show_runtime_error (WriteTimeout d) =
     ''upstream websocket write timed out after '' @ show_duration d"
| "show_runtime_error Closed = ''upstream websocket closed''"
| "show_runtime_error (Stale d) = ''upstream websocket was stale for '' @ show_duration d"
| "show_runtime_error (ProviderClosed m) = ''provider closed the websocket: '' @ m"
| "show_runtime_error RegistryClosed = ''subscription registry closed''"
| "show_runtime_error NonUtf8Binary = ''provider sent a non-UTF-8 binary frame''"
| "show_runtime_error (InvalidBinary m) =
     ''provider sent invalid compressed binary data: '' @ m"
| "show_runtime_error (DecompressedFrameTooLarge n) =
     ''provider decompressed binary frame exceeds the '' @ show_nat n @ '' byte limit''"
| "show_runtime_error InvalidOutboundCommand =
     ''provider generated an invalid outbound subscription command''"
| "show_runtime_error (DuplicateOutboundRequestId r) = ''provider reused outbound request id '' @ r"
| "show_runtime_error (UnexpectedAcknowledgement r) =
     ''provider acknowledged unknown or already completed request id '' @ r"
| "show_runtime_error (SubscriptionAcknowledgementTimeout d) =
     ''initial subscription acknowledgement timed out after '' @ show_duration d"

section \<open>Command state\<close>

record queued_command =
  qc_request_id :: string
  qc_text :: string
  qc_expected_acknowledgements :: usize

record command_state =
  cmd_queued :: "queued_command list"
  cmd_pending :: "string \<rightharpoonup> usize"
  cmd_known_request_ids :: "string set"

definition default_commands :: command_state where
  "default_commands = \<lparr>cmd_queued = [], cmd_pending = Map.empty, cmd_known_request_ids = {}\<rparr>"

fun enqueue :: "command_state \<Rightarrow> outbound_command list \<Rightarrow> command_state \<times> (runtime_error + unit)" where
  "enqueue s [] = (s, Inr ())"
| "enqueue s (c # cs) =
     (if oc_request_id c = [] then (s, Inl InvalidOutboundCommand)
      else if oc_request_id c \<in> cmd_known_request_ids s
      then (s, Inl (DuplicateOutboundRequestId (oc_request_id c)))
      else enqueue (s\<lparr>cmd_known_request_ids := insert (oc_request_id c) (cmd_known_request_ids s),
                      cmd_queued := cmd_queued s @ [\<lparr>qc_request_id = oc_request_id c, qc_text = oc_text c,
                        qc_expected_acknowledgements = oc_expected_acknowledgements c\<rparr>]\<rparr>) cs)"

definition has_queued :: "command_state \<Rightarrow> bool" where
  "has_queued s \<longleftrightarrow> cmd_queued s \<noteq> []"

definition pop_front :: "command_state \<Rightarrow> command_state \<times> queued_command option" where
  "pop_front s =
     (case cmd_queued s of [] \<Rightarrow> (s, None) | c # cs \<Rightarrow> (s\<lparr>cmd_queued := cs\<rparr>, Some c))"

definition mark_sent ::
  "command_state \<Rightarrow> string \<Rightarrow> usize \<Rightarrow> command_state \<times> (runtime_error + unit)" where
  "mark_sent s request_id expected =
     (if expected = 0
      then (s\<lparr>cmd_known_request_ids := cmd_known_request_ids s - {request_id}\<rparr>, Inr ())
      else (s\<lparr>cmd_pending := (cmd_pending s)(request_id \<mapsto> expected)\<rparr>,
            if cmd_pending s request_id \<noteq> None then Inl (DuplicateOutboundRequestId request_id) else Inr ()))"

text \<open>\<open>remaining -= 1\<close> on a zero \<open>usize\<close> wraps in a release build; no reachable state has one.\<close>

definition acknowledge :: "command_state \<Rightarrow> string \<Rightarrow> command_state \<times> (runtime_error + unit)" where
  "acknowledge s request_id =
     (case cmd_pending s request_id of
        None \<Rightarrow> (s, Inl (UnexpectedAcknowledgement request_id))
      | Some remaining \<Rightarrow>
          let left = (if remaining = 0 then usize_max else remaining - 1)
          in if left = 0
             then (s\<lparr>cmd_pending := (cmd_pending s)(request_id := None),
                     cmd_known_request_ids := cmd_known_request_ids s - {request_id}\<rparr>, Inr ())
             else (s\<lparr>cmd_pending := (cmd_pending s)(request_id \<mapsto> left)\<rparr>, Inr ()))"

definition readiness_complete :: "command_state \<Rightarrow> bool" where
  "readiness_complete s \<longleftrightarrow> cmd_queued s = [] \<and> cmd_pending s = Map.empty"

text \<open>Sending the front of the queue, as the connection loop composes it.\<close>

definition send_front :: "command_state \<Rightarrow> command_state \<times> (runtime_error + unit)" where
  "send_front s =
     (case pop_front s of
        (s', None) \<Rightarrow> (s', Inr ())
      | (s', Some c) \<Rightarrow> mark_sent s' (qc_request_id c) (qc_expected_acknowledgements c))"

section \<open>Specification\<close>

definition queued_ids :: "command_state \<Rightarrow> string list" where
  "queued_ids s = map qc_request_id (cmd_queued s)"

text \<open>
  The known request ids are exactly those waiting or pending, each once; none is empty and
  nothing pending has all its acknowledgements.
\<close>

definition commands_inv :: "command_state \<Rightarrow> bool" where
  "commands_inv s \<longleftrightarrow>
     distinct (queued_ids s) \<and> set (queued_ids s) \<inter> dom (cmd_pending s) = {} \<and>
     cmd_known_request_ids s = set (queued_ids s) \<union> dom (cmd_pending s) \<and>
     [] \<notin> cmd_known_request_ids s \<and> finite (dom (cmd_pending s)) \<and> 0 \<notin> ran (cmd_pending s)"

definition pending_acks :: "command_state \<Rightarrow> nat" where
  "pending_acks s = (\<Sum>r \<in> dom (cmd_pending s). the (cmd_pending s r))"

definition queued_acks :: "command_state \<Rightarrow> nat" where
  "queued_acks s = sum_list (map qc_expected_acknowledgements (cmd_queued s))"

definition fresh_commands :: "command_state \<Rightarrow> outbound_command list \<Rightarrow> bool" where
  "fresh_commands s cs \<longleftrightarrow> distinct (map oc_request_id cs) \<and>
     [] \<notin> set (map oc_request_id cs) \<and> set (map oc_request_id cs) \<inter> cmd_known_request_ids s = {}"

inductive command_step :: "command_state \<Rightarrow> command_state \<Rightarrow> bool" where
  step_enqueue: "command_step s (fst (enqueue s cs))"
| step_send: "has_queued s \<Longrightarrow> command_step s (fst (send_front s))"
| step_acknowledge: "command_step s (fst (acknowledge s r))"

section \<open>Lemmas\<close>

lemma default_commands_inv [simp]: "commands_inv default_commands"
  by (simp add: commands_inv_def default_commands_def queued_ids_def)

lemma default_commands_ready [simp]: "readiness_complete default_commands"
  by (simp add: readiness_complete_def default_commands_def)

lemma enqueue_inv: "commands_inv s \<Longrightarrow> commands_inv (fst (enqueue s cs))"
proof (induction s cs rule: enqueue.induct)
  case (2 s c cs)
  let ?s = "s\<lparr>cmd_known_request_ids := insert (oc_request_id c) (cmd_known_request_ids s),
      cmd_queued := cmd_queued s @ [\<lparr>qc_request_id = oc_request_id c, qc_text = oc_text c,
        qc_expected_acknowledgements = oc_expected_acknowledgements c\<rparr>]\<rparr>"
  have "commands_inv ?s" if "oc_request_id c \<noteq> []" "oc_request_id c \<notin> cmd_known_request_ids s"
    using that 2(2) by (auto simp: commands_inv_def queued_ids_def)
  then show ?case using 2 by simp
qed simp

lemma enqueue_frame:
  "cmd_pending (fst (enqueue s cs)) = cmd_pending s"
  "\<exists>qs. cmd_queued (fst (enqueue s cs)) = cmd_queued s @ qs"
  by (induction s cs rule: enqueue.induct) auto

lemma enqueue_ok_iff: "snd (enqueue s cs) = Inr () \<longleftrightarrow> fresh_commands s cs"
proof (induction s cs rule: enqueue.induct)
  case (2 s c cs)
  then show ?case by (auto simp: fresh_commands_def)
qed (simp add: fresh_commands_def)

lemma enqueue_ok_queued:
  "snd (enqueue s cs) = Inr () \<Longrightarrow> cmd_queued (fst (enqueue s cs)) = cmd_queued s @
     map (\<lambda>c. \<lparr>qc_request_id = oc_request_id c, qc_text = oc_text c,
       qc_expected_acknowledgements = oc_expected_acknowledgements c\<rparr>) cs"
  by (induction s cs rule: enqueue.induct) (auto split: if_splits)

lemma send_front_Cons:
  assumes "commands_inv s" and "cmd_queued s = c # cs"
  shows "send_front s =
    (if qc_expected_acknowledgements c = 0
     then s\<lparr>cmd_queued := cs, cmd_known_request_ids := cmd_known_request_ids s - {qc_request_id c}\<rparr>
     else s\<lparr>cmd_queued := cs,
       cmd_pending := (cmd_pending s)(qc_request_id c \<mapsto> qc_expected_acknowledgements c)\<rparr>, Inr ())"
  using assms
  by (auto simp: send_front_def pop_front_def mark_sent_def commands_inv_def queued_ids_def)

lemma send_front_inv:
  assumes "commands_inv s" and "has_queued s"
  shows "commands_inv (fst (send_front s))"
proof -
  from assms(2) obtain c cs where q: "cmd_queued s = c # cs" by (cases "cmd_queued s") (auto simp: has_queued_def)
  show ?thesis
    unfolding send_front_Cons [OF assms(1) q]
    using assms(1) q by (auto simp: commands_inv_def queued_ids_def ran_def)
qed

lemma acknowledge_inv:
  assumes "commands_inv s"
  shows "commands_inv (fst (acknowledge s r))"
proof (cases "cmd_pending s r")
  case (Some n)
  then have "r \<in> dom (cmd_pending s)" "n \<noteq> 0" using assms by (auto simp: commands_inv_def ran_def)
  then show ?thesis
    using assms Some by (auto simp: commands_inv_def acknowledge_def queued_ids_def ran_def)
qed (simp add: acknowledge_def assms)

interpretation cmd: invariant_system "\<lambda>s. s = default_commands" command_step commands_inv
proof
  show "commands_inv t" if "commands_inv s" "command_step s t" for s t
    using that(2,1) by cases (auto intro: enqueue_inv send_front_inv acknowledge_inv)
qed simp

lemma acknowledge_pending_acks:
  assumes "commands_inv s" and "cmd_pending s r = Some n"
  shows "pending_acks s = Suc (pending_acks (fst (acknowledge s r)))"
proof -
  let ?D = "dom (cmd_pending s)"
  have fin: "finite ?D" and r: "r \<in> ?D" and n: "n \<noteq> 0"
    using assms by (auto simp: commands_inv_def ran_def)
  have "pending_acks s = n + (\<Sum>x \<in> ?D - {r}. the (cmd_pending s x))"
    unfolding pending_acks_def using sum.remove [OF fin r, of "\<lambda>x. the (cmd_pending s x)"] assms(2) by simp
  moreover have "pending_acks (fst (acknowledge s r)) = n - 1 + (\<Sum>x \<in> ?D - {r}. the (cmd_pending s x))"
  proof (cases "n = 1")
    case True
    then show ?thesis using assms(2) by (auto simp: pending_acks_def acknowledge_def intro!: sum.cong)
  next
    case False
    have "(\<Sum>x \<in> ?D - {r}. the (if x = r then Some (n - Suc 0) else cmd_pending s x)) =
        (\<Sum>x \<in> ?D - {r}. the (cmd_pending s x))" by (rule sum.cong) auto
    then show ?thesis
      using False n fin assms(2) by (simp add: pending_acks_def acknowledge_def sum.insert_remove)
  qed
  ultimately show ?thesis using n by simp
qed

lemma pending_acks_empty:
  "commands_inv s \<Longrightarrow> pending_acks s = 0 \<longleftrightarrow> cmd_pending s = Map.empty"
  by (force simp: pending_acks_def commands_inv_def ran_def fun_eq_iff)

definition outstanding :: "command_state \<Rightarrow> nat" where
  "outstanding s = queued_acks s + pending_acks s"

lemma enqueue_outstanding:
  assumes "snd (enqueue s cs) = Inr ()"
  shows "outstanding (fst (enqueue s cs)) =
    outstanding s + sum_list (map oc_expected_acknowledgements cs)"
  by (simp add: outstanding_def queued_acks_def pending_acks_def enqueue_frame(1)
      enqueue_ok_queued [OF assms] comp_def)

lemma send_front_outstanding:
  assumes "commands_inv s" and "has_queued s"
  shows "snd (send_front s) = Inr () \<and> outstanding (fst (send_front s)) = outstanding s"
proof -
  from assms(2) obtain c cs where q: "cmd_queued s = c # cs" by (cases "cmd_queued s") (auto simp: has_queued_def)
  have new: "qc_request_id c \<notin> dom (cmd_pending s)" and fin: "finite (dom (cmd_pending s))"
    using assms(1) q by (auto simp: commands_inv_def queued_ids_def)
  have "(\<Sum>r \<in> dom (cmd_pending s). the (if r = qc_request_id c then Some m else cmd_pending s r)) =
      (\<Sum>r \<in> dom (cmd_pending s). the (cmd_pending s r))" for m
    using new by (intro sum.cong) auto
  then show ?thesis
    using new fin q
    by (simp add: send_front_Cons [OF assms(1) q] outstanding_def queued_acks_def pending_acks_def)
qed

lemma acknowledge_ok_iff: "snd (acknowledge s r) = Inr () \<longleftrightarrow> r \<in> dom (cmd_pending s)"
  by (auto simp: acknowledge_def Let_def split: option.splits)

lemma acknowledge_outstanding:
  assumes "commands_inv s" and "snd (acknowledge s r) = Inr ()"
  shows "outstanding s = Suc (outstanding (fst (acknowledge s r)))"
proof -
  obtain n where "cmd_pending s r = Some n" using assms(2) unfolding acknowledge_ok_iff by auto
  moreover have "cmd_queued (fst (acknowledge s r)) = cmd_queued s"
    by (simp add: acknowledge_def Let_def split: option.splits)
  ultimately show ?thesis
    using acknowledge_pending_acks [OF assms(1)] by (simp add: outstanding_def queued_acks_def)
qed

section \<open>Properties\<close>

text \<open>
  Over any sequence of enqueued, sent and acknowledged commands, the known request ids are
  exactly the ids waiting or pending, without repetition, and no pending command has run out of
  acknowledgements (so the counter is never decremented below zero). Enqueueing a batch
  succeeds exactly when its ids are non-empty, distinct and not in use, and a sent command never
  collides with a pending one.
\<close>

theorem command_ids_consistent:
  assumes "reachable (\<lambda>s. s = default_commands) command_step s"
  shows "commands_inv s \<and> (snd (enqueue s cs) = Inr () \<longleftrightarrow> fresh_commands s cs) \<and>
    (has_queued s \<longrightarrow> snd (send_front s) = Inr ())"
  using cmd.reachable_inv [OF assms] enqueue_ok_iff send_front_outstanding by blast

text \<open>
  (C20) Acknowledgement accounting: enqueueing adds the announced acknowledgements to the
  outstanding total, sending keeps it, an acknowledgement is accepted exactly for a pending id
  and takes one away, and the connection is complete exactly when nothing is queued and nothing
  is outstanding.
\<close>

theorem acknowledgement_accounting:
  assumes "commands_inv s"
  shows "(snd (enqueue s cs) = Inr () \<longrightarrow> outstanding (fst (enqueue s cs)) =
      outstanding s + sum_list (map oc_expected_acknowledgements cs)) \<and>
    (has_queued s \<longrightarrow> outstanding (fst (send_front s)) = outstanding s) \<and>
    (snd (acknowledge s r) = Inr () \<longleftrightarrow> r \<in> dom (cmd_pending s)) \<and>
    (r \<in> dom (cmd_pending s) \<longrightarrow> outstanding s = Suc (outstanding (fst (acknowledge s r)))) \<and>
    (readiness_complete s \<longleftrightarrow> \<not> has_queued s \<and> outstanding s = 0)"
  using enqueue_outstanding send_front_outstanding [OF assms] acknowledge_ok_iff
    acknowledge_outstanding [OF assms] pending_acks_empty [OF assms]
  by (auto simp: readiness_complete_def has_queued_def outstanding_def queued_acks_def)

subsection \<open>Witnesses\<close>

definition sample_command :: outbound_command where
  "sample_command = \<lparr>oc_request_id = ''sub-1'', oc_text = ''{}'', oc_expected_acknowledgements = 2\<rparr>"

definition sample_queue :: command_state where
  "sample_queue = fst (enqueue default_commands [sample_command])"

lemma sample_queue_eq:
  "sample_queue = \<lparr>cmd_queued = [\<lparr>qc_request_id = ''sub-1'', qc_text = ''{}'',
     qc_expected_acknowledgements = 2\<rparr>], cmd_pending = Map.empty, cmd_known_request_ids = {''sub-1''}\<rparr>"
  by (simp add: sample_queue_def default_commands_def sample_command_def)

theorem command_ids_consistent_witness:
  "reachable (\<lambda>s. s = default_commands) command_step sample_queue \<and> has_queued sample_queue \<and>
     snd (send_front sample_queue) = Inr () \<and> snd (enqueue sample_queue [sample_command]) \<noteq> Inr ()"
proof -
  have "reachable (\<lambda>s. s = default_commands) command_step sample_queue"
    unfolding sample_queue_def
    by (rule reachable_step [OF reachable_start]) (simp, rule step_enqueue)
  moreover note command_ids_consistent [OF this, of "[sample_command]"]
  moreover have "has_queued sample_queue" by (simp add: has_queued_def sample_queue_eq)
  moreover have "\<not> fresh_commands sample_queue [sample_command]"
    by (simp add: fresh_commands_def sample_queue_eq sample_command_def)
  ultimately show ?thesis by blast
qed

theorem acknowledgement_accounting_witness:
  "commands_inv (fst (send_front sample_queue)) \<and>
     outstanding (fst (send_front sample_queue)) = 2 \<and>
     outstanding (fst (acknowledge (fst (send_front sample_queue)) ''sub-1'')) = 1"
proof -
  have inv: "commands_inv sample_queue"
    unfolding sample_queue_def by (rule enqueue_inv) simp
  have q: "has_queued sample_queue" by (simp add: has_queued_def sample_queue_eq)
  have sent: "commands_inv (fst (send_front sample_queue))" by (rule send_front_inv [OF inv q])
  moreover have "outstanding (fst (send_front sample_queue)) = 2"
    using acknowledgement_accounting [OF inv] q
    by (simp add: outstanding_def queued_acks_def pending_acks_def sample_queue_eq)
  moreover have "''sub-1'' \<in> dom (cmd_pending (fst (send_front sample_queue)))"
    by (simp add: sample_queue_eq send_front_def pop_front_def mark_sent_def)
  ultimately show ?thesis using acknowledgement_accounting [OF sent, where r = "''sub-1''"] by simp
qed

end
