(* ===== verification/Health.thy ===== *)
theory Health
  imports Providers
begin

text \<open>
  The health registry (\<^verbatim>\<open>src/src/health.rs\<close>): one \<open>EndpointHealth\<close> per provider
  endpoint, updated under a lock, and the readiness report derived from them. An update ends
  with \<open>String::truncate\<close> on the last error, which panics when its cut is inside a
  character: \<open>health_update\<close> returns the registry as the lock leaves it and whether the call
  returned. A poisoned lock is entered again by \<open>into_inner\<close>, so later calls see that registry.
\<close>

section \<open>State and operations\<close>

datatype connection_state = Idle | Connecting | Live | Backoff | Stopped

record endpoint_health =
  eh_provider :: provider
  eh_endpoint :: string
  eh_state :: connection_state
  eh_desired_subscriptions :: usize
  eh_reconnects :: u64
  eh_connection_epoch :: "uuid option"
  eh_connected_at_ms :: "u64 option"
  eh_last_event_at_ms :: "u64 option"
  eh_last_error :: "string option"

definition new_endpoint_health :: "provider \<Rightarrow> endpoint_kind \<Rightarrow> endpoint_health" where
  "new_endpoint_health p e =
     \<lparr>eh_provider = p, eh_endpoint = endpoint_name e, eh_state = Idle,
      eh_desired_subscriptions = 0, eh_reconnects = 0, eh_connection_epoch = None,
      eh_connected_at_ms = None, eh_last_event_at_ms = None, eh_last_error = None\<rparr>"

type_synonym health_registry = "provider \<times> endpoint_kind \<rightharpoonup> endpoint_health"

record readiness_snapshot =
  rd_ready :: bool
  rd_status :: string
  rd_endpoints :: "endpoint_health list"

definition health_entry :: "health_registry \<Rightarrow> provider \<times> endpoint_kind \<Rightarrow> endpoint_health" where
  "health_entry reg k =
     (case reg k of Some h \<Rightarrow> h | None \<Rightarrow> new_endpoint_health (fst k) (snd k))"

definition health_register :: "health_registry \<Rightarrow> provider \<Rightarrow> endpoint_kind \<Rightarrow> health_registry" where
  "health_register reg p e = reg((p, e) \<mapsto> health_entry reg (p, e))"

definition health_update ::
  "health_registry \<Rightarrow> provider \<Rightarrow> endpoint_kind \<Rightarrow> (endpoint_health \<Rightarrow> endpoint_health)
     \<Rightarrow> health_registry \<times> bool" where
  "health_update reg p e f =
     (let h = f (health_entry reg (p, e))
      in case eh_last_error h of
           None \<Rightarrow> (reg((p, e) \<mapsto> h), True)
         | Some msg \<Rightarrow>
             (case truncate_str msg 500 of
                None \<Rightarrow> (reg((p, e) \<mapsto> h), False)
              | Some kept \<Rightarrow> (reg((p, e) \<mapsto> h\<lparr>eh_last_error := Some kept\<rparr>), True)))"

definition readiness :: "health_registry \<Rightarrow> readiness_snapshot" where
  "readiness reg =
     (let endpoints = map (\<lambda>k. the (reg k)) (sorted_list_of_set (dom reg));
          ready = list_all (\<lambda>h. eh_desired_subscriptions h = 0 \<or> eh_state h = Live) endpoints
      in \<lparr>rd_ready = ready, rd_status = (if ready then ''ready'' else ''degraded''),
          rd_endpoints = endpoints\<rparr>)"

section \<open>Specification\<close>

text \<open>An error of at most 500 bytes is not cut, and one whose byte 500 starts a character is.\<close>

definition short_error :: "endpoint_health \<Rightarrow> bool" where
  "short_error h \<longleftrightarrow> (\<forall>msg. eh_last_error h = Some msg \<longrightarrow> length msg \<le> 500)"

definition cut_panics :: "string \<Rightarrow> bool" where
  "cut_panics msg \<longleftrightarrow> 500 < length msg \<and> is_cont (msg ! 500)"

definition health_inv :: "health_registry \<Rightarrow> bool" where
  "health_inv reg \<longleftrightarrow> finite (dom reg) \<and>
     (\<forall>p e h. reg (p, e) = Some h \<longrightarrow> eh_provider h = p \<and> eh_endpoint h = endpoint_name e)"

section \<open>Lemmas\<close>

lemma truncate_500:
  "truncate_str msg 500 = (if cut_panics msg then None else Some (take 500 msg))"
  by (auto simp: truncate_str_def is_char_boundary_def cut_panics_def)

lemma health_update_short:
  assumes "short_error (f (health_entry reg (p, e)))"
  shows "health_update reg p e f = (reg((p, e) \<mapsto> f (health_entry reg (p, e))), True)"
  using assms
  by (auto simp: health_update_def Let_def short_error_def truncate_500 cut_panics_def
      split: option.splits)

lemma health_entry_upd [simp]: "health_entry (reg(k \<mapsto> h)) k = h"
  by (simp add: health_entry_def)

lemma health_entry_other [simp]: "k \<noteq> j \<Longrightarrow> health_entry (reg(j \<mapsto> h)) k = health_entry reg k"
  by (simp add: health_entry_def)

lemma health_register_idem:
  "reg (p, e) = Some h \<Longrightarrow> health_register reg p e = reg"
  by (auto simp: health_register_def health_entry_def)

lemma health_inv_entry:
  "health_inv reg \<Longrightarrow> eh_provider (health_entry reg (p, e)) = p \<and>
     eh_endpoint (health_entry reg (p, e)) = endpoint_name e"
  by (auto simp: health_inv_def health_entry_def new_endpoint_health_def split: option.splits)

lemma health_inv_upd:
  "health_inv reg \<Longrightarrow> eh_provider h = p \<Longrightarrow> eh_endpoint h = endpoint_name e \<Longrightarrow>
     health_inv (reg((p, e) \<mapsto> h))"
  by (auto simp: health_inv_def)

lemma health_register_inv: "health_inv reg \<Longrightarrow> health_inv (health_register reg p e)"
  unfolding health_register_def by (intro health_inv_upd) (simp_all add: health_inv_entry)

section \<open>Properties\<close>


text \<open>
  A health update returns unless the error text it records is longer than 500 bytes and its
  byte 500 is inside a character, and then it panics (with the registry already changed). When it
  returns, the entry is what the caller's function made of it with the error cut to 500 bytes,
  and every other entry is untouched. Error texts carry text of the venue, which need not be
  ASCII.
\<close>

theorem health_update_returns_iff:
  "case health_update reg p e f of (reg', returned) \<Rightarrow>
     (returned \<longleftrightarrow> \<not> (\<exists>msg. eh_last_error (f (health_entry reg (p, e))) = Some msg \<and> cut_panics msg)) \<and>
     (returned \<longrightarrow> reg' (p, e) = Some ((f (health_entry reg (p, e)))\<lparr>eh_last_error :=
        map_option (take 500) (eh_last_error (f (health_entry reg (p, e))))\<rparr>)) \<and>
     (\<forall>k. k \<noteq> (p, e) \<longrightarrow> reg' k = reg k)"
  by (auto simp: health_update_def Let_def truncate_500 split: option.splits)

subsection \<open>Witnesses\<close>

definition sample_health :: health_registry where
  "sample_health = health_register Map.empty Bybit Primary"


text \<open>A rejection text of 501 bytes whose byte 500 continues a two-byte character.\<close>

definition sample_error :: string where
  "sample_error = replicate 499 (CHR ''x'') @ [char_of (195 :: nat), char_of (169 :: nat)]"

theorem health_update_returns_iff_witness:
  "\<not> snd (health_update sample_health Bybit Primary (\<lambda>h. h\<lparr>eh_last_error := Some sample_error\<rparr>))"
proof -
  have "is_cont (char_of (169 :: nat))" by (simp add: is_cont_def)
  then have "cut_panics sample_error" by (simp add: cut_panics_def sample_error_def nth_append)
  then show ?thesis
    using health_update_returns_iff [where reg = sample_health and p = Bybit and e = Primary and
        f = "\<lambda>h. h\<lparr>eh_last_error := Some sample_error\<rparr>"]
    by (auto split: prod.splits)
qed

end
