(* ===== verification/Metrics.thy ===== *)
theory Metrics
  imports Providers
begin

text \<open>
  The counters and gauges of the gateway (\<^verbatim>\<open>src/src/metrics.rs\<close>). A family is a
  function from its labels to the current value, zero until first used; a counter is a
  \<open>u64\<close> and a gauge an \<open>i64\<close>, both 64 bits wide. The registration of the families
  with the Prometheus registry and the text encoding are the library's.
\<close>

record endpoint_labels =
  el_provider :: string
  el_endpoint :: string

record provider_labels =
  pv_provider :: string

definition new_endpoint_labels :: "provider \<Rightarrow> endpoint_kind \<Rightarrow> endpoint_labels" where
  "new_endpoint_labels p e = \<lparr>el_provider = provider_name p, el_endpoint = endpoint_name e\<rparr>"

definition new_provider_labels :: "provider \<Rightarrow> provider_labels" where
  "new_provider_labels p = \<lparr>pv_provider = provider_name p\<rparr>"

type_synonym counter = u64

type_synonym gauge = "64 word"

record metrics =
  mx_upstream_connections :: "endpoint_labels \<Rightarrow> gauge"
  mx_upstream_reconnects :: "endpoint_labels \<Rightarrow> counter"
  mx_upstream_frames :: "endpoint_labels \<Rightarrow> counter"
  mx_normalized_events :: "endpoint_labels \<Rightarrow> counter"
  mx_invalid_frames :: "endpoint_labels \<Rightarrow> counter"
  mx_desired_subscriptions :: "endpoint_labels \<Rightarrow> gauge"
  mx_catalog_refresh_successes :: "provider_labels \<Rightarrow> counter"
  mx_catalog_refresh_failures :: "provider_labels \<Rightarrow> counter"
  mx_catalog_instruments :: "provider_labels \<Rightarrow> gauge"
  mx_history_requests :: "provider_labels \<Rightarrow> counter"
  mx_history_failures :: "provider_labels \<Rightarrow> counter"
  mx_downstream_connections :: gauge
  mx_downstream_lagged :: counter
  mx_downstream_commands_rejected :: counter

definition new_metrics :: metrics where
  "new_metrics =
     \<lparr>mx_upstream_connections = (\<lambda>_. 0), mx_upstream_reconnects = (\<lambda>_. 0),
      mx_upstream_frames = (\<lambda>_. 0), mx_normalized_events = (\<lambda>_. 0),
      mx_invalid_frames = (\<lambda>_. 0), mx_desired_subscriptions = (\<lambda>_. 0),
      mx_catalog_refresh_successes = (\<lambda>_. 0), mx_catalog_refresh_failures = (\<lambda>_. 0),
      mx_catalog_instruments = (\<lambda>_. 0), mx_history_requests = (\<lambda>_. 0),
      mx_history_failures = (\<lambda>_. 0), mx_downstream_connections = 0,
      mx_downstream_lagged = 0, mx_downstream_commands_rejected = 0\<rparr>"

definition inc :: "('l \<Rightarrow> u64) \<Rightarrow> 'l \<Rightarrow> 'l \<Rightarrow> u64" where
  "inc family l = family(l := family l + 1)"

definition increment_connections :: "metrics \<Rightarrow> metrics" where
  "increment_connections m = m\<lparr>mx_downstream_connections := mx_downstream_connections m + 1\<rparr>"

definition decrement_connections :: "metrics \<Rightarrow> metrics" where
  "decrement_connections m = m\<lparr>mx_downstream_connections := mx_downstream_connections m - 1\<rparr>"

lemma endpoint_name_inj: "endpoint_name p = endpoint_name q \<Longrightarrow> p = q"
  by (cases p; cases q) simp_all

text \<open>The labels identify the endpoint, so no two supervisors share a time series.\<close>

lemma new_endpoint_labels_inj [simp]:
  "new_endpoint_labels p e = new_endpoint_labels q f \<longleftrightarrow> p = q \<and> e = f"
  by (auto simp: new_endpoint_labels_def dest: provider_name_inj endpoint_name_inj)

end
