(* ===== verification/Registry.thy ===== *)
theory Registry
  imports Domain
begin

text \<open>
  The subscription registry (\<^verbatim>\<open>src/src/gateway.rs\<close>, \<open>ProviderLimits\<close> and
  \<open>SubscriptionRegistry\<close>): it counts downstream demand per key, enforces the per-client and
  per-provider caps, and publishes the set of keys some client demands. Every operation
  holds the state mutex for its whole body, so it is one atomic step.

  The specification is a demand table, one key set per client. \<open>demand\<close> abstracts a
  registry to it; the refinement theorems say that each operation changes the table the way
  the specification does, and the invariant ties the reference counts, the desired set and the
  published snapshot to the table.

  The order in which a \<open>HashMap\<close> yields its entries is unspecified; where the source walks
  one, the order is an argument.
\<close>

section \<open>Limits\<close>

record provider_limits =
  pl_limits :: "provider \<rightharpoonup> usize"
  pl_fallback :: usize

definition new_limits :: "(provider \<rightharpoonup> usize) \<Rightarrow> usize \<Rightarrow> provider_limits" where
  "new_limits limits fallback = \<lparr>pl_limits = limits, pl_fallback = fallback\<rparr>"

definition uniform :: "usize \<Rightarrow> provider_limits" where
  "uniform limit = \<lparr>pl_limits = Map.empty, pl_fallback = limit\<rparr>"

definition capped_at :: "provider_limits \<Rightarrow> usize \<Rightarrow> provider_limits" where
  "capped_at l cap =
     \<lparr>pl_limits = (\<lambda>p. map_option (\<lambda>limit. min limit cap) (pl_limits l p)),
      pl_fallback = min (pl_fallback l) cap\<rparr>"

definition limit_for :: "provider_limits \<Rightarrow> provider \<Rightarrow> usize" where
  "limit_for l p = (case pl_limits l p of None \<Rightarrow> pl_fallback l | Some limit \<Rightarrow> limit)"

definition minimum :: "provider_limits \<Rightarrow> usize" where
  "minimum l = (case List.map_filter (pl_limits l) all_providers of
     [] \<Rightarrow> pl_fallback l | v # vs \<Rightarrow> fold min vs v)"

section \<open>State\<close>

type_synonym client_id = uuid

record registry =
  rg_max_per_client :: usize
  rg_limits :: provider_limits
  rg_clients :: "client_id \<rightharpoonup> sub_key set"
  rg_reference_counts :: "sub_key \<rightharpoonup> usize"
  rg_desired :: "sub_key set"
  rg_snapshot :: "sub_key set"

record subscription_change =
  sc_added :: "sub_key list"
  sc_removed :: "sub_key list"
  sc_activated :: "sub_key list"
  sc_deactivated :: "sub_key list"
  sc_client_subscriptions :: "sub_key set"

datatype registry_error =
    ClientLimitExceeded (cle_limit: usize) (cle_requested: usize)
  | ProviderLimitExceeded (ple_provider: provider) (ple_limit: usize) (ple_requested: usize)

definition with_provider_limits :: "usize \<Rightarrow> provider_limits \<Rightarrow> registry" where
  "with_provider_limits max_per_client limits =
     \<lparr>rg_max_per_client = max_per_client, rg_limits = limits, rg_clients = Map.empty,
      rg_reference_counts = Map.empty, rg_desired = {}, rg_snapshot = {}\<rparr>"

definition with_provider_limit :: "usize \<Rightarrow> usize \<Rightarrow> registry" where
  "with_provider_limit max_per_client max_per_provider =
     with_provider_limits max_per_client (uniform max_per_provider)"

definition new_registry :: "usize \<Rightarrow> registry" where
  "new_registry max_per_client = with_provider_limit max_per_client usize_max"

definition unchanged :: "sub_key set \<Rightarrow> subscription_change" where
  "unchanged keys = \<lparr>sc_added = [], sc_removed = [], sc_activated = [], sc_deactivated = [],
     sc_client_subscriptions = keys\<rparr>"

definition desired_state_changed :: "subscription_change \<Rightarrow> bool" where
  "desired_state_changed c \<longleftrightarrow> sc_activated c \<noteq> [] \<or> sc_deactivated c \<noteq> []"

definition client_keys :: "registry \<Rightarrow> client_id \<Rightarrow> sub_key set" where
  "client_keys s c = (case rg_clients s c of None \<Rightarrow> {} | Some ks \<Rightarrow> ks)"

section \<open>Adding demand\<close>

definition count_entry :: "(provider \<rightharpoonup> usize) \<Rightarrow> provider \<Rightarrow> usize" where
  "count_entry m p = (case m p of None \<Rightarrow> 0 | Some n \<Rightarrow> n)"

definition count_desired :: "sub_key list \<Rightarrow> (provider \<rightharpoonup> usize)" where
  "count_desired ks = foldl (\<lambda>m k. m(key_provider k \<mapsto> count_entry m (key_provider k) + 1)) Map.empty ks"

definition count_new ::
  "(sub_key \<rightharpoonup> usize) \<Rightarrow> (provider \<rightharpoonup> usize) \<Rightarrow> sub_key list \<Rightarrow> (provider \<rightharpoonup> usize)" where
  "count_new refs m ks = foldl (\<lambda>m k. if refs k = None
     then m(key_provider k \<mapsto> usize_saturating_add (count_entry m (key_provider k)) 1) else m) m ks"

definition over_limit ::
  "provider list \<Rightarrow> provider_limits \<Rightarrow> (provider \<rightharpoonup> usize) \<Rightarrow> provider option" where
  "over_limit order limits totals =
     find (\<lambda>p. case totals p of None \<Rightarrow> False | Some n \<Rightarrow> n > limit_for limits p) order"

fun activate ::
  "sub_key list \<Rightarrow> (sub_key \<rightharpoonup> usize) \<times> sub_key set \<times> sub_key list
     \<Rightarrow> (sub_key \<rightharpoonup> usize) \<times> sub_key set \<times> sub_key list" where
  "activate [] st = st"
| "activate (k # ks) (refs, desired, activated) =
     (let n = usize_saturating_add (case refs k of None \<Rightarrow> 0 | Some n \<Rightarrow> n) 1;
          refs' = refs(k \<mapsto> n)
      in if n = 1 then activate ks (refs', insert k desired, activated @ [k])
         else activate ks (refs', desired, activated))"

definition registry_add ::
  "provider list \<Rightarrow> registry \<Rightarrow> client_id \<Rightarrow> sub_key list
     \<Rightarrow> registry \<times> (registry_error + subscription_change)" where
  "registry_add order s c keys =
     (let requested = set keys;
          existing = client_keys s c;
          added = sorted_list_of_set (requested - existing);
          requested_total = card existing + length added
      in if requested_total > rg_max_per_client s
         then (s, Inl (ClientLimitExceeded (rg_max_per_client s) requested_total))
         else if added = [] then (s, Inr (unchanged existing))
         else
           let totals = count_new (rg_reference_counts s)
                 (count_desired (sorted_list_of_set (rg_desired s))) added
           in case over_limit order (rg_limits s) totals of
             Some p \<Rightarrow> (s, Inl (ProviderLimitExceeded p (limit_for (rg_limits s) p) (count_entry totals p)))
           | None \<Rightarrow>
               let clients' = (rg_clients s)(c \<mapsto> existing \<union> set added);
                   (refs', desired', activated) =
                     activate added (rg_reference_counts s, rg_desired s, []);
                   s' = s\<lparr>rg_clients := clients', rg_reference_counts := refs',
                          rg_desired := desired',
                          rg_snapshot := (if activated = [] then rg_snapshot s else desired')\<rparr>
               in (s', Inr \<lparr>sc_added = added, sc_removed = [], sc_activated = activated,
                            sc_deactivated = [], sc_client_subscriptions = client_keys s' c\<rparr>))"

section \<open>Removing demand\<close>

fun decrement_references ::
  "sub_key list \<Rightarrow> (sub_key \<rightharpoonup> usize) \<times> sub_key set \<times> sub_key list
     \<Rightarrow> (sub_key \<rightharpoonup> usize) \<times> sub_key set \<times> sub_key list" where
  "decrement_references [] st = st"
| "decrement_references (k # ks) (refs, desired, deactivated) =
     (case refs k of
        Some n \<Rightarrow>
          if n > 1 then decrement_references ks (refs(k \<mapsto> n - 1), desired, deactivated)
          else decrement_references ks (refs(k := None), desired - {k}, deactivated @ [k])
      | None \<Rightarrow> decrement_references ks (refs, desired, deactivated))"

definition publish_snapshot_if_changed :: "sub_key set \<Rightarrow> sub_key set \<Rightarrow> sub_key list \<Rightarrow> sub_key set" where
  "publish_snapshot_if_changed snapshot desired deactivated =
     (if deactivated = [] then snapshot else desired)"

definition registry_remove ::
  "registry \<Rightarrow> client_id \<Rightarrow> sub_key list \<Rightarrow> registry \<times> subscription_change" where
  "registry_remove s c keys =
     (let requested = set keys;
          existing = client_keys s c;
          removed = sorted_list_of_set (requested \<inter> existing)
      in if removed = [] then (s, unchanged existing)
         else
           let remaining = existing - set removed;
               clients' = (rg_clients s)(c := (if remaining = {} then None else Some remaining));
               (refs', desired', deactivated) =
                 decrement_references removed (rg_reference_counts s, rg_desired s, []);
               s' = s\<lparr>rg_clients := clients', rg_reference_counts := refs', rg_desired := desired',
                      rg_snapshot := publish_snapshot_if_changed (rg_snapshot s) desired' deactivated\<rparr>
           in (s', \<lparr>sc_added = [], sc_removed = removed, sc_activated = [],
                    sc_deactivated = deactivated, sc_client_subscriptions = client_keys s' c\<rparr>))"

definition cleanup_client :: "registry \<Rightarrow> client_id \<Rightarrow> registry \<times> subscription_change" where
  "cleanup_client s c =
     (case rg_clients s c of
        None \<Rightarrow> (s, unchanged {})
      | Some ks \<Rightarrow>
          let removed = sorted_list_of_set ks;
              (refs', desired', deactivated) =
                decrement_references removed (rg_reference_counts s, rg_desired s, []);
              s' = s\<lparr>rg_clients := (rg_clients s)(c := None), rg_reference_counts := refs',
                     rg_desired := desired',
                     rg_snapshot := publish_snapshot_if_changed (rg_snapshot s) desired' deactivated\<rparr>
          in (s', \<lparr>sc_added = [], sc_removed = removed, sc_activated = [],
                   sc_deactivated = deactivated, sc_client_subscriptions = {}\<rparr>))"

definition reference_count :: "registry \<Rightarrow> sub_key \<Rightarrow> usize" where
  "reference_count s k = (case rg_reference_counts s k of None \<Rightarrow> 0 | Some n \<Rightarrow> n)"

section \<open>Specification\<close>

text \<open>The demand table, the clients that demand a key, and the invariant.\<close>

definition owners :: "registry \<Rightarrow> sub_key \<Rightarrow> client_id set" where
  "owners s k = {c. k \<in> client_keys s c}"

definition provider_keys :: "sub_key set \<Rightarrow> provider \<Rightarrow> sub_key set" where
  "provider_keys ks p = {k \<in> ks. key_provider k = p}"

definition demanded :: "(client_id \<Rightarrow> sub_key set) \<Rightarrow> sub_key set" where
  "demanded d = (\<Union>c. d c)"

definition registry_inv :: "registry \<Rightarrow> bool" where
  "registry_inv s \<longleftrightarrow>
     finite (dom (rg_clients s)) \<and> card (dom (rg_clients s)) \<le> usize_max \<and>
     (\<forall>c ks. rg_clients s c = Some ks \<longrightarrow> finite ks \<and> ks \<noteq> {} \<and> card ks \<le> rg_max_per_client s) \<and>
     rg_reference_counts s = (\<lambda>k. if owners s k = {} then None else Some (card (owners s k))) \<and>
     rg_desired s = demanded (client_keys s) \<and>
     rg_snapshot s = rg_desired s \<and>
     (\<forall>p. card (provider_keys (rg_desired s) p) \<le> limit_for (rg_limits s) p)"

text \<open>
  The client table and the desired set live in memory, so neither holds more than
  \<open>usize_max\<close> entries; \<open>add\<close> is the operation that makes them grow.
\<close>

definition fits_memory :: "registry \<Rightarrow> client_id \<Rightarrow> sub_key list \<Rightarrow> bool" where
  "fits_memory s c keys \<longleftrightarrow> card (insert c (dom (rg_clients s))) \<le> usize_max \<and>
     card (rg_desired s \<union> set keys) \<le> usize_max"

text \<open>One operation of one client.\<close>

inductive registry_step :: "registry \<Rightarrow> registry \<Rightarrow> bool" where
  step_add: "set order = UNIV \<Longrightarrow> fits_memory s c keys \<Longrightarrow>
    registry_step s (fst (registry_add order s c keys))"
| step_remove: "registry_step s (fst (registry_remove s c keys))"
| step_cleanup: "registry_step s (fst (cleanup_client s c))"

definition registry_start :: "usize \<Rightarrow> provider_limits \<Rightarrow> registry \<Rightarrow> bool" where
  "registry_start m l s \<longleftrightarrow> s = with_provider_limits m l"

section \<open>Lemmas\<close>

lemma usize_max_pos: "1 < usize_max"
  by (simp add: usize_max_def)

lemma usize_saturating_add_1 [simp]: "usize_saturating_add n (Suc 0) = Suc 0 \<longleftrightarrow> n = 0"
  using usize_max_pos by (auto simp: usize_saturating_add_def min_def)


lemma count_entry_upd [simp]:
  "count_entry (m(q \<mapsto> n)) p = (if p = q then n else count_entry m p)"
  by (simp add: count_entry_def)

lemma provider_keys_insert:
  "provider_keys (insert k ks) p =
     (if key_provider k = p then insert k (provider_keys ks p) else provider_keys ks p)"
  by (auto simp: provider_keys_def)

lemma provider_keys_empty [simp]: "provider_keys {} p = {}"
  by (simp add: provider_keys_def)

lemma finite_provider_keys [simp]: "finite ks \<Longrightarrow> finite (provider_keys ks p)"
  by (simp add: provider_keys_def)

lemma provider_keys_mem [simp]: "k \<in> provider_keys ks p \<longleftrightarrow> k \<in> ks \<and> key_provider k = p"
  by (simp add: provider_keys_def)

lemma provider_keys_Un: "provider_keys (A \<union> B) p = provider_keys A p \<union> provider_keys B p"
  by (auto simp: provider_keys_def)

lemma count_desired_entry:
  "distinct ks \<Longrightarrow> count_entry (count_desired ks) p = card (provider_keys (set ks) p)"
proof (induction ks arbitrary: p rule: rev_induct)
  case Nil
  then show ?case by (simp add: count_desired_def count_entry_def provider_keys_def)
next
  case (snoc k ks)
  have step: "count_desired (ks @ [k]) =
      (count_desired ks)(key_provider k \<mapsto> count_entry (count_desired ks) (key_provider k) + 1)"
    by (simp add: count_desired_def del: fun_upd_apply)
  from snoc.prems have "k \<notin> set ks" and IH: "count_entry (count_desired ks) q =
      card (provider_keys (set ks) q)" for q
    using snoc.IH by auto
  then show ?case unfolding step by (simp add: provider_keys_insert del: fun_upd_apply)
qed

lemma count_new_entry:
  assumes "distinct ks" and "finite D" and "\<And>q. count_entry m q = min usize_max (card (provider_keys D q))"
    and "\<And>k. k \<in> set ks \<Longrightarrow> refs k = None \<longleftrightarrow> k \<notin> D"
  shows "count_entry (count_new refs m ks) p = min usize_max (card (provider_keys (D \<union> set ks) p))"
  using assms
proof (induction ks arbitrary: m D)
  case Nil
  then show ?case by (simp add: count_new_def)
next
  case (Cons k ks)
  show ?case
  proof (cases "k \<in> D")
    case True
    then have "count_new refs m (k # ks) = count_new refs m ks"
      using Cons.prems(4) [of k] by (auto simp: count_new_def)
    moreover have "D \<union> set (k # ks) = D \<union> set ks" using True by auto
    ultimately show ?thesis using Cons.IH [of D m] Cons.prems by simp
  next
    case False
    let ?m = "m(key_provider k \<mapsto> usize_saturating_add (count_entry m (key_provider k)) 1)"
    have e: "count_entry ?m q = min usize_max (card (provider_keys (insert k D) q))" for q
      using Cons.prems(2,3) False
      by (auto simp: provider_keys_insert usize_saturating_add_def min_def)
    have "count_new refs m (k # ks) = count_new refs ?m ks"
      using Cons.prems(4) [of k] False by (simp add: count_new_def)
    moreover have "refs j = None \<longleftrightarrow> j \<notin> insert k D" if "j \<in> set ks" for j
      using Cons.prems(1,4) that by auto
    then have "count_entry (count_new refs ?m ks) p =
        min usize_max (card (provider_keys (insert k D \<union> set ks) p))"
      using Cons.prems(1,2) by (intro Cons.IH e) auto
    ultimately show ?thesis by simp
  qed
qed

text \<open>The totals cover every provider some counted key belongs to.\<close>

lemma count_desired_dom: "dom (count_desired ks) = key_provider ` set ks"
  by (induction ks rule: rev_induct) (simp_all add: count_desired_def del: fun_upd_apply)

lemma count_new_dom:
  "dom (count_new refs m ks) = dom m \<union> key_provider ` {k \<in> set ks. refs k = None}"
proof (induction ks arbitrary: m)
  case (Cons k ks)
  have "count_new refs m (k # ks) = count_new refs (if refs k = None
      then m(key_provider k \<mapsto> usize_saturating_add (count_entry m (key_provider k)) 1) else m) ks"
    by (simp add: count_new_def)
  then show ?case using Cons by auto
qed (simp add: count_new_def)

lemma filter_upd_other:
  "k \<notin> set ks \<Longrightarrow> filter (\<lambda>j. P ((refs(k := v)) j)) ks = filter (\<lambda>j. P (refs j)) ks"
  by (intro filter_cong) auto

lemma activate_spec:
  "distinct ks \<Longrightarrow> activate ks (refs, desired, act) =
     ((\<lambda>k. if k \<in> set ks then Some (usize_saturating_add (case refs k of None \<Rightarrow> 0 | Some n \<Rightarrow> n) 1)
           else refs k),
      desired \<union> {k \<in> set ks. refs k \<in> {None, Some 0}},
      act @ filter (\<lambda>k. refs k \<in> {None, Some 0}) ks)"
proof (induction ks arbitrary: refs desired act)
  case (Cons k ks)
  note f = filter_upd_other [of k ks "\<lambda>v. v \<in> {None, Some 0}" refs]
  show ?case
  proof (cases "refs k \<in> {None, Some 0}")
    case True
    then show ?thesis
      using Cons.prems f by (auto simp: Let_def Cons.IH fun_eq_iff split: option.splits)
  next
    case False
    then show ?thesis
      using Cons.prems f by (auto simp: Let_def Cons.IH fun_eq_iff split: option.splits)
  qed
qed (simp add: fun_eq_iff)

lemma decrement_spec:
  "distinct ks \<Longrightarrow> decrement_references ks (refs, desired, deact) =
     ((\<lambda>k. if k \<in> set ks then (case refs k of None \<Rightarrow> None | Some n \<Rightarrow> if n > 1 then Some (n - 1) else None)
           else refs k),
      desired - {k \<in> set ks. refs k \<in> {Some 0, Some 1}},
      deact @ filter (\<lambda>k. refs k \<in> {Some 0, Some 1}) ks)"
proof (induction ks arbitrary: refs desired deact)
  case (Cons k ks)
  note f = filter_upd_other [of k ks "\<lambda>v. v \<in> {Some 0, Some 1}" refs]
  show ?case
  proof (cases "refs k")
    case None
    then show ?thesis using Cons.prems by (auto simp: Cons.IH fun_eq_iff)
  next
    case (Some n)
    then show ?thesis
      using Cons.prems f by (auto simp: Cons.IH fun_eq_iff split: option.splits)
  qed
qed (simp add: fun_eq_iff)

lemma filter_sorted_list_of_set:
  "finite A \<Longrightarrow> filter P (sorted_list_of_set A) = sorted_list_of_set {x \<in> A. P (x :: 'a :: linorder)}"
  by (rule strict_sorted_equal) (auto simp: sorted_wrt_filter)

lemma client_keys_upd:
  "rg_clients s' = (rg_clients s)(c := v) \<Longrightarrow>
     client_keys s' = (client_keys s)(c := (case v of None \<Rightarrow> {} | Some ks \<Rightarrow> ks))"
  by (auto simp: client_keys_def fun_eq_iff)

lemma owners_subset_dom: "owners s k \<subseteq> dom (rg_clients s)"
  by (auto simp: owners_def client_keys_def split: option.splits)

lemma registry_invD:
  assumes "registry_inv s"
  shows "finite (client_keys s c)" "card (client_keys s c) \<le> rg_max_per_client s"
    "finite (owners s k)" "finite (rg_desired s)"
    "rg_reference_counts s k = (if owners s k = {} then None else Some (card (owners s k)))"
    "k \<in> rg_desired s \<longleftrightarrow> owners s k \<noteq> {}"
    "rg_desired s = demanded (client_keys s)" "rg_snapshot s = rg_desired s"
    "card (provider_keys (rg_desired s) p) \<le> limit_for (rg_limits s) p"
    "finite (dom (rg_clients s))" "card (dom (rg_clients s)) \<le> usize_max"
    "rg_clients s c = Some ks \<Longrightarrow> ks \<noteq> {}"
proof -
  note inv = assms [unfolded registry_inv_def]
  show f: "finite (client_keys s c)" for c
    using inv by (auto simp: client_keys_def split: option.splits)
  show d: "finite (dom (rg_clients s))" "card (dom (rg_clients s)) \<le> usize_max" using inv by auto
  show "card (client_keys s c) \<le> rg_max_per_client s"
    using inv by (auto simp: client_keys_def split: option.splits)
  show "finite (owners s k)" by (rule finite_subset [OF owners_subset_dom d(1)])
  show e: "rg_desired s = demanded (client_keys s)" using inv by auto
  have "demanded (client_keys s) = (\<Union>c \<in> dom (rg_clients s). client_keys s c)"
    by (force simp: demanded_def client_keys_def split: option.splits)
  then show "finite (rg_desired s)" using d f e by simp
  show "k \<in> rg_desired s \<longleftrightarrow> owners s k \<noteq> {}" by (auto simp: e demanded_def owners_def)
  show "rg_reference_counts s k = (if owners s k = {} then None else Some (card (owners s k)))"
    "rg_snapshot s = rg_desired s" "card (provider_keys (rg_desired s) p) \<le> limit_for (rg_limits s) p"
    "rg_clients s c = Some ks \<Longrightarrow> ks \<noteq> {}"
    using inv by auto
qed

lemma reference_count_not_0: "registry_inv s \<Longrightarrow> rg_reference_counts s k \<noteq> Some 0"
  using registry_invD(3,5) [of s k] by auto

lemma reference_count_None: "registry_inv s \<Longrightarrow> rg_reference_counts s k = None \<longleftrightarrow> k \<notin> rg_desired s"
  using registry_invD(5,6) [of s] by simp

text \<open>The provider totals that \<open>add\<close> computes are the sizes of the provider's share of the
  desired set after the operation.\<close>

definition add_totals :: "registry \<Rightarrow> sub_key list \<Rightarrow> provider \<Rightarrow> usize option" where
  "add_totals s added = count_new (rg_reference_counts s)
     (count_desired (sorted_list_of_set (rg_desired s))) added"

lemma add_totals_entry:
  assumes "registry_inv s" and "distinct added" and "card (rg_desired s \<union> set added) \<le> usize_max"
  shows "count_entry (add_totals s added) p = card (provider_keys (rg_desired s \<union> set added) p)"
proof -
  let ?D = "rg_desired s"
  have fin: "finite ?D" by (rule registry_invD(4) [OF assms(1)])
  have le: "card (provider_keys A q) \<le> usize_max" if "A \<subseteq> ?D \<union> set added" for A q
  proof -
    have "card (provider_keys A q) \<le> card (?D \<union> set added)"
      using that fin by (intro card_mono) auto
    with assms(3) show ?thesis by simp
  qed
  have base: "count_entry (count_desired (sorted_list_of_set ?D)) q =
      min usize_max (card (provider_keys ?D q))" for q
    using fin le [of ?D q] by (simp add: count_desired_entry)
  have none: "k \<in> set added \<Longrightarrow> rg_reference_counts s k = None \<longleftrightarrow> k \<notin> ?D" for k
    using reference_count_None [OF assms(1)] by simp
  have "count_entry (add_totals s added) p = min usize_max (card (provider_keys (?D \<union> set added) p))"
    unfolding add_totals_def by (rule count_new_entry [OF assms(2) fin base none])
  with le [of "?D \<union> set added" p] show ?thesis by simp
qed

lemma add_totals_None:
  assumes "registry_inv s" and "add_totals s added p = None"
  shows "provider_keys (rg_desired s \<union> set added) p = {}"
proof -
  from assms(2) have "p \<notin> dom (add_totals s added)" by auto
  then have "\<forall>k \<in> rg_desired s. key_provider k \<noteq> p"
    and "\<forall>k \<in> set added. rg_reference_counts s k = None \<longrightarrow> key_provider k \<noteq> p"
    using registry_invD(4) [OF assms(1)] by (auto simp: add_totals_def count_new_dom count_desired_dom)
  then show ?thesis
    using reference_count_None [OF assms(1)] by (auto simp: provider_keys_def)
qed

lemma over_limit_iff:
  assumes "registry_inv s" and "distinct added" and "card (rg_desired s \<union> set added) \<le> usize_max"
  shows "(case add_totals s added p of None \<Rightarrow> False | Some n \<Rightarrow> n > limit_for (rg_limits s) p) \<longleftrightarrow>
    card (provider_keys (rg_desired s \<union> set added) p) > limit_for (rg_limits s) p"
proof (cases "add_totals s added p")
  case None
  then show ?thesis using add_totals_None [OF assms(1) None] by simp
next
  case (Some n)
  then show ?thesis
    using add_totals_entry [OF assms, of p] by (simp add: count_entry_def)
qed

text \<open>The state and the change report of an accepted \<open>add\<close>.\<close>

definition added_state :: "registry \<Rightarrow> client_id \<Rightarrow> sub_key set \<Rightarrow> registry" where
  "added_state s c new = s\<lparr>
     rg_clients := (rg_clients s)(c \<mapsto> client_keys s c \<union> new),
     rg_reference_counts := (\<lambda>k. if k \<in> new then Some (card (owners s k) + 1)
                                 else rg_reference_counts s k),
     rg_desired := rg_desired s \<union> new,
     rg_snapshot := rg_desired s \<union> new\<rparr>"

lemma not_owner: "k \<notin> client_keys s c \<Longrightarrow> c \<notin> owners s k"
  by (simp add: owners_def)

lemma card_owners_bound:
  assumes "registry_inv s" and "card (insert c (dom (rg_clients s))) \<le> usize_max"
    and "k \<notin> client_keys s c"
  shows "card (owners s k) + 1 \<le> usize_max"
proof -
  have "card (insert c (owners s k)) \<le> card (insert c (dom (rg_clients s)))"
    using owners_subset_dom [of s k] registry_invD(10) [OF assms(1)] by (intro card_mono) auto
  then show ?thesis
    using assms not_owner registry_invD(3) [OF assms(1)] by (simp add: card_insert_disjoint)
qed

lemma activate_added:
  assumes inv: "registry_inv s" and new: "new \<inter> client_keys s c = {}" "finite new"
    and mem: "card (insert c (dom (rg_clients s))) \<le> usize_max"
  shows "activate (sorted_list_of_set new) (rg_reference_counts s, rg_desired s, []) =
     (rg_reference_counts (added_state s c new), rg_desired s \<union> new,
      sorted_list_of_set (new - rg_desired s))"
proof -
  have refs: "rg_reference_counts s k \<in> {None, Some 0} \<longleftrightarrow> k \<notin> rg_desired s" for k
    using reference_count_not_0 [OF inv] reference_count_None [OF inv] by simp
  have "usize_saturating_add (case rg_reference_counts s k of None \<Rightarrow> 0 | Some n \<Rightarrow> n) 1 =
      card (owners s k) + 1" if "k \<in> new" for k
  proof -
    have "card (owners s k) + 1 \<le> usize_max"
      using new(1) that by (intro card_owners_bound [OF inv mem]) auto
    then show ?thesis
      using registry_invD(5) [OF inv, of k] by (simp add: usize_saturating_add_def)
  qed
  then show ?thesis
    using new(2) refs
    by (auto simp: activate_spec added_state_def filter_sorted_list_of_set fun_eq_iff
        intro!: arg_cong [where f = sorted_list_of_set])
qed

lemma requested_total:
  assumes "registry_inv s"
  shows "card (client_keys s c) + length (sorted_list_of_set (set keys - client_keys s c)) =
    card (client_keys s c \<union> set keys)"
proof -
  have "card (client_keys s c \<union> (set keys - client_keys s c)) =
      card (client_keys s c) + card (set keys - client_keys s c)"
    using registry_invD(1) [OF assms] by (intro card_Un_disjoint) auto
  then show ?thesis by simp
qed

lemma registry_add_accepts:
  assumes inv: "registry_inv s" and order: "set order = UNIV" and mem: "fits_memory s c keys"
    and cl: "card (client_keys s c \<union> set keys) \<le> rg_max_per_client s"
    and pl: "\<And>p. card (provider_keys (rg_desired s \<union> set keys) p) \<le> limit_for (rg_limits s) p"
  shows "registry_add order s c keys =
    (if set keys \<subseteq> client_keys s c then (s, Inr (unchanged (client_keys s c)))
     else let new = set keys - client_keys s c in
       (added_state s c new, Inr \<lparr>sc_added = sorted_list_of_set new, sc_removed = [],
          sc_activated = sorted_list_of_set (new - rg_desired s), sc_deactivated = [],
          sc_client_subscriptions = client_keys s c \<union> set keys\<rparr>))"
proof -
  let ?new = "set keys - client_keys s c"
  let ?added = "sorted_list_of_set ?new"
  have sub: "client_keys s c \<subseteq> rg_desired s"
    using registry_invD(7) [OF inv] by (auto simp: demanded_def)
  have D: "rg_desired s \<union> (set keys - client_keys s c) = rg_desired s \<union> set keys" using sub by auto
  have total: "card (client_keys s c) + length ?added = card (client_keys s c \<union> set keys)"
    by (rule requested_total [OF inv])
  have mem1: "card (insert c (dom (rg_clients s))) \<le> usize_max"
    and mem2: "card (rg_desired s \<union> set ?added) \<le> usize_max"
    using mem by (auto simp: D fits_memory_def)
  have none: "over_limit order (rg_limits s) (add_totals s ?added) = None"
    unfolding over_limit_def find_None_iff
    using over_limit_iff [OF inv _ mem2] pl by (simp add: D not_less)
  have act: "activate ?added (rg_reference_counts s, rg_desired s, []) =
     (rg_reference_counts (added_state s c ?new), rg_desired s \<union> ?new,
      sorted_list_of_set (?new - rg_desired s))"
    by (rule activate_added [OF inv _ _ mem1]) auto
  have snap: "(if sorted_list_of_set (?new - rg_desired s) = [] then rg_snapshot s
      else rg_desired s \<union> ?new) = rg_desired s \<union> ?new"
    using registry_invD(8) [OF inv] by auto
  have "client_keys (added_state s c ?new) c = client_keys s c \<union> set keys"
    by (simp add: client_keys_def added_state_def)
  then show ?thesis
    using cl total none act snap
    by (simp add: registry_add_def Let_def add_totals_def [symmetric] added_state_def
        Diff_eq_empty_iff)
qed

lemma registry_add_rejects_client:
  assumes inv: "registry_inv s" and cl: "rg_max_per_client s < card (client_keys s c \<union> set keys)"
  shows "registry_add order s c keys =
    (s, Inl (ClientLimitExceeded (rg_max_per_client s) (card (client_keys s c \<union> set keys))))"
proof -
  have "card (client_keys s c) + length (sorted_list_of_set (set keys - client_keys s c)) =
      card (client_keys s c \<union> set keys)"
    by (rule requested_total [OF inv])
  with cl show ?thesis by (simp add: registry_add_def Let_def)
qed

lemma registry_add_rejects_provider:
  assumes inv: "registry_inv s" and order: "set order = UNIV" and mem: "fits_memory s c keys"
    and cl: "card (client_keys s c \<union> set keys) \<le> rg_max_per_client s"
    and q: "card (provider_keys (rg_desired s \<union> set keys) q) > limit_for (rg_limits s) q"
  obtains p where "card (provider_keys (rg_desired s \<union> set keys) p) > limit_for (rg_limits s) p"
    and "registry_add order s c keys = (s, Inl (ProviderLimitExceeded p (limit_for (rg_limits s) p)
      (card (provider_keys (rg_desired s \<union> set keys) p))))"
proof -
  let ?new = "set keys - client_keys s c"
  let ?added = "sorted_list_of_set ?new"
  have sub: "client_keys s c \<subseteq> rg_desired s"
    using registry_invD(7) [OF inv] by (auto simp: demanded_def)
  have D: "rg_desired s \<union> (set keys - client_keys s c) = rg_desired s \<union> set keys" using sub by auto
  have total: "card (client_keys s c) + length ?added = card (client_keys s c \<union> set keys)"
    by (rule requested_total [OF inv])
  have ne: "?added \<noteq> []"
    using q registry_invD(9) [OF inv, of q] sub by (auto simp: Un_absorb2)
  have mem2: "card (rg_desired s \<union> set ?added) \<le> usize_max"
    using mem by (auto simp: D fits_memory_def)
  obtain p where p: "over_limit order (rg_limits s) (add_totals s ?added) = Some p"
    using q order over_limit_iff [OF inv _ mem2, of q]
    by (cases "over_limit order (rg_limits s) (add_totals s ?added)")
      (auto simp: over_limit_def find_None_iff D)
  then have gt: "card (provider_keys (rg_desired s \<union> set keys) p) > limit_for (rg_limits s) p"
    using over_limit_iff [OF inv _ mem2, of p] by (auto simp: over_limit_def D dest!: find_SomeD)
  have "count_entry (add_totals s ?added) p = card (provider_keys (rg_desired s \<union> set keys) p)"
    using add_totals_entry [OF inv _ mem2, of p] by (simp add: D)
  then have "registry_add order s c keys = (s, Inl (ProviderLimitExceeded p (limit_for (rg_limits s) p)
      (card (provider_keys (rg_desired s \<union> set keys) p))))"
    using p cl total ne by (simp add: registry_add_def Let_def add_totals_def [symmetric])
  with gt that show thesis by blast
qed

text \<open>The state after a client gives up keys it owned.\<close>

definition removed_state :: "registry \<Rightarrow> client_id \<Rightarrow> sub_key set \<Rightarrow> registry" where
  "removed_state s c gone = s\<lparr>
     rg_clients := (rg_clients s)(c := (if client_keys s c - gone = {} then None
                                         else Some (client_keys s c - gone))),
     rg_reference_counts := (\<lambda>k. if k \<in> gone
        then (if owners s k = {c} then None else Some (card (owners s k) - 1))
        else rg_reference_counts s k),
     rg_desired := rg_desired s - {k \<in> gone. owners s k = {c}},
     rg_snapshot := rg_desired s - {k \<in> gone. owners s k = {c}}\<rparr>"

lemma sole_owner_iff:
  assumes "registry_inv s" and "k \<in> client_keys s c"
  shows "rg_reference_counts s k \<in> {Some 0, Some 1} \<longleftrightarrow> owners s k = {c}"
    and "rg_reference_counts s k = Some (card (owners s k))"
    and "1 < card (owners s k) \<longleftrightarrow> owners s k \<noteq> {c}"
proof -
  from assms(2) have c: "c \<in> owners s k" by (simp add: owners_def)
  have fin: "finite (owners s k)" by (rule registry_invD(3) [OF assms(1)])
  show r: "rg_reference_counts s k = Some (card (owners s k))"
    using c registry_invD(5) [OF assms(1), of k] by auto
  have pos: "card (owners s k) > 0" using c fin card_gt_0_iff by blast
  have "card (owners s k) = 1 \<longleftrightarrow> owners s k = {c}"
    using c by (auto simp: card_1_singleton_iff)
  with pos show "1 < card (owners s k) \<longleftrightarrow> owners s k \<noteq> {c}" by linarith
  with pos show "rg_reference_counts s k \<in> {Some 0, Some 1} \<longleftrightarrow> owners s k = {c}"
    using \<open>card (owners s k) = 1 \<longleftrightarrow> owners s k = {c}\<close> by (auto simp: r)
qed

lemma decrement_removed:
  assumes inv: "registry_inv s" and gone: "gone \<subseteq> client_keys s c"
  shows "decrement_references (sorted_list_of_set gone) (rg_reference_counts s, rg_desired s, []) =
     (rg_reference_counts (removed_state s c gone), rg_desired (removed_state s c gone),
      sorted_list_of_set {k \<in> gone. owners s k = {c}})"
proof -
  have fin: "finite gone" using gone registry_invD(1) [OF inv] finite_subset by blast
  note so = sole_owner_iff [OF inv, of _ c]
  have refs: "(case rg_reference_counts s k of None \<Rightarrow> None
      | Some n \<Rightarrow> if n > 1 then Some (n - 1) else None) =
      (if owners s k = {c} then None else Some (card (owners s k) - 1))" if "k \<in> gone" for k
  proof -
    from gone that have k: "k \<in> client_keys s c" by auto
    show ?thesis using so(2,3) [OF k] by (simp del: One_nat_def)
  qed
  have sole: "{k \<in> gone. rg_reference_counts s k \<in> {Some 0, Some 1}} = {k \<in> gone. owners s k = {c}}"
    using so(1) gone by blast
  have d: "distinct (sorted_list_of_set gone)" by simp
  show ?thesis
    unfolding decrement_spec [OF d] filter_sorted_list_of_set [OF fin] sorted_list_of_set_mem [OF fin]
      sole removed_state_def
    by (simp add: refs fun_eq_iff)
qed

lemma publish_removed:
  assumes "registry_inv s" and "finite gone"
  shows "publish_snapshot_if_changed (rg_snapshot s) (rg_desired (removed_state s c gone))
     (sorted_list_of_set {k \<in> gone. owners s k = {c}}) = rg_desired (removed_state s c gone)"
proof (cases "{k \<in> gone. owners s k = {c}} = {}")
  case True
  show ?thesis
    using registry_invD(8) [OF assms(1)]
    by (simp add: publish_snapshot_if_changed_def removed_state_def True)
next
  case False
  with assms(2) show ?thesis
    by (simp add: publish_snapshot_if_changed_def del: Collect_empty_eq)
qed

lemma client_keys_removed_state:
  "client_keys (removed_state s c gone) = (client_keys s)(c := client_keys s c - gone)"
  by (auto simp: client_keys_def removed_state_def fun_eq_iff)

lemma client_keys_record [simp]:
  "client_keys (s\<lparr>rg_clients := m, rg_reference_counts := r, rg_desired := d, rg_snapshot := n\<rparr>) c =
     (case m c of None \<Rightarrow> {} | Some ks \<Rightarrow> ks)"
  by (simp add: client_keys_def)

lemma registry_remove_eq:
  assumes inv: "registry_inv s"
  shows "registry_remove s c keys =
    (let gone = set keys \<inter> client_keys s c in
     if gone = {} then (s, unchanged (client_keys s c))
     else (removed_state s c gone, \<lparr>sc_added = [], sc_removed = sorted_list_of_set gone,
        sc_activated = [], sc_deactivated = sorted_list_of_set {k \<in> gone. owners s k = {c}},
        sc_client_subscriptions = client_keys s c - set keys\<rparr>))"
proof -
  let ?gone = "set keys \<inter> client_keys s c"
  have rem: "client_keys s c - ?gone = client_keys s c - set keys" by auto
  show ?thesis
    using decrement_removed [OF inv, of ?gone c] publish_removed [OF inv, of ?gone c]
      client_keys_removed_state [of s c ?gone]
    by (simp add: registry_remove_def Let_def rem removed_state_def)
qed

lemma cleanup_client_eq:
  assumes inv: "registry_inv s"
  shows "cleanup_client s c =
    (let gone = client_keys s c in
     if gone = {} then (s, unchanged {})
     else (removed_state s c gone, \<lparr>sc_added = [], sc_removed = sorted_list_of_set gone,
        sc_activated = [], sc_deactivated = sorted_list_of_set {k \<in> gone. owners s k = {c}},
        sc_client_subscriptions = {}\<rparr>))"
proof (cases "rg_clients s c")
  case None
  then show ?thesis by (simp add: cleanup_client_def client_keys_def)
next
  case (Some ks)
  then have ks: "client_keys s c = ks" "ks \<noteq> {}"
    using registry_invD(12) [OF inv] by (auto simp: client_keys_def)
  show ?thesis
    using Some ks decrement_removed [OF inv, of ks c] publish_removed [OF inv, of ks c]
      registry_invD(1) [OF inv, of c]
    by (simp add: cleanup_client_def Let_def removed_state_def)
qed

lemma client_keys_added_state:
  "client_keys (added_state s c new) = (client_keys s)(c := client_keys s c \<union> new)"
  by (auto simp: client_keys_def added_state_def fun_eq_iff)

lemma owners_added_state:
  "owners (added_state s c new) k = (if k \<in> new then insert c (owners s k) else owners s k)"
  by (auto simp: owners_def client_keys_added_state split: if_splits)

lemma owners_removed_state:
  "owners (removed_state s c gone) k = (if k \<in> gone then owners s k - {c} else owners s k)"
  by (auto simp: owners_def client_keys_removed_state split: if_splits)

lemma demanded_upd: "demanded (d(c := K)) = (\<Union>x \<in> - {c}. d x) \<union> K"
  by (auto simp: demanded_def split: if_splits)

lemma added_state_inv:
  assumes inv: "registry_inv s" and mem: "card (insert c (dom (rg_clients s))) \<le> usize_max"
    and new: "new \<inter> client_keys s c = {}" "finite new" "new \<noteq> {}"
    and cl: "card (client_keys s c \<union> new) \<le> rg_max_per_client s"
    and pl: "\<And>p. card (provider_keys (rg_desired s \<union> new) p) \<le> limit_for (rg_limits s) p"
  shows "registry_inv (added_state s c new)"
proof -
  let ?t = "added_state s c new"
  have t: "rg_clients ?t = (rg_clients s)(c \<mapsto> client_keys s c \<union> new)"
    "rg_max_per_client ?t = rg_max_per_client s" "rg_limits ?t = rg_limits s"
    "rg_desired ?t = rg_desired s \<union> new" "rg_snapshot ?t = rg_desired s \<union> new"
    by (simp_all add: added_state_def)
  have refs: "rg_reference_counts ?t k = (if owners ?t k = {} then None else Some (card (owners ?t k)))"
    for k
  proof (cases "k \<in> new")
    case True
    then have "c \<notin> owners s k" using new(1) by (auto simp: owners_def)
    with True show ?thesis
      using registry_invD(3) [OF inv, of k]
      by (simp add: owners_added_state) (simp add: added_state_def)
  next
    case False
    then show ?thesis
      using registry_invD(5) [OF inv, of k] by (simp add: owners_added_state) (simp add: added_state_def)
  qed
  have cls: "finite ks \<and> ks \<noteq> {} \<and> card ks \<le> rg_max_per_client s" if "rg_clients ?t d = Some ks" for d ks
    using that inv cl new(2,3) registry_invD(1) [OF inv, of c]
    by (auto simp: t registry_inv_def split: if_splits)
  have "rg_desired s \<union> new = demanded (client_keys ?t)"
    using registry_invD(7) [OF inv]
    by (auto simp: client_keys_added_state demanded_def split: if_splits)
  then show ?thesis
    unfolding registry_inv_def t
    using refs cls mem pl registry_invD(10) [OF inv] by (auto simp: t)
qed

lemma removed_state_inv:
  assumes inv: "registry_inv s" and gone: "gone \<subseteq> client_keys s c"
  shows "registry_inv (removed_state s c gone)"
proof -
  let ?t = "removed_state s c gone"
  let ?D = "rg_desired s - {k \<in> gone. owners s k = {c}}"
  have t: "rg_clients ?t = (rg_clients s)(c := (if client_keys s c - gone = {} then None
             else Some (client_keys s c - gone)))"
    "rg_max_per_client ?t = rg_max_per_client s" "rg_limits ?t = rg_limits s"
    "rg_desired ?t = ?D" "rg_snapshot ?t = ?D"
    by (simp_all add: removed_state_def)
  have refs: "rg_reference_counts ?t k = (if owners ?t k = {} then None else Some (card (owners ?t k)))"
    for k
  proof (cases "k \<in> gone")
    case True
    with gone have c: "c \<in> owners s k" by (auto simp: owners_def)
    then have "owners s k - {c} = {} \<longleftrightarrow> owners s k = {c}" by auto
    with True c show ?thesis
      using registry_invD(3) [OF inv, of k]
      by (simp add: owners_removed_state) (simp add: removed_state_def)
  next
    case False
    then show ?thesis
      using registry_invD(5) [OF inv, of k]
      by (simp add: owners_removed_state) (simp add: removed_state_def)
  qed
  have des: "?D = demanded (client_keys ?t)"
  proof (rule set_eqI)
    fix k
    have "k \<in> demanded (client_keys ?t) \<longleftrightarrow> owners ?t k \<noteq> {}" by (auto simp: demanded_def owners_def)
    also have "k \<in> gone \<Longrightarrow> c \<in> owners s k" using gone by (auto simp: owners_def)
    then have "owners ?t k \<noteq> {} \<longleftrightarrow> k \<in> ?D"
      using registry_invD(6) [OF inv, of k] by (auto simp: owners_removed_state)
    finally show "k \<in> ?D \<longleftrightarrow> k \<in> demanded (client_keys ?t)" ..
  qed
  have cls: "finite ks \<and> ks \<noteq> {} \<and> card ks \<le> rg_max_per_client s" if "rg_clients ?t d = Some ks" for d ks
  proof (cases "d = c")
    case True
    with that have "ks = client_keys s c - gone" "ks \<noteq> {}" by (auto simp: t split: if_splits)
    then show ?thesis
      using registry_invD(1,2) [OF inv, of c] card_mono [of "client_keys s c" ks] by auto
  next
    case False
    with that inv show ?thesis by (auto simp: t registry_inv_def)
  qed
  have "dom (rg_clients ?t) \<subseteq> insert c (dom (rg_clients s))" by (auto simp: t split: if_splits)
  moreover have "c \<in> dom (rg_clients ?t) \<Longrightarrow> c \<in> dom (rg_clients s)"
    using gone by (auto simp: t client_keys_def split: if_splits option.splits)
  ultimately have sub: "dom (rg_clients ?t) \<subseteq> dom (rg_clients s)" by auto
  note fin = registry_invD(10,11) [OF inv]
  from sub fin have "finite (dom (rg_clients ?t))" "card (dom (rg_clients ?t)) \<le> usize_max"
    using finite_subset card_mono order_trans by metis+
  moreover have "card (provider_keys ?D p) \<le> limit_for (rg_limits s) p" for p
  proof -
    have "card (provider_keys ?D p) \<le> card (provider_keys (rg_desired s) p)"
      using registry_invD(4) [OF inv] by (intro card_mono) auto
    with registry_invD(9) [OF inv, of p] show ?thesis by simp
  qed
  ultimately show ?thesis
    unfolding registry_inv_def using refs cls des by (auto simp: t)
qed

lemma deactivated_set:
  assumes inv: "registry_inv s" and gone: "gone \<subseteq> client_keys s c"
  shows "set (sorted_list_of_set {k \<in> gone. owners s k = {c}}) =
    rg_desired s - rg_desired (removed_state s c gone)"
proof -
  have "finite gone" using gone registry_invD(1) [OF inv] finite_subset by blast
  then show ?thesis using registry_invD(6) [OF inv] by (auto simp: removed_state_def)
qed

lemma fold_min_le_start: "fold min vs (v :: 'a :: linorder) \<le> v"
proof (induction vs arbitrary: v)
  case (Cons w vs)
  have "fold min vs (min w v) \<le> min w v" by (rule Cons.IH)
  then show ?case by simp
qed simp

lemma fold_min_le: "(x :: 'a :: linorder) \<in> set vs \<Longrightarrow> fold min vs v \<le> x"
proof (induction vs arbitrary: v)
  case (Cons w vs)
  show ?case
  proof (cases "x \<in> set vs")
    case True
    with Cons.IH show ?thesis by simp
  next
    case False
    with Cons.prems have "min w v \<le> x" by auto
    with fold_min_le_start [of vs "min w v"] show ?thesis
      unfolding fold_simps by (rule order_trans)
  qed
qed simp

lemma minimum_le: "pl_limits l p = Some n \<Longrightarrow> minimum l \<le> n"
proof -
  assume n: "pl_limits l p = Some n"
  have "n \<in> set (List.map_filter (pl_limits l) all_providers)"
    using n all_providers_complete [of p] by (force simp: List.map_filter_def)
  then show ?thesis
    by (auto simp: minimum_def split: list.splits intro: fold_min_le fold_min_le_start)
qed

lemma with_provider_limits_inv: "registry_inv (with_provider_limits m l)"
  by (auto simp: registry_inv_def with_provider_limits_def owners_def client_keys_def demanded_def
      provider_keys_def fun_eq_iff)

lemma registry_add_cases:
  assumes "registry_inv s" and "set order = UNIV" and "fits_memory s c keys"
  obtains (client) "rg_max_per_client s < card (client_keys s c \<union> set keys)"
  | (provider) q where "card (client_keys s c \<union> set keys) \<le> rg_max_per_client s"
      "card (provider_keys (rg_desired s \<union> set keys) q) > limit_for (rg_limits s) q"
  | (accept) "card (client_keys s c \<union> set keys) \<le> rg_max_per_client s"
      "\<And>p. card (provider_keys (rg_desired s \<union> set keys) p) \<le> limit_for (rg_limits s) p"
  using not_less by metis

lemma desired_Un_new:
  assumes "registry_inv s"
  shows "rg_desired s \<union> (set keys - client_keys s c) = rg_desired s \<union> set keys"
  using registry_invD(7) [OF assms] by (auto simp: demanded_def)

lemma registry_add_inv:
  assumes inv: "registry_inv s" and order: "set order = UNIV" and mem: "fits_memory s c keys"
  shows "registry_inv (fst (registry_add order s c keys))"
  using assms
proof (cases rule: registry_add_cases)
  case client
  then show ?thesis using inv by (simp add: registry_add_rejects_client [OF inv])
next
  case (provider q)
  then obtain p where "registry_add order s c keys = (s, Inl (ProviderLimitExceeded p
      (limit_for (rg_limits s) p) (card (provider_keys (rg_desired s \<union> set keys) p))))"
    using registry_add_rejects_provider [OF assms] by metis
  then show ?thesis using inv by simp
next
  case accept
  note eq = registry_add_accepts [OF assms accept]
  show ?thesis
  proof (cases "set keys \<subseteq> client_keys s c")
    case True
    with eq inv show ?thesis by simp
  next
    case False
    have "registry_inv (added_state s c (set keys - client_keys s c))"
      using inv mem accept False
      by (intro added_state_inv) (auto simp: fits_memory_def desired_Un_new)
    with eq False show ?thesis by (simp add: Let_def)
  qed
qed

lemma registry_remove_inv: "registry_inv s \<Longrightarrow> registry_inv (fst (registry_remove s c keys))"
  by (simp add: registry_remove_eq Let_def removed_state_inv)

lemma cleanup_client_inv: "registry_inv s \<Longrightarrow> registry_inv (fst (cleanup_client s c))"
  by (simp add: cleanup_client_eq Let_def removed_state_inv)

lemma registry_add_config:
  "rg_max_per_client (fst (registry_add order s c keys)) = rg_max_per_client s"
  "rg_limits (fst (registry_add order s c keys)) = rg_limits s"
  by (simp_all add: registry_add_def Let_def split: option.splits prod.splits)

lemma registry_remove_config:
  "rg_max_per_client (fst (registry_remove s c keys)) = rg_max_per_client s"
  "rg_limits (fst (registry_remove s c keys)) = rg_limits s"
  by (simp_all add: registry_remove_def Let_def split: prod.splits)

lemma cleanup_client_config:
  "rg_max_per_client (fst (cleanup_client s c)) = rg_max_per_client s"
  "rg_limits (fst (cleanup_client s c)) = rg_limits s"
  by (simp_all add: cleanup_client_def Let_def split: option.splits prod.splits)

lemmas registry_op_facts = registry_add_inv registry_remove_inv cleanup_client_inv
  registry_add_config registry_remove_config cleanup_client_config

interpretation rg: invariant_system "registry_start m l" registry_step
  "\<lambda>s. registry_inv s \<and> rg_max_per_client s = m \<and> rg_limits s = l"
proof
  show "registry_inv s \<and> rg_max_per_client s = m \<and> rg_limits s = l" if "registry_start m l s" for s
    using that with_provider_limits_inv by (simp add: registry_start_def with_provider_limits_def)
  show "registry_inv t \<and> rg_max_per_client t = m \<and> rg_limits t = l"
    if "registry_inv s \<and> rg_max_per_client s = m \<and> rg_limits s = l" "registry_step s t" for s t
    using that(2,1) by (cases rule: registry_step.cases) (simp_all add: registry_op_facts)
qed

section \<open>Properties\<close>

text \<open>
  (C3) Whatever sequence of subscribes, unsubscribes and disconnects the clients perform, the
  registry stays consistent: each key's reference count is the number of clients that demand
  it, the desired set is exactly the union of the clients' sets, the published snapshot is the
  desired set, no client exceeds the per-client limit and no provider its own ceiling.
\<close>

theorem registry_reachable_consistent:
  assumes "reachable (registry_start m l) registry_step s"
  shows "(\<forall>k. reference_count s k = card (owners s k)) \<and>
    rg_desired s = demanded (client_keys s) \<and> rg_snapshot s = rg_desired s \<and>
    (\<forall>c. card (client_keys s c) \<le> m) \<and>
    (\<forall>p. card (provider_keys (rg_desired s) p) \<le> limit_for l p)"
proof -
  have inv: "registry_inv s" and cfg: "rg_max_per_client s = m" "rg_limits s = l"
    using rg.reachable_inv [OF assms] by auto
  have "reference_count s k = card (owners s k)" for k
    using registry_invD(5) [OF inv, of k] by (simp add: reference_count_def)
  then show ?thesis
    using registry_invD(2,7,8,9) [OF inv] cfg by simp
qed

text \<open>
  The demand-table specification of \<open>add\<close>: whether the table may grow by the requested keys.
\<close>

definition demand_accepts ::
  "usize \<Rightarrow> provider_limits \<Rightarrow> (client_id \<Rightarrow> sub_key set) \<Rightarrow> client_id \<Rightarrow> sub_key set \<Rightarrow> bool" where
  "demand_accepts m l d c K \<longleftrightarrow> card (d c \<union> K) \<le> m \<and>
     (\<forall>p. card (provider_keys (demanded d \<union> K) p) \<le> limit_for l p)"

text \<open>
  (C4) \<open>add\<close> refines the demand table. It succeeds exactly when the client's enlarged set
  respects the client limit and every provider's enlarged share respects that provider's
  ceiling; on success only the caller's row grows, by the requested keys, and the report names
  the keys new to the client and the keys new to the whole table; on failure nothing changes.
  The verdict does not depend on the iteration order of the totals map.
\<close>

theorem registry_add_refines:
  assumes "registry_inv s" and "set order = UNIV" and "fits_memory s c keys"
  shows "case registry_add order s c keys of
      (t, Inl e) \<Rightarrow> t = s \<and>
        \<not> demand_accepts (rg_max_per_client s) (rg_limits s) (client_keys s) c (set keys)
    | (t, Inr ch) \<Rightarrow>
        demand_accepts (rg_max_per_client s) (rg_limits s) (client_keys s) c (set keys) \<and>
        client_keys t = (client_keys s)(c := client_keys s c \<union> set keys) \<and>
        rg_desired t = rg_desired s \<union> set keys \<and>
        set (sc_added ch) = set keys - client_keys s c \<and>
        set (sc_activated ch) = set keys - rg_desired s \<and>
        sc_removed ch = [] \<and> sc_deactivated ch = [] \<and>
        sc_client_subscriptions ch = client_keys t c"
  using assms
proof (cases rule: registry_add_cases)
  case client
  then show ?thesis
    by (simp add: registry_add_rejects_client [OF assms(1)] demand_accepts_def)
next
  case (provider q)
  then obtain p where "registry_add order s c keys = (s, Inl (ProviderLimitExceeded p
      (limit_for (rg_limits s) p) (card (provider_keys (rg_desired s \<union> set keys) p))))"
    using registry_add_rejects_provider [OF assms] by metis
  moreover have "\<not> demand_accepts (rg_max_per_client s) (rg_limits s) (client_keys s) c (set keys)"
    using provider registry_invD(7) [OF assms(1)] by (auto simp: demand_accepts_def not_le)
  ultimately show ?thesis by simp
next
  case accept
  have acc: "demand_accepts (rg_max_per_client s) (rg_limits s) (client_keys s) c (set keys)"
    using accept registry_invD(7) [OF assms(1)] by (simp add: demand_accepts_def)
  have sub: "client_keys s c \<subseteq> rg_desired s"
    using registry_invD(7) [OF assms(1)] by (auto simp: demanded_def)
  show ?thesis
  proof (cases "set keys \<subseteq> client_keys s c")
    case True
    with acc sub show ?thesis
      by (auto simp: registry_add_accepts [OF assms accept] unchanged_def Un_absorb2)
  next
    case False
    with acc sub show ?thesis
      by (auto simp: registry_add_accepts [OF assms accept] Let_def client_keys_added_state)
        (auto simp: added_state_def)
  qed
qed

text \<open>
  (C5) \<open>remove\<close> refines the demand table: only the caller's row shrinks, by the keys it
  owned; the keys reported as deactivated are exactly the ones nobody demands afterwards, and
  they leave the desired set; unknown keys are ignored.
\<close>

theorem registry_remove_refines:
  assumes "registry_inv s"
  shows "case registry_remove s c keys of (t, ch) \<Rightarrow>
    client_keys t = (client_keys s)(c := client_keys s c - set keys) \<and>
    rg_desired t = demanded (client_keys t) \<and>
    set (sc_removed ch) = set keys \<inter> client_keys s c \<and>
    set (sc_deactivated ch) = rg_desired s - rg_desired t \<and>
    sc_added ch = [] \<and> sc_activated ch = [] \<and>
    sc_client_subscriptions ch = client_keys t c"
proof -
  let ?gone = "set keys \<inter> client_keys s c"
  have "registry_inv (removed_state s c ?gone)" by (rule removed_state_inv [OF assms]) auto
  then have des: "rg_desired (removed_state s c ?gone) = demanded (client_keys (removed_state s c ?gone))"
    by (rule registry_invD(7))
  show ?thesis
  proof (cases "?gone = {}")
    case True
    then have "client_keys s c - set keys = client_keys s c" by auto
    with True registry_invD(7) [OF assms] show ?thesis
      by (simp add: registry_remove_eq [OF assms] unchanged_def)
  next
    case False
    have "client_keys s c - ?gone = client_keys s c - set keys" by auto
    with False des deactivated_set [OF assms, of ?gone c] registry_invD(4) [OF assms] show ?thesis
      by (simp add: registry_remove_eq [OF assms] client_keys_removed_state Let_def)
  qed
qed

text \<open>
  (C6) Disconnecting a client empties its row and nothing else: afterwards the desired set is
  the union of the other clients' sets, so no demand outlives the client that asked for it.
\<close>

theorem cleanup_client_refines:
  assumes "registry_inv s"
  shows "case cleanup_client s c of (t, ch) \<Rightarrow>
    client_keys t = (client_keys s)(c := {}) \<and>
    rg_desired t = (\<Union>d \<in> - {c}. client_keys s d) \<and>
    set (sc_removed ch) = client_keys s c \<and>
    set (sc_deactivated ch) = rg_desired s - rg_desired t \<and>
    rg_snapshot t = rg_desired t"
proof -
  let ?gone = "client_keys s c"
  have inv: "registry_inv (removed_state s c ?gone)" by (rule removed_state_inv [OF assms]) auto
  have upd: "(client_keys s)(c := {}) = client_keys s" if "?gone = {}"
    using that by (simp add: fun_upd_idem)
  have des: "rg_desired (removed_state s c ?gone) = (\<Union>d \<in> - {c}. client_keys s d)"
    using registry_invD(7) [OF inv] by (simp add: client_keys_removed_state demanded_upd)
  show ?thesis
  proof (cases "?gone = {}")
    case True
    with upd des registry_invD(7,8) [OF assms] show ?thesis
      by (auto simp: cleanup_client_eq [OF assms] unchanged_def demanded_def)
  next
    case False
    with des deactivated_set [OF assms, of ?gone c] registry_invD(1) [OF assms, of c]
      registry_invD(8) [OF inv] registry_invD(4) [OF assms] show ?thesis
      by (simp add: cleanup_client_eq [OF assms] client_keys_removed_state Let_def)
  qed
qed

text \<open>
  An operator ceiling only tightens: the capped limit of every provider is the smaller of
  its declared limit and the ceiling, and the single number announced to clients undercuts the
  limit of no configured provider, so applying it uniformly never oversubscribes one.
\<close>

theorem provider_limits_safe:
  assumes "p \<in> dom (pl_limits l)"
  shows "limit_for (capped_at l cap) p = min (limit_for l p) cap \<and>
    minimum (capped_at l cap) \<le> limit_for (capped_at l cap) p"
proof -
  from assms obtain n where n: "pl_limits (capped_at l cap) p = Some n"
    by (auto simp: capped_at_def)
  then have "minimum (capped_at l cap) \<le> n" by (rule minimum_le)
  with n show ?thesis by (auto simp: capped_at_def limit_for_def split: option.splits)
qed

section \<open>Witnesses\<close>

text \<open>Two keys of one instrument, an empty registry for them, and the same registry after one
  client subscribed to the first key.\<close>

definition sample_key :: "channel \<Rightarrow> sub_key" where
  "sample_key ch = SubscriptionKey Bybit LinearPerpetual ''BTCUSDT'' ch"

definition sample_registry :: registry where
  "sample_registry = with_provider_limits 2 \<lparr>pl_limits = [Bybit \<mapsto> 1], pl_fallback = 5\<rparr>"

definition sample_subscribed :: registry where
  "sample_subscribed = fst (registry_add all_providers sample_registry 7 [sample_key Ticker])"

lemma set_all_providers: "set all_providers = UNIV"
  using all_providers_complete by blast

lemma sample_registry_inv: "registry_inv sample_registry"
  by (simp add: sample_registry_def with_provider_limits_inv)

lemma sample_fits: "fits_memory sample_registry 7 [sample_key Ticker]"
  using usize_max_pos by (simp add: fits_memory_def sample_registry_def with_provider_limits_def)

lemma sample_subscribed_inv: "registry_inv sample_subscribed"
  unfolding sample_subscribed_def
  by (rule registry_add_inv [OF sample_registry_inv set_all_providers sample_fits])

theorem registry_reachable_consistent_witness:
  "reachable (registry_start 2 \<lparr>pl_limits = [Bybit \<mapsto> 1], pl_fallback = 5\<rparr>) registry_step
     sample_subscribed \<and> rg_snapshot sample_subscribed = rg_desired sample_subscribed"
proof -
  let ?start = "registry_start 2 \<lparr>pl_limits = [Bybit \<mapsto> 1], pl_fallback = 5\<rparr>"
  have "?start sample_registry" by (simp add: registry_start_def sample_registry_def)
  then have "reachable ?start registry_step sample_registry" by (rule reachable_start)
  moreover have "registry_step sample_registry sample_subscribed"
    unfolding sample_subscribed_def by (rule step_add [OF set_all_providers sample_fits])
  ultimately have r: "reachable ?start registry_step sample_subscribed" by (rule reachable_step)
  with registry_reachable_consistent [OF r] show ?thesis by blast
qed

theorem registry_add_refines_witness:
  "case registry_add all_providers sample_registry 7 [sample_key Ticker] of
     (t, Inl e) \<Rightarrow> False
   | (t, Inr ch) \<Rightarrow> rg_desired t = {sample_key Ticker} \<and> set (sc_activated ch) = {sample_key Ticker}"
proof -
  have "demand_accepts (rg_max_per_client sample_registry) (rg_limits sample_registry)
      (client_keys sample_registry) 7 (set [sample_key Ticker])"
    by (auto simp: demand_accepts_def sample_registry_def with_provider_limits_def client_keys_def
        demanded_def provider_keys_insert provider_keys_empty sample_key_def limit_for_def)
  then show ?thesis
    using registry_add_refines [OF sample_registry_inv set_all_providers sample_fits]
    by (auto simp: sample_registry_def with_provider_limits_def split: prod.splits sum.splits)
qed

theorem registry_remove_refines_witness:
  "case registry_remove sample_subscribed 7 [sample_key Ticker, sample_key Candle1m] of
     (t, ch) \<Rightarrow> client_keys t 7 =
       client_keys sample_subscribed 7 - {sample_key Ticker, sample_key Candle1m}"
  using registry_remove_refines [OF sample_subscribed_inv, of 7 "[sample_key Ticker, sample_key Candle1m]"]
  by (auto split: prod.splits)

theorem cleanup_client_refines_witness:
  "case cleanup_client sample_subscribed 7 of
     (t, ch) \<Rightarrow> client_keys t 7 = {} \<and> rg_snapshot t = rg_desired t"
  using cleanup_client_refines [OF sample_subscribed_inv, of 7] by (auto split: prod.splits)

theorem provider_limits_safe_witness:
  "minimum (capped_at \<lparr>pl_limits = [Bybit \<mapsto> 1000, Binance \<mapsto> 200], pl_fallback = 1000\<rparr> 500)
     \<le> limit_for (capped_at \<lparr>pl_limits = [Bybit \<mapsto> 1000, Binance \<mapsto> 200], pl_fallback = 1000\<rparr> 500) Bybit"
proof -
  have "Bybit \<in> dom (pl_limits \<lparr>pl_limits = [Bybit \<mapsto> 1000, Binance \<mapsto> 200], pl_fallback = 1000\<rparr>)"
    by simp
  from provider_limits_safe [OF this] show ?thesis by blast
qed

end
