(* ===== verification/Hub.thy ===== *)
theory Hub
  imports Registry "HOL-Library.Sublist"
begin

text \<open>
  The gateway hub (\<^verbatim>\<open>src/src/gateway.rs\<close>, \<open>GatewayHub\<close>): it numbers every
  published event, routes it to the bounded queues of the clients subscribed to its key, and
  cuts off a client whose queue overruns. Publishing holds \<open>publish_order\<close> for its whole
  body and every route change holds the route mutex, so each operation is one atomic step.

  The bounded queue is tokio's \<open>mpsc\<close> channel. Its state is the type \<open>'ch\<close>, and its two
  operations are the arguments \<open>new_channel\<close> and \<open>try_send\<close>; \<open>rx\<close> relates a channel to what
  its receiving end may turn it into, and \<open>mpsc_fifo\<close> states the documented
  first-in-first-out behaviour where a property needs it. The lag watch of a client
  is the number it holds, and the diagnostics broadcast is the list of the events handed to it.
\<close>

section \<open>State\<close>

datatype 'ch try_send_result = SendOk 'ch | SendFull | SendClosed

record 'ch client_route =
  cr_events :: 'ch
  cr_lagged :: u64
  cr_subscriptions :: "sub_key set"

record 'ch route_state =
  rs_clients :: "client_id \<rightharpoonup> 'ch client_route"
  rs_clients_by_key :: "sub_key \<rightharpoonup> client_id set"

record 'ch hub =
  hub_stream_epoch :: uuid
  hub_next_delivery_sequence :: u64
  hub_client_capacity :: usize
  hub_max_clients :: usize
  hub_routes :: "'ch route_state"
  hub_events :: "market_event list"

datatype publish_error = SequenceExhausted

definition with_client_limit :: "uuid \<Rightarrow> usize \<Rightarrow> usize \<Rightarrow> 'ch hub option" where
  "with_client_limit epoch capacity max_clients =
     (if capacity = 0 \<or> max_clients = 0 then None
      else Some \<lparr>hub_stream_epoch = epoch, hub_next_delivery_sequence = 1,
             hub_client_capacity = capacity, hub_max_clients = max_clients,
             hub_routes = \<lparr>rs_clients = Map.empty, rs_clients_by_key = Map.empty\<rparr>,
             hub_events = []\<rparr>)"

definition receiver_count :: "'ch hub \<Rightarrow> usize" where
  "receiver_count h = card (dom (rs_clients (hub_routes h)))"

section \<open>Routes\<close>

definition remove_key_route :: "sub_key \<Rightarrow> client_id \<Rightarrow> 'ch route_state \<Rightarrow> 'ch route_state" where
  "remove_key_route k c routes =
     (case rs_clients_by_key routes k of
        None \<Rightarrow> routes
      | Some ids \<Rightarrow> routes\<lparr>rs_clients_by_key := (rs_clients_by_key routes)
          (k := (if ids - {c} = {} then None else Some (ids - {c})))\<rparr>)"

definition route_subscriptions :: "'ch route_state \<Rightarrow> client_id \<Rightarrow> sub_key set" where
  "route_subscriptions routes c =
     (case rs_clients routes c of None \<Rightarrow> {} | Some r \<Rightarrow> cr_subscriptions r)"

definition remove_route :: "client_id \<Rightarrow> bool \<Rightarrow> 'ch route_state \<Rightarrow> 'ch route_state" where
  "remove_route c drop_client routes =
     (let subs = route_subscriptions routes c;
          taken = routes\<lparr>rs_clients := (rs_clients routes)
            (c := map_option (\<lambda>r. r\<lparr>cr_subscriptions := {}\<rparr>) (rs_clients routes c))\<rparr>;
          cleared = fold (\<lambda>k. remove_key_route k c) (sorted_list_of_set subs) taken
      in if drop_client then cleared\<lparr>rs_clients := (rs_clients cleared)(c := None)\<rparr> else cleared)"

definition add_key_route :: "client_id \<Rightarrow> sub_key \<Rightarrow> 'ch route_state \<Rightarrow> 'ch route_state" where
  "add_key_route c k routes = routes\<lparr>rs_clients_by_key := (rs_clients_by_key routes)
     (k \<mapsto> insert c (case rs_clients_by_key routes k of None \<Rightarrow> {} | Some ids \<Rightarrow> ids))\<rparr>"

definition try_register_client ::
  "(usize \<Rightarrow> 'ch) \<Rightarrow> 'ch hub \<Rightarrow> client_id \<Rightarrow> 'ch hub \<times> bool" where
  "try_register_client new_channel h c =
     (let routes = hub_routes h
      in if rs_clients routes c = None \<and> card (dom (rs_clients routes)) \<ge> hub_max_clients h
         then (h, False)
         else
           let removed = remove_route c True routes;
               route = \<lparr>cr_events = new_channel (hub_client_capacity h), cr_lagged = 0,
                        cr_subscriptions = {}\<rparr>
           in (h\<lparr>hub_routes := removed\<lparr>rs_clients := (rs_clients removed)(c \<mapsto> route)\<rparr>\<rparr>, True))"

definition update_routes :: "client_id \<Rightarrow> sub_key set \<Rightarrow> 'ch route_state \<Rightarrow> 'ch route_state \<times> bool" where
  "update_routes c subs routes =
     (case rs_clients routes c of
        None \<Rightarrow> (routes, False)
      | Some client \<Rightarrow>
          let current = cr_subscriptions client;
              dropped = fold (\<lambda>k. remove_key_route k c) (sorted_list_of_set (current - subs)) routes;
              added = fold (add_key_route c) (sorted_list_of_set (subs - current)) dropped
          in (added\<lparr>rs_clients := (rs_clients added)
                (c := map_option (\<lambda>r. r\<lparr>cr_subscriptions := subs\<rparr>) (rs_clients added c))\<rparr>, True))"

definition update_client_subscriptions ::
  "'ch hub \<Rightarrow> client_id \<Rightarrow> sub_key set \<Rightarrow> 'ch hub \<times> bool" where
  "update_client_subscriptions h c subs =
     (case update_routes c subs (hub_routes h) of (routes, ok) \<Rightarrow> (h\<lparr>hub_routes := routes\<rparr>, ok))"

definition remove_client :: "'ch hub \<Rightarrow> client_id \<Rightarrow> 'ch hub" where
  "remove_client h c = h\<lparr>hub_routes := remove_route c True (hub_routes h)\<rparr>"

section \<open>Publishing\<close>

fun send_to_clients ::
  "('ch \<Rightarrow> market_event \<Rightarrow> 'ch try_send_result) \<Rightarrow> market_event \<Rightarrow> client_id list
     \<Rightarrow> (client_id \<rightharpoonup> 'ch client_route) \<times> client_id list \<times> client_id list
     \<Rightarrow> (client_id \<rightharpoonup> 'ch client_route) \<times> client_id list \<times> client_id list" where
  "send_to_clients try_send e [] st = st"
| "send_to_clients try_send e (c # cs) (clients, lagged, dead) =
     (case clients c of
        None \<Rightarrow> send_to_clients try_send e cs (clients, lagged, dead)
      | Some client \<Rightarrow>
          (case try_send (cr_events client) e of
             SendOk ch \<Rightarrow>
               send_to_clients try_send e cs (clients(c \<mapsto> client\<lparr>cr_events := ch\<rparr>), lagged, dead)
           | SendFull \<Rightarrow>
               send_to_clients try_send e cs
                 (clients(c \<mapsto> client\<lparr>cr_lagged := saturating_add (cr_lagged client) 1\<rparr>),
                  lagged @ [c], dead)
           | SendClosed \<Rightarrow> send_to_clients try_send e cs (clients, lagged, dead @ [c])))"

definition route_event ::
  "('ch \<Rightarrow> market_event \<Rightarrow> 'ch try_send_result) \<Rightarrow> market_event \<Rightarrow> 'ch route_state \<Rightarrow> 'ch route_state" where
  "route_event try_send e routes =
     (let ids = (case rs_clients_by_key routes (subscription_key e) of None \<Rightarrow> {} | Some ids \<Rightarrow> ids);
          (clients, lagged, dead) =
            send_to_clients try_send e (sorted_list_of_set ids) (rs_clients routes, [], []);
          sent = routes\<lparr>rs_clients := clients\<rparr>;
          unlagged = fold (\<lambda>c. remove_route c False) lagged sent
      in fold (\<lambda>c. remove_route c True) dead unlagged)"

definition publish ::
  "('ch \<Rightarrow> market_event \<Rightarrow> 'ch try_send_result) \<Rightarrow> 'ch hub \<Rightarrow> provider_event
     \<Rightarrow> 'ch hub \<times> (publish_error + market_event)" where
  "publish try_send h pe =
     (case checked_add (hub_next_delivery_sequence h) 1 of
        None \<Rightarrow> (h, Inl SequenceExhausted)
      | Some next \<Rightarrow>
          let e = into_market_event pe (hub_stream_epoch h) (hub_next_delivery_sequence h)
          in (h\<lparr>hub_next_delivery_sequence := next,
                hub_routes := route_event try_send e (hub_routes h),
                hub_events := hub_events h @ [e]\<rparr>, Inr e))"

section \<open>Specification\<close>

definition subscribers :: "'ch route_state \<Rightarrow> sub_key \<Rightarrow> client_id set" where
  "subscribers routes k = {c. k \<in> route_subscriptions routes c}"

definition routes_inv :: "'ch route_state \<Rightarrow> bool" where
  "routes_inv routes \<longleftrightarrow>
     finite (dom (rs_clients routes)) \<and>
     (\<forall>c. finite (route_subscriptions routes c)) \<and>
     (\<forall>k. rs_clients_by_key routes k =
       (if subscribers routes k = {} then None else Some (subscribers routes k)))"

definition mpsc_fifo ::
  "(usize \<Rightarrow> 'ch) \<Rightarrow> ('ch \<Rightarrow> market_event \<Rightarrow> 'ch try_send_result) \<Rightarrow> ('ch \<Rightarrow> 'ch \<Rightarrow> bool)
     \<Rightarrow> ('ch \<Rightarrow> market_event list) \<Rightarrow> bool" where
  "mpsc_fifo new_channel try_send rx queued \<longleftrightarrow>
     (\<forall>n. queued (new_channel n) = []) \<and>
     (\<forall>ch e ch'. try_send ch e = SendOk ch' \<longrightarrow> queued ch' = queued ch @ [e]) \<and>
     (\<forall>ch ch'. rx ch ch' \<longrightarrow> (\<exists>n. queued ch' = drop n (queued ch)))"

text \<open>What one publication does to one client's route.\<close>

definition delivered ::
  "('ch \<Rightarrow> market_event \<Rightarrow> 'ch try_send_result) \<Rightarrow> market_event \<Rightarrow> 'ch client_route
     \<Rightarrow> 'ch client_route option" where
  "delivered try_send e r =
     (if subscription_key e \<notin> cr_subscriptions r then Some r
      else case try_send (cr_events r) e of
        SendOk ch \<Rightarrow> Some (r\<lparr>cr_events := ch\<rparr>)
      | SendFull \<Rightarrow> Some (r\<lparr>cr_lagged := saturating_add (cr_lagged r) 1, cr_subscriptions := {}\<rparr>)
      | SendClosed \<Rightarrow> None)"

section \<open>Lemmas\<close>

text \<open>
  The index by key is a function of the client table: a well-formed route state is
  \<open>indexed clients\<close>, and every operation is an update of the table followed by reindexing.
\<close>

definition key_index :: "(client_id \<rightharpoonup> 'ch client_route) \<Rightarrow> sub_key \<Rightarrow> client_id set" where
  "key_index clients k = {c. \<exists>r. clients c = Some r \<and> k \<in> cr_subscriptions r}"

definition indexed :: "(client_id \<rightharpoonup> 'ch client_route) \<Rightarrow> 'ch route_state" where
  "indexed clients = \<lparr>rs_clients = clients, rs_clients_by_key =
     (\<lambda>k. if key_index clients k = {} then None else Some (key_index clients k))\<rparr>"

definition finite_clients :: "(client_id \<rightharpoonup> 'ch client_route) \<Rightarrow> bool" where
  "finite_clients clients \<longleftrightarrow> finite (dom clients) \<and>
     (\<forall>c r. clients c = Some r \<longrightarrow> finite (cr_subscriptions r))"

lemma subscribers_key_index: "subscribers routes k = key_index (rs_clients routes) k"
  by (auto simp: subscribers_def key_index_def route_subscriptions_def split: option.splits)

lemma indexed_simps [simp]:
  "rs_clients (indexed clients) = clients"
  "rs_clients_by_key (indexed clients) k =
     (if key_index clients k = {} then None else Some (key_index clients k))"
  by (simp_all add: indexed_def)

lemma route_state_eqI:
  "rs_clients r = rs_clients r' \<Longrightarrow> (\<And>k. rs_clients_by_key r k = rs_clients_by_key r' k) \<Longrightarrow>
     r = (r' :: 'ch route_state)"
  by (cases r; cases r') (auto simp: fun_eq_iff)

lemma routes_inv_indexed:
  "routes_inv routes \<longleftrightarrow> finite_clients (rs_clients routes) \<and> routes = indexed (rs_clients routes)"
proof -
  have "(\<forall>c. finite (route_subscriptions routes c)) \<longleftrightarrow>
      (\<forall>c r. rs_clients routes c = Some r \<longrightarrow> finite (cr_subscriptions r))"
    by (auto simp: route_subscriptions_def split: option.splits)
  moreover have "(\<forall>k. rs_clients_by_key routes k = rs_clients_by_key (indexed (rs_clients routes)) k)
      \<longleftrightarrow> routes = indexed (rs_clients routes)"
    by (metis indexed_simps(1) route_state_eqI)
  ultimately show ?thesis
    unfolding routes_inv_def finite_clients_def subscribers_key_index indexed_simps by blast
qed

lemma routes_inv_indexedI: "finite_clients clients \<Longrightarrow> routes_inv (indexed clients)"
  by (simp add: routes_inv_indexed)

lemma finite_key_index: "finite_clients clients \<Longrightarrow> finite (key_index clients k)"
  by (rule finite_subset [of _ "dom clients"]) (auto simp: key_index_def finite_clients_def)

lemma finite_clients_upd:
  "finite_clients clients \<Longrightarrow> (\<And>r. v = Some r \<Longrightarrow> finite (cr_subscriptions r)) \<Longrightarrow>
     finite_clients (clients(c := v))"
  by (cases v) (auto simp: finite_clients_def split: if_splits)

lemma key_index_upd:
  "key_index (clients(c := v)) k =
     (case v of None \<Rightarrow> key_index clients k - {c}
      | Some r \<Rightarrow> if k \<in> cr_subscriptions r then insert c (key_index clients k) else key_index clients k - {c})"
  by (auto simp: key_index_def split: option.splits if_splits)

lemma key_index_mem: "c \<in> key_index clients k \<longleftrightarrow> (\<exists>r. clients c = Some r \<and> k \<in> cr_subscriptions r)"
  by (simp add: key_index_def)

lemma fold_remove_key_route:
  "rs_clients (fold (\<lambda>k. remove_key_route k c) ks routes) = rs_clients routes"
  "rs_clients_by_key (fold (\<lambda>k. remove_key_route k c) ks routes) k =
     (case rs_clients_by_key routes k of None \<Rightarrow> None
      | Some ids \<Rightarrow> if k \<in> set ks then (if ids - {c} = {} then None else Some (ids - {c})) else Some ids)"
proof (induction ks arbitrary: routes)
  case Nil
  {
    case 1
    then show ?case by simp
  next
    case 2
    then show ?case by (simp split: option.splits)
  }
next
  case (Cons j ks)
  {
    case 1
    then show ?case using Cons.IH by (simp add: remove_key_route_def split: option.splits)
  next
    case 2
    then show ?case
      using Cons.IH by (auto simp: remove_key_route_def split: option.splits if_splits)
  }
qed

lemma fold_add_key_route:
  "rs_clients (fold (add_key_route c) ks routes) = rs_clients routes"
  "rs_clients_by_key (fold (add_key_route c) ks routes) k =
     (if k \<in> set ks then Some (insert c (case rs_clients_by_key routes k of None \<Rightarrow> {} | Some ids \<Rightarrow> ids))
      else rs_clients_by_key routes k)"
proof (induction ks arbitrary: routes)
  case Nil
  {
    case 1
    then show ?case by simp
  next
    case 2
    then show ?case by simp
  }
next
  case (Cons j ks)
  {
    case 1
    then show ?case using Cons.IH by (simp add: add_key_route_def)
  next
    case 2
    then show ?case using Cons.IH by (auto simp: add_key_route_def)
  }
qed

lemma remove_route_indexed:
  assumes "finite_clients clients"
  shows "remove_route c drop_client (indexed clients) = indexed (clients(c :=
    (if drop_client then None else map_option (\<lambda>r. r\<lparr>cr_subscriptions := {}\<rparr>) (clients c))))"
proof (cases "clients c")
  case None
  then have "c \<notin> key_index clients k" for k by (simp add: key_index_mem)
  then show ?thesis
    by (intro route_state_eqI)
      (auto simp: remove_route_def Let_def route_subscriptions_def None key_index_upd fun_upd_idem)
next
  case (Some r)
  have fin: "finite (cr_subscriptions r)" using assms Some by (auto simp: finite_clients_def)
  have sub: "k \<in> cr_subscriptions r \<longleftrightarrow> c \<in> key_index clients k" for k
    by (simp add: key_index_mem Some)
  show ?thesis
    by (intro route_state_eqI)
      (auto simp: remove_route_def Let_def route_subscriptions_def Some fold_remove_key_route fin
        key_index_upd sub)
qed

lemma update_routes_indexed:
  assumes "finite_clients clients" and "finite subs"
  shows "update_routes c subs (indexed clients) =
    (case clients c of None \<Rightarrow> (indexed clients, False)
     | Some r \<Rightarrow> (indexed (clients(c \<mapsto> r\<lparr>cr_subscriptions := subs\<rparr>)), True))"
proof (cases "clients c")
  case (Some r)
  have fin: "finite (cr_subscriptions r)" using assms Some by (auto simp: finite_clients_def)
  have sub: "k \<in> cr_subscriptions r \<longleftrightarrow> c \<in> key_index clients k" for k
    by (simp add: key_index_mem Some)
  show ?thesis
    unfolding update_routes_def
    using fin assms(2)
    by (auto simp: Let_def Some fold_remove_key_route fold_add_key_route key_index_upd sub
        intro!: route_state_eqI)
qed (simp add: update_routes_def)

text \<open>One client's outcome of a send, before routes are removed.\<close>

definition offered ::
  "('ch \<Rightarrow> market_event \<Rightarrow> 'ch try_send_result) \<Rightarrow> market_event \<Rightarrow> 'ch client_route \<Rightarrow> 'ch client_route" where
  "offered try_send e r = (case try_send (cr_events r) e of
     SendOk ch \<Rightarrow> r\<lparr>cr_events := ch\<rparr>
   | SendFull \<Rightarrow> r\<lparr>cr_lagged := saturating_add (cr_lagged r) 1\<rparr>
   | SendClosed \<Rightarrow> r)"

definition send_outcome ::
  "('ch \<Rightarrow> market_event \<Rightarrow> 'ch try_send_result) \<Rightarrow> market_event \<Rightarrow> 'ch client_route option
     \<Rightarrow> 'ch try_send_result option" where
  "send_outcome try_send e v = map_option (\<lambda>r. try_send (cr_events r) e) v"

lemma offered_subscriptions [simp]: "cr_subscriptions (offered try_send e r) = cr_subscriptions r"
  by (simp add: offered_def split: try_send_result.splits)

lemma send_to_clients_spec:
  "distinct cs \<Longrightarrow> send_to_clients try_send e cs (clients, lagged, dead) =
     ((\<lambda>c. if c \<in> set cs then map_option (offered try_send e) (clients c) else clients c),
      lagged @ filter (\<lambda>c. send_outcome try_send e (clients c) = Some SendFull) cs,
      dead @ filter (\<lambda>c. send_outcome try_send e (clients c) = Some SendClosed) cs)"
proof (induction cs arbitrary: clients lagged dead)
  case (Cons c cs)
  show ?case
  proof (cases "clients c")
    case None
    then show ?thesis using Cons by (auto simp: send_outcome_def fun_eq_iff)
  next
    case (Some r)
    then show ?thesis
      using Cons.prems
      by (cases "try_send (cr_events r) e")
        (auto simp: Cons.IH send_outcome_def offered_def fun_eq_iff intro!: filter_cong)
  qed
qed (simp add: fun_eq_iff)

lemma fold_remove_route_indexed:
  assumes "finite_clients clients"
  shows "fold (\<lambda>c. remove_route c drop_client) cs (indexed clients) =
    indexed (\<lambda>c. if c \<in> set cs
      then (if drop_client then None else map_option (\<lambda>r. r\<lparr>cr_subscriptions := {}\<rparr>) (clients c))
      else clients c)"
  using assms
proof (induction cs arbitrary: clients)
  case (Cons c cs)
  have "finite_clients (clients(c := (if drop_client then None
      else map_option (\<lambda>r. r\<lparr>cr_subscriptions := {}\<rparr>) (clients c))))" (is "finite_clients ?cl")
    using Cons.prems by (intro finite_clients_upd) (auto split: if_splits)
  note IH = Cons.IH [OF this]
  have "(\<lambda>d. if d \<in> set cs then (if drop_client then None
        else map_option (\<lambda>r. r\<lparr>cr_subscriptions := {}\<rparr>) (?cl d)) else ?cl d) =
      (\<lambda>d. if d \<in> set (c # cs) then (if drop_client then None
        else map_option (\<lambda>r. r\<lparr>cr_subscriptions := {}\<rparr>) (clients d)) else clients d)"
    by (auto simp: fun_eq_iff option.map_comp comp_def)
  with IH show ?case by (simp only: fold_simps remove_route_indexed [OF Cons.prems])
qed simp

lemma finite_clients_map:
  assumes "finite_clients clients"
    and "\<And>c r r'. clients c = Some r \<Longrightarrow> f c r = Some r' \<Longrightarrow> finite (cr_subscriptions r')"
  shows "finite_clients (\<lambda>c. case clients c of None \<Rightarrow> None | Some r \<Rightarrow> f c r)"
proof -
  have "dom (\<lambda>c. case clients c of None \<Rightarrow> None | Some r \<Rightarrow> f c r) \<subseteq> dom clients"
    by (auto split: option.splits)
  then show ?thesis
    using assms finite_subset by (fastforce simp: finite_clients_def split: option.splits)
qed

lemma key_index_offered:
  "key_index (\<lambda>c. if c \<in> A then map_option (offered try_send e) (clients c) else clients c) =
     key_index clients"
  by (auto simp: key_index_def fun_eq_iff split: if_splits)

lemma route_event_indexed:
  assumes "finite_clients clients"
  shows "route_event try_send e (indexed clients) =
    indexed (\<lambda>c. case clients c of None \<Rightarrow> None | Some r \<Rightarrow> delivered try_send e r)"
proof -
  let ?A = "key_index clients (subscription_key e)"
  let ?off = "\<lambda>c. if c \<in> ?A then map_option (offered try_send e) (clients c) else clients c"
  let ?lag = "filter (\<lambda>c. send_outcome try_send e (clients c) = Some SendFull) (sorted_list_of_set ?A)"
  let ?dead = "filter (\<lambda>c. send_outcome try_send e (clients c) = Some SendClosed) (sorted_list_of_set ?A)"
  have fin: "finite ?A" by (rule finite_key_index [OF assms])
  have ids: "(case rs_clients_by_key (indexed clients) (subscription_key e) of None \<Rightarrow> {} | Some ids \<Rightarrow> ids) = ?A"
    by simp
  have send: "send_to_clients try_send e (sorted_list_of_set ?A) (clients, [], []) = (?off, ?lag, ?dead)"
    using fin by (simp add: send_to_clients_spec)
  have sent: "(indexed clients)\<lparr>rs_clients := ?off\<rparr> = indexed ?off"
    by (intro route_state_eqI) (simp_all add: key_index_offered)
  have finoff: "finite_clients ?off"
    using assms finite_subset [of "dom ?off" "dom clients"]
    by (auto simp: finite_clients_def split: if_splits)
  let ?unl = "\<lambda>c. if c \<in> set ?lag then map_option (\<lambda>r. r\<lparr>cr_subscriptions := {}\<rparr>) (?off c) else ?off c"
  have finunl: "finite_clients ?unl"
    using finoff finite_subset [of "dom ?unl" "dom ?off"]
    by (auto simp: finite_clients_def split: if_splits)
  have "route_event try_send e (indexed clients) =
      fold (\<lambda>c. remove_route c True) ?dead (fold (\<lambda>c. remove_route c False) ?lag (indexed ?off))"
    by (simp add: route_event_def Let_def ids send sent del: indexed_simps(2))
  also have "\<dots> = indexed (\<lambda>c. if c \<in> set ?dead then None else ?unl c)"
    by (simp only: fold_remove_route_indexed [OF finoff] fold_remove_route_indexed [OF finunl]
        simp_thms if_True if_False)
  also have "(\<lambda>c. if c \<in> set ?dead then None else ?unl c) =
      (\<lambda>c. case clients c of None \<Rightarrow> None | Some r \<Rightarrow> delivered try_send e r)"
  proof
    fix c
    show "(if c \<in> set ?dead then None else ?unl c) =
        (case clients c of None \<Rightarrow> None | Some r \<Rightarrow> delivered try_send e r)"
    proof (cases "clients c")
      case (Some r)
      then show ?thesis
        using fin by (cases "try_send (cr_events r) e")
          (auto simp: send_outcome_def delivered_def offered_def key_index_mem)
    qed (simp add: send_outcome_def)
  qed
  finally show ?thesis .
qed

section \<open>The hub as a transition system\<close>

definition hub_inv :: "'ch hub \<Rightarrow> bool" where
  "hub_inv h \<longleftrightarrow> routes_inv (hub_routes h) \<and> receiver_count h \<le> hub_max_clients h"

lemma hub_inv_indexed:
  assumes "hub_inv h"
  obtains clients where "hub_routes h = indexed clients" "finite_clients clients"
    "card (dom clients) \<le> hub_max_clients h"
  using assms by (auto simp: hub_inv_def routes_inv_indexed receiver_count_def)

lemma hub_invI:
  "hub_routes h = indexed clients \<Longrightarrow> finite_clients clients \<Longrightarrow>
     card (dom clients) \<le> hub_max_clients h \<Longrightarrow> hub_inv h"
  by (simp add: hub_inv_def routes_inv_indexedI receiver_count_def)

lemma card_dom_sub:
  "finite_clients clients \<Longrightarrow> dom clients' \<subseteq> dom clients \<Longrightarrow> card (dom clients) \<le> n \<Longrightarrow>
     card (dom clients') \<le> n"
  by (meson card_mono finite_clients_def order_trans)

lemma with_client_limit_inv: "with_client_limit epoch capacity m = Some h \<Longrightarrow> hub_inv h"
  by (auto simp: with_client_limit_def finite_clients_def indexed_def key_index_def fun_eq_iff
      intro!: hub_invI [where clients = Map.empty] split: if_splits)

lemma try_register_client_eq:
  assumes "hub_routes h = indexed clients" and "finite_clients clients"
  shows "try_register_client new_channel h c =
    (if clients c = None \<and> card (dom clients) \<ge> hub_max_clients h then (h, False)
     else (h\<lparr>hub_routes := indexed (clients(c \<mapsto> \<lparr>cr_events = new_channel (hub_client_capacity h),
             cr_lagged = 0, cr_subscriptions = {}\<rparr>))\<rparr>, True))"
proof -
  let ?r = "\<lparr>cr_events = new_channel (hub_client_capacity h), cr_lagged = 0, cr_subscriptions = {}\<rparr>"
  have "(indexed (clients(c := None)))\<lparr>rs_clients := clients(c \<mapsto> ?r)\<rparr> = indexed (clients(c \<mapsto> ?r))"
    by (intro route_state_eqI) (simp_all add: key_index_upd)
  then show ?thesis
    using assms by (simp add: try_register_client_def Let_def remove_route_indexed)
qed

lemma try_register_client_inv:
  assumes "hub_inv h"
  shows "hub_inv (fst (try_register_client new_channel h c))"
proof -
  from assms obtain cl where cl: "hub_routes h = indexed cl" "finite_clients cl"
    "card (dom cl) \<le> hub_max_clients h" by (rule hub_inv_indexed)
  let ?r = "\<lparr>cr_events = new_channel (hub_client_capacity h), cr_lagged = 0, cr_subscriptions = {}\<rparr>"
  show ?thesis
  proof (cases "cl c = None \<and> card (dom cl) \<ge> hub_max_clients h")
    case True
    then show ?thesis using assms by (simp add: try_register_client_eq [OF cl(1,2)])
  next
    case False
    then have "card (insert c (dom cl)) \<le> hub_max_clients h"
      using cl by (cases "c \<in> dom cl") (auto simp: insert_absorb finite_clients_def card_insert_disjoint)
    moreover have "finite_clients (cl(c \<mapsto> ?r))" using cl(2) by (intro finite_clients_upd) auto
    ultimately have "hub_inv (h\<lparr>hub_routes := indexed (cl(c \<mapsto> ?r))\<rparr>)"
      by (intro hub_invI [where clients = "cl(c \<mapsto> ?r)"]) simp_all
    with False show ?thesis by (simp only: try_register_client_eq [OF cl(1,2)] if_False fst_conv)
  qed
qed

lemma update_client_subscriptions_eq:
  assumes "hub_routes h = indexed clients" and "finite_clients clients" and "finite subs"
  shows "update_client_subscriptions h c subs =
    (case clients c of None \<Rightarrow> (h, False)
     | Some r \<Rightarrow> (h\<lparr>hub_routes := indexed (clients(c \<mapsto> r\<lparr>cr_subscriptions := subs\<rparr>))\<rparr>, True))"
  using assms by (cases h) (auto simp: update_client_subscriptions_def update_routes_indexed split: option.splits)

lemma update_client_subscriptions_inv:
  assumes "hub_inv h" and "finite subs"
  shows "hub_inv (fst (update_client_subscriptions h c subs))"
proof -
  from assms(1) obtain cl where cl: "hub_routes h = indexed cl" "finite_clients cl"
    "card (dom cl) \<le> hub_max_clients h" by (rule hub_inv_indexed)
  show ?thesis
  proof (cases "cl c")
    case None
    then show ?thesis using assms(1) by (simp add: update_client_subscriptions_eq [OF cl(1,2) assms(2)])
  next
    case (Some r)
    let ?cl = "cl(c \<mapsto> r\<lparr>cr_subscriptions := subs\<rparr>)"
    have "finite_clients ?cl" using cl(2) assms(2) by (intro finite_clients_upd) auto
    moreover have "insert c (dom cl) = dom cl" using Some by auto
    ultimately have "hub_inv (h\<lparr>hub_routes := indexed ?cl\<rparr>)"
      using cl(3) by (intro hub_invI [where clients = ?cl]) simp_all
    then show ?thesis by (simp add: update_client_subscriptions_eq [OF cl(1,2) assms(2)] Some)
  qed
qed

lemma remove_client_eq:
  assumes "hub_routes h = indexed clients" and "finite_clients clients"
  shows "remove_client h c = h\<lparr>hub_routes := indexed (clients(c := None))\<rparr>"
  using assms by (simp add: remove_client_def remove_route_indexed)

lemma remove_client_inv:
  assumes "hub_inv h"
  shows "hub_inv (remove_client h c)"
proof -
  from assms obtain cl where cl: "hub_routes h = indexed cl" "finite_clients cl"
    "card (dom cl) \<le> hub_max_clients h" by (rule hub_inv_indexed)
  have "finite_clients (cl(c := None))" by (rule finite_clients_upd [OF cl(2)]) simp
  moreover have "card (dom (cl(c := None))) \<le> hub_max_clients h"
    by (rule card_dom_sub [OF cl(2) _ cl(3)]) auto
  ultimately show ?thesis
    by (intro hub_invI [where clients = "cl(c := None)"]) (simp_all add: remove_client_eq [OF cl(1,2)])
qed

definition deliver_all ::
  "('ch \<Rightarrow> market_event \<Rightarrow> 'ch try_send_result) \<Rightarrow> market_event
     \<Rightarrow> (client_id \<rightharpoonup> 'ch client_route) \<Rightarrow> client_id \<rightharpoonup> 'ch client_route" where
  "deliver_all try_send e clients c =
     (case clients c of None \<Rightarrow> None | Some r \<Rightarrow> delivered try_send e r)"

lemma delivered_subscriptions: "delivered try_send e r = Some r' \<Longrightarrow> cr_subscriptions r' \<subseteq> cr_subscriptions r"
  by (auto simp: delivered_def split: if_splits try_send_result.splits)

lemma finite_deliver_all: "finite_clients clients \<Longrightarrow> finite_clients (deliver_all try_send e clients)"
  unfolding deliver_all_def [abs_def]
  by (rule finite_clients_map, assumption)
    (metis delivered_subscriptions finite_clients_def finite_subset)

lemma publish_eq:
  assumes "hub_routes h = indexed clients" and "finite_clients clients"
  shows "publish try_send h pe =
    (if hub_next_delivery_sequence h = - 1 then (h, Inl SequenceExhausted)
     else let e = into_market_event pe (hub_stream_epoch h) (hub_next_delivery_sequence h) in
       (h\<lparr>hub_next_delivery_sequence := hub_next_delivery_sequence h + 1,
          hub_routes := indexed (deliver_all try_send e clients),
          hub_events := hub_events h @ [e]\<rparr>, Inr e))"
proof -
  let ?n = "hub_next_delivery_sequence h"
  have "checked_add ?n 1 = (if ?n = - 1 then None else Some (?n + 1))"
    using u64_succ_fits [of ?n] by (simp add: checked_add_def)
  then show ?thesis
    using assms by (simp add: publish_def route_event_indexed deliver_all_def [abs_def] Let_def)
qed

definition receive :: "'ch hub \<Rightarrow> client_id \<Rightarrow> 'ch \<Rightarrow> 'ch hub" where
  "receive h c ch = h\<lparr>hub_routes := (hub_routes h)\<lparr>rs_clients := (rs_clients (hub_routes h))
     (c := map_option (\<lambda>r. r\<lparr>cr_events := ch\<rparr>) (rs_clients (hub_routes h) c))\<rparr>\<rparr>"

inductive hub_step ::
  "(usize \<Rightarrow> 'ch) \<Rightarrow> ('ch \<Rightarrow> market_event \<Rightarrow> 'ch try_send_result) \<Rightarrow> ('ch \<Rightarrow> 'ch \<Rightarrow> bool)
     \<Rightarrow> 'ch hub \<Rightarrow> 'ch hub \<Rightarrow> bool"
  for new_channel try_send rx where
  step_register: "hub_step new_channel try_send rx h (fst (try_register_client new_channel h c))"
| step_update: "finite subs \<Longrightarrow>
    hub_step new_channel try_send rx h (fst (update_client_subscriptions h c subs))"
| step_drop: "hub_step new_channel try_send rx h (remove_client h c)"
| step_publish: "hub_step new_channel try_send rx h (fst (publish try_send h pe))"
| step_receive: "rs_clients (hub_routes h) c = Some r \<Longrightarrow> rx (cr_events r) ch \<Longrightarrow>
    hub_step new_channel try_send rx h (receive h c ch)"

definition hub_start :: "uuid \<Rightarrow> usize \<Rightarrow> usize \<Rightarrow> 'ch hub \<Rightarrow> bool" where
  "hub_start epoch capacity max_clients h \<longleftrightarrow> with_client_limit epoch capacity max_clients = Some h"

text \<open>
  The log of published events is numbered from 1 without a gap, the next number follows it, and
  every number still fits a \<open>u64\<close>.
\<close>

definition log_inv :: "'ch hub \<Rightarrow> bool" where
  "log_inv h \<longleftrightarrow>
     unat (hub_next_delivery_sequence h) = Suc (length (hub_events h)) \<and>
     (\<forall>i < length (hub_events h). unat (me_delivery_sequence (hub_events h ! i)) = Suc i \<and>
       me_stream_epoch (hub_events h ! i) = hub_stream_epoch h)"

definition queues_inv :: "('ch \<Rightarrow> market_event list) \<Rightarrow> 'ch hub \<Rightarrow> bool" where
  "queues_inv queued h \<longleftrightarrow>
     (\<forall>c r. rs_clients (hub_routes h) c = Some r \<longrightarrow> subseq (queued (cr_events r)) (hub_events h))"

lemma publish_inv:
  assumes "hub_inv h"
  shows "hub_inv (fst (publish try_send h pe))"
proof -
  from assms obtain cl where cl: "hub_routes h = indexed cl" "finite_clients cl"
    "card (dom cl) \<le> hub_max_clients h" by (rule hub_inv_indexed)
  let ?e = "into_market_event pe (hub_stream_epoch h) (hub_next_delivery_sequence h)"
  have "card (dom (deliver_all try_send ?e cl)) \<le> hub_max_clients h"
    by (rule card_dom_sub [OF cl(2) _ cl(3)]) (auto simp: deliver_all_def split: option.splits)
  then show ?thesis
    using assms finite_deliver_all [OF cl(2)]
    by (auto simp: publish_eq [OF cl(1,2)] Let_def intro: hub_invI [where clients = "deliver_all try_send ?e cl"])
qed

lemma receive_eq:
  assumes "hub_routes h = indexed clients" and "clients c = Some r"
  shows "receive h c ch = h\<lparr>hub_routes := indexed (clients(c \<mapsto> r\<lparr>cr_events := ch\<rparr>))\<rparr>"
proof -
  have "key_index (clients(c \<mapsto> r\<lparr>cr_events := ch\<rparr>)) k = key_index clients k" for k
    using assms(2) by (auto simp: key_index_def)
  then have "(indexed clients)\<lparr>rs_clients := clients(c \<mapsto> r\<lparr>cr_events := ch\<rparr>)\<rparr> =
      indexed (clients(c \<mapsto> r\<lparr>cr_events := ch\<rparr>))"
    by (intro route_state_eqI) simp_all
  then show ?thesis using assms by (simp add: receive_def)
qed

lemma receive_inv:
  assumes "hub_inv h" and "rs_clients (hub_routes h) c = Some r"
  shows "hub_inv (receive h c ch)"
proof -
  from assms(1) obtain cl where cl: "hub_routes h = indexed cl" "finite_clients cl"
    "card (dom cl) \<le> hub_max_clients h" by (rule hub_inv_indexed)
  have c: "cl c = Some r" using assms(2) cl(1) by simp
  have "finite_clients (cl(c \<mapsto> r\<lparr>cr_events := ch\<rparr>))"
    using cl(2) c by (intro finite_clients_upd) (auto simp: finite_clients_def)
  moreover have "insert c (dom cl) = dom cl" using c by auto
  ultimately show ?thesis
    using cl(3) by (intro hub_invI [where clients = "cl(c \<mapsto> r\<lparr>cr_events := ch\<rparr>)"])
      (simp_all add: receive_eq [OF cl(1) c])
qed

lemma hub_frame:
  "hub_max_clients (fst (try_register_client new_channel h c)) = hub_max_clients h"
  "hub_max_clients (fst (update_client_subscriptions h c subs)) = hub_max_clients h"
  "hub_max_clients (remove_client h c) = hub_max_clients h"
  "hub_max_clients (fst (publish try_send h pe)) = hub_max_clients h"
  "hub_max_clients (receive h c ch) = hub_max_clients h"
  by (simp_all add: try_register_client_def update_client_subscriptions_def remove_client_def
      publish_def receive_def Let_def split: prod.splits option.splits)

lemma log_frame:
  "log_inv (fst (try_register_client new_channel h c)) = log_inv h"
  "log_inv (fst (update_client_subscriptions h c subs)) = log_inv h"
  "log_inv (remove_client h c) = log_inv h"
  "log_inv (receive h c ch) = log_inv h"
  by (simp_all add: log_inv_def try_register_client_def update_client_subscriptions_def
      remove_client_def receive_def Let_def split: prod.splits)

lemma publish_log:
  assumes "log_inv h"
  shows "log_inv (fst (publish try_send h pe))"
proof -
  let ?n = "hub_next_delivery_sequence h"
  have "unat (?n + 1) = Suc (unat ?n)" if "?n \<noteq> - 1"
    using u64_succ_fits [of ?n] that by (simp add: unat_add_no_overflow)
  then show ?thesis
    using assms u64_succ_fits [of ?n]
    by (auto simp: log_inv_def publish_def Let_def checked_add_def nth_append less_Suc_eq
        into_market_event_def)
qed

lemmas hub_step_facts = try_register_client_inv update_client_subscriptions_inv remove_client_inv
  publish_inv receive_inv hub_frame log_frame publish_log

interpretation hs: invariant_system "hub_start epoch capacity m" "hub_step new_channel try_send rx"
  "\<lambda>h. hub_inv h \<and> log_inv h \<and> hub_max_clients h = m"
proof
  show "hub_inv h \<and> log_inv h \<and> hub_max_clients h = m" if "hub_start epoch capacity m h" for h
    using that with_client_limit_inv [of epoch capacity m h]
    by (auto simp: hub_start_def log_inv_def with_client_limit_def split: if_splits)
  show "hub_inv t \<and> log_inv t \<and> hub_max_clients t = m"
    if "hub_inv h \<and> log_inv h \<and> hub_max_clients h = m" "hub_step new_channel try_send rx h t" for h t
    using that(2,1) by (cases rule: hub_step.cases) (auto simp: hub_step_facts)
qed

lemma subseq_snoc_right: "subseq xs ys \<Longrightarrow> subseq xs (ys @ zs)"
  using list_emb_append2 [of "(=)" xs ys "[]"] by (metis list_emb_append_mono append_Nil2 list_emb_Nil)

lemma subseq_drop_left: "subseq xs ys \<Longrightarrow> subseq (drop n xs) ys"
  by (meson list_emb_suffix subseq_order.order_trans suffix_drop subseq_order.order_refl)

lemma sorted_wrt_subseq: "subseq xs ys \<Longrightarrow> sorted_wrt P ys \<Longrightarrow> sorted_wrt P xs"
  by (induction rule: list_emb.induct) (auto dest: list_emb_set)

lemma queues_inv_upd:
  assumes "queues_inv queued h" and "hub_routes h = indexed cl"
    and "\<And>r. v = Some r \<Longrightarrow> subseq (queued (cr_events r)) (hub_events h)"
  shows "queues_inv queued (h\<lparr>hub_routes := indexed (cl(c := v))\<rparr>)"
  using assms by (auto simp: queues_inv_def)

lemma queues_publish:
  assumes fifo: "mpsc_fifo new_channel try_send rx queued"
    and h: "hub_routes h = indexed cl" "finite_clients cl" and q: "queues_inv queued h"
  shows "queues_inv queued (fst (publish try_send h pe))"
proof -
  let ?e = "into_market_event pe (hub_stream_epoch h) (hub_next_delivery_sequence h)"
  have "subseq (queued (cr_events r')) (hub_events h @ [?e])"
    if "cl c = Some r" "delivered try_send ?e r = Some r'" for c r r'
  proof -
    have "subseq (queued (cr_events r)) (hub_events h)" using q h that(1) by (auto simp: queues_inv_def)
    moreover have "queued (cr_events r') = queued (cr_events r) \<or>
        queued (cr_events r') = queued (cr_events r) @ [?e]"
      using that(2) fifo
      by (auto simp: delivered_def mpsc_fifo_def split: if_splits try_send_result.splits)
    ultimately show ?thesis by (metis subseq_snoc_right list_emb_append_mono subseq_order.order_refl)
  qed
  then show ?thesis
    using q by (auto simp: publish_eq [OF h] Let_def queues_inv_def deliver_all_def split: option.splits)
qed

lemma queues_step:
  assumes fifo: "mpsc_fifo new_channel try_send rx queued"
    and "hub_step new_channel try_send rx h t" and "hub_inv h" and q: "queues_inv queued h"
  shows "queues_inv queued t"
proof -
  from assms(3) obtain cl where cl: "hub_routes h = indexed cl" "finite_clients cl"
    by (rule hub_inv_indexed)
  note upd = queues_inv_upd [OF q cl(1)]
  from assms(2) show ?thesis
  proof cases
    case (step_register c)
    have "queued (new_channel n) = []" for n using fifo by (simp add: mpsc_fifo_def)
    then show ?thesis
      using q by (auto simp: step_register try_register_client_eq [OF cl] intro!: upd)
  next
    case (step_update subs c)
    have "subseq (queued (cr_events r)) (hub_events h)" if "cl c = Some r" for r
      using q cl that by (auto simp: queues_inv_def)
    then show ?thesis
      using q step_update by (auto simp: update_client_subscriptions_eq [OF cl] intro!: upd split: option.splits)
  next
    case (step_drop c)
    then show ?thesis using upd [of None c] by (simp add: remove_client_eq [OF cl])
  next
    case (step_publish pe)
    then show ?thesis using queues_publish [OF fifo cl q] by simp
  next
    case (step_receive c r ch)
    then have c: "cl c = Some r" using cl by simp
    from fifo step_receive(3) obtain n where "queued ch = drop n (queued (cr_events r))"
      unfolding mpsc_fifo_def by blast
    moreover have "subseq (queued (cr_events r)) (hub_events h)"
      using q step_receive(2) by (simp add: queues_inv_def)
    ultimately have "subseq (queued ch) (hub_events h)" by (simp add: subseq_drop_left)
    then show ?thesis using step_receive by (auto simp: receive_eq [OF cl(1) c] intro!: upd)
  qed
qed

lemma reachable_queues:
  assumes "mpsc_fifo new_channel try_send rx queued"
    and "reachable (hub_start epoch capacity m) (hub_step new_channel try_send rx) h"
  shows "queues_inv queued h"
  using assms(2)
proof induction
  case (reachable_start h)
  then show ?case
    by (auto simp: hub_start_def with_client_limit_def queues_inv_def split: if_splits)
next
  case (reachable_step h t)
  then show ?case using queues_step [OF assms(1)] hs.reachable_inv by blast
qed

definition publish_all ::
  "('ch \<Rightarrow> market_event \<Rightarrow> 'ch try_send_result) \<Rightarrow> provider_event list \<Rightarrow> 'ch hub \<Rightarrow> 'ch hub" where
  "publish_all try_send pes h = fold (\<lambda>pe h. fst (publish try_send h pe)) pes h"

lemma publish_client:
  assumes "hub_inv h" and "rs_clients (hub_routes h) c = v"
  shows "publish try_send h pe = (t, Inl err) \<Longrightarrow> rs_clients (hub_routes t) c = v"
    and "publish try_send h pe = (t, Inr e) \<Longrightarrow>
      rs_clients (hub_routes t) c = (case v of None \<Rightarrow> None | Some r \<Rightarrow> delivered try_send e r)"
proof -
  from assms(1) obtain cl where cl: "hub_routes h = indexed cl" "finite_clients cl"
    by (rule hub_inv_indexed)
  show "publish try_send h pe = (t, Inl err) \<Longrightarrow> rs_clients (hub_routes t) c = v"
    and "publish try_send h pe = (t, Inr e) \<Longrightarrow>
      rs_clients (hub_routes t) c = (case v of None \<Rightarrow> None | Some r \<Rightarrow> delivered try_send e r)"
    using cl(1) assms(2)
    by (auto simp: publish_eq [OF cl] Let_def deliver_all_def split: if_splits option.splits)
qed

lemma publish_all_inv: "hub_inv h \<Longrightarrow> hub_inv (publish_all try_send pes h)"
  by (induction pes arbitrary: h) (simp_all add: publish_all_def publish_inv)

lemma publish_events:
  "hub_events (fst (publish try_send h pe)) =
     hub_events h @ (case snd (publish try_send h pe) of Inl _ \<Rightarrow> [] | Inr e \<Rightarrow> [e])"
  by (simp add: publish_def Let_def split: option.splits)

lemma publish_all_events: "prefix (hub_events h) (hub_events (publish_all try_send pes h))"
proof (induction pes arbitrary: h)
  case (Cons pe pes)
  have "prefix (hub_events h) (hub_events (fst (publish try_send h pe)))" by (simp add: publish_events)
  moreover have "publish_all try_send (pe # pes) h = publish_all try_send pes (fst (publish try_send h pe))"
    by (simp add: publish_all_def)
  ultimately show ?case using Cons.IH by (metis prefix_order.order_trans)
qed (simp add: publish_all_def)

text \<open>What a sequence of publications does to one client that was routed at its start.\<close>

definition run_outcome ::
  "('ch \<Rightarrow> market_event list) \<Rightarrow> market_event list \<Rightarrow> 'ch client_route \<Rightarrow> 'ch client_route option \<Rightarrow> bool" where
  "run_outcome queued wanted r v = (case v of
     None \<Rightarrow> True
   | Some r' \<Rightarrow>
       if cr_subscriptions r' = cr_subscriptions r
       then cr_lagged r' = cr_lagged r \<and> queued (cr_events r') = queued (cr_events r) @ wanted
       else cr_subscriptions r' = {} \<and> cr_lagged r' = saturating_add (cr_lagged r) 1 \<and>
         (\<exists>pre. prefix pre wanted \<and> queued (cr_events r') = queued (cr_events r) @ pre))"

lemma run_outcome_publish:
  assumes "mpsc_fifo new_channel try_send rx queued" and "run_outcome queued wanted r (Some r')"
  shows "run_outcome queued (wanted @ (if subscription_key e \<in> cr_subscriptions r then [e] else [])) r
    (delivered try_send e r')"
proof (cases "cr_subscriptions r' = cr_subscriptions r")
  case True
  then show ?thesis
    using assms by (auto simp: run_outcome_def delivered_def mpsc_fifo_def split: try_send_result.splits)
next
  case False
  then show ?thesis
    using assms(2) by (auto simp: run_outcome_def delivered_def prefix_append)
qed

lemma publish_all_snoc:
  "publish_all try_send (pes @ [pe]) h = fst (publish try_send (publish_all try_send pes h) pe)"
  by (simp add: publish_all_def)

definition new_events :: "'ch hub \<Rightarrow> 'ch hub \<Rightarrow> market_event list" where
  "new_events h t = drop (length (hub_events h)) (hub_events t)"

lemma new_events_snoc:
  "new_events h (publish_all try_send (pes @ [pe]) h) = new_events h (publish_all try_send pes h) @
     (case snd (publish try_send (publish_all try_send pes h) pe) of Inl _ \<Rightarrow> [] | Inr e \<Rightarrow> [e])"
  using publish_all_events [of h try_send pes]
  by (auto simp: new_events_def publish_all_snoc publish_events dest!: prefix_length_le)

section \<open>Properties\<close>

text \<open>
  (C9) Whatever sequence of registrations, subscription updates, removals, publications and
  receptions a hub goes through, its index by key lists exactly the clients subscribed to each
  key (no stale and no missing route, no empty bucket), and it never holds more clients than
  its configured maximum.
\<close>

theorem hub_routes_consistent:
  assumes "reachable (hub_start epoch capacity m) (hub_step new_channel try_send rx) h"
  shows "routes_inv (hub_routes h) \<and> receiver_count h \<le> m"
  using hs.reachable_inv [OF assms] by (auto simp: hub_inv_def)

text \<open>
  (C11) The delivery sequence of the gateway: in every reachable state the published events are
  numbered 1, 2, 3, ... without a gap or a repetition, all under the stream epoch of the hub, and
  the next number is one more than the count of published events (so the counter never wraps).
\<close>

theorem delivery_sequence_gapless:
  assumes "reachable (hub_start epoch capacity m) (hub_step new_channel try_send rx) h"
  shows "map (\<lambda>e. unat (me_delivery_sequence e)) (hub_events h) = [1..<Suc (length (hub_events h))] \<and>
    (\<forall>e. e \<in> set (hub_events h) \<longrightarrow> me_stream_epoch e = hub_stream_epoch h) \<and>
    unat (hub_next_delivery_sequence h) = Suc (length (hub_events h))"
proof -
  have log: "log_inv h" using hs.reachable_inv [OF assms] by simp
  then have "map (\<lambda>e. unat (me_delivery_sequence e)) (hub_events h) = [1..<Suc (length (hub_events h))]"
    by (intro nth_equalityI) (auto simp: log_inv_def simp del: upt_Suc)
  then show ?thesis using log by (auto simp: log_inv_def in_set_conv_nth)
qed

text \<open>
  (C12) Order of delivery: with a first-in-first-out channel, the events waiting in the queue of
  any client are always a subsequence of the log of published events, so a client sees events
  in strictly increasing delivery sequence whatever is interleaved with its reads.
\<close>

theorem client_queue_ordered:
  assumes "mpsc_fifo new_channel try_send rx queued"
    and "reachable (hub_start epoch capacity m) (hub_step new_channel try_send rx) h"
    and "rs_clients (hub_routes h) c = Some r"
  shows "subseq (queued (cr_events r)) (hub_events h) \<and>
    sorted_wrt (\<lambda>a b. me_delivery_sequence a < me_delivery_sequence b) (queued (cr_events r))"
proof -
  have sub: "subseq (queued (cr_events r)) (hub_events h)"
    using reachable_queues [OF assms(1,2)] assms(3) by (simp add: queues_inv_def)
  have "log_inv h" using hs.reachable_inv [OF assms(2)] by simp
  then have "sorted_wrt (\<lambda>a b. me_delivery_sequence a < me_delivery_sequence b) (hub_events h)"
    by (auto simp: log_inv_def sorted_wrt_iff_nth_less word_less_nat_alt)
  with sub show ?thesis by (simp add: sorted_wrt_subseq)
qed

text \<open>
  One publication: unless the sequence is exhausted (then nothing changes), the event gets
  the next number and the epoch of the hub, and each client is changed exactly as
  \<open>delivered\<close> says: a client that did not subscribe to the key is untouched, a subscriber
  gets the event in its queue, a subscriber whose queue is full has its lag count raised and all
  its subscriptions dropped, and one whose receiver is gone is removed.
\<close>

theorem publish_effect:
  assumes "hub_inv h"
  shows "case publish try_send h pe of
     (t, Inl _) \<Rightarrow> t = h \<and> hub_next_delivery_sequence h = - 1
   | (t, Inr e) \<Rightarrow>
       e = into_market_event pe (hub_stream_epoch h) (hub_next_delivery_sequence h) \<and>
       unat (hub_next_delivery_sequence t) = unat (hub_next_delivery_sequence h) + 1 \<and>
       hub_events t = hub_events h @ [e] \<and> hub_inv t \<and>
       (\<forall>c. rs_clients (hub_routes t) c = (case rs_clients (hub_routes h) c of
          None \<Rightarrow> None | Some r \<Rightarrow> delivered try_send e r))"
proof -
  from assms obtain cl where cl: "hub_routes h = indexed cl" "finite_clients cl"
    by (rule hub_inv_indexed)
  let ?n = "hub_next_delivery_sequence h"
  have "unat (?n + 1) = unat ?n + 1" if "?n \<noteq> - 1"
    using u64_succ_fits [of ?n] that by (simp add: unat_add_no_overflow)
  then show ?thesis
    using publish_inv [OF assms, of try_send pe] cl(1)
    by (auto simp: publish_eq [OF cl] Let_def deliver_all_def split: option.splits)
qed

lemma publish_run_outcome:
  assumes "mpsc_fifo new_channel try_send rx queued" and "hub_inv h"
    and "rs_clients (hub_routes h) c = Some r"
  shows "run_outcome queued
    (filter (\<lambda>e. subscription_key e \<in> cr_subscriptions r) (new_events h (publish_all try_send pes h)))
    r (rs_clients (hub_routes (publish_all try_send pes h)) c)"
proof (induction pes rule: rev_induct)
  case Nil
  then show ?case using assms(3) by (simp add: publish_all_def new_events_def run_outcome_def)
next
  case (snoc pe pes)
  let ?h = "publish_all try_send pes h"
  obtain t res where p: "publish try_send ?h pe = (t, res)" by force
  note client = publish_client [OF publish_all_inv [OF assms(2), of try_send pes] refl, of try_send pe]
  show ?case
  proof (cases res)
    case (Inl err)
    then show ?thesis
      using snoc.IH client(1) p unfolding new_events_snoc by (simp add: publish_all_snoc)
  next
    case (Inr e)
    with client(2) p have c: "rs_clients (hub_routes t) c =
        (case rs_clients (hub_routes ?h) c of None \<Rightarrow> None | Some r \<Rightarrow> delivered try_send e r)" by simp
    show ?thesis
    proof (cases "rs_clients (hub_routes ?h) c")
      case None
      then show ?thesis using c p by (simp add: publish_all_snoc run_outcome_def)
    next
      case (Some r')
      with snoc.IH have "run_outcome queued
          (filter (\<lambda>e. subscription_key e \<in> cr_subscriptions r) (new_events h ?h)) r (Some r')" by simp
      from run_outcome_publish [OF assms(1) this, of e] Some show ?thesis
        using c p Inr unfolding new_events_snoc by (simp add: publish_all_snoc split: if_splits)
    qed
  qed
qed


subsection \<open>Witnesses\<close>

text \<open>A bounded queue as its capacity and contents, a hub with two slots per client, and one event.\<close>

fun sample_try_send :: "nat \<times> market_event list \<Rightarrow> market_event \<Rightarrow> (nat \<times> market_event list) try_send_result" where
  "sample_try_send (n, q) e = (if length q < n then SendOk (n, q @ [e]) else SendFull)"

definition sample_new_channel :: "usize \<Rightarrow> nat \<times> market_event list" where
  "sample_new_channel n = (n, [])"

definition sample_rx :: "nat \<times> market_event list \<Rightarrow> nat \<times> market_event list \<Rightarrow> bool" where
  "sample_rx ch ch' \<longleftrightarrow> ch' = (fst ch, tl (snd ch))"

definition sample_hub :: "(nat \<times> market_event list) hub" where
  "sample_hub = the (with_client_limit 5 2 3)"

definition sample_registered :: "(nat \<times> market_event list) hub" where
  "sample_registered = fst (try_register_client sample_new_channel sample_hub 7)"

definition sample_routed :: "(nat \<times> market_event list) hub" where
  "sample_routed = fst (update_client_subscriptions sample_registered 7 {sample_key Ticker})"

definition sample_event :: provider_event where
  "sample_event = \<lparr>pe_connection_epoch = 3, pe_provider = Bybit, pe_market = LinearPerpetual,
     pe_symbol = ''BTCUSDT'', pe_exchange_time_ms = None, pe_gateway_received_time_ms = 1,
     pe_source_sequence = None, pe_payload = TickerPayload default_ticker\<rparr>"

abbreviation sample_hub_reachable :: "(nat \<times> market_event list) hub \<Rightarrow> bool" where
  "sample_hub_reachable \<equiv>
     reachable (hub_start 5 2 3) (hub_step sample_new_channel sample_try_send sample_rx)"

lemma sample_hub_start: "with_client_limit 5 2 3 = Some sample_hub"
  by (simp add: sample_hub_def with_client_limit_def)

lemma sample_hub_inv: "hub_inv sample_hub" "hub_inv sample_registered" "hub_inv sample_routed"
proof -
  show 1: "hub_inv sample_hub" by (rule with_client_limit_inv [OF sample_hub_start])
  then show 2: "hub_inv sample_registered"
    unfolding sample_registered_def by (rule try_register_client_inv)
  then show "hub_inv sample_routed"
    unfolding sample_routed_def by (rule update_client_subscriptions_inv) simp
qed

lemma sample_hub_reachable_routed: "sample_hub_reachable sample_routed"
proof -
  have "sample_hub_reachable sample_hub"
    by (rule reachable_start) (simp add: hub_start_def sample_hub_start)
  then have "sample_hub_reachable sample_registered"
    unfolding sample_registered_def by (rule reachable_step) (rule step_register)
  then show ?thesis
    unfolding sample_routed_def by (rule reachable_step) (rule step_update, simp)
qed

lemma sample_fifo: "mpsc_fifo sample_new_channel sample_try_send sample_rx snd"
proof -
  have "\<exists>n. tl q = drop n q" for q :: "market_event list" by (rule exI [of _ 1]) (simp add: drop_Suc)
  then show ?thesis
    by (auto simp: mpsc_fifo_def sample_new_channel_def sample_rx_def split: if_splits)
qed

lemma sample_route:
  "rs_clients (hub_routes sample_routed) 7 =
     Some \<lparr>cr_events = (2, []), cr_lagged = 0, cr_subscriptions = {sample_key Ticker}\<rparr>"
proof -
  obtain cl where cl: "hub_routes sample_hub = indexed cl" "finite_clients cl"
    using hub_inv_indexed [OF sample_hub_inv(1)] by blast
  have e: "cl = Map.empty" "hub_max_clients sample_hub = 3" "hub_client_capacity sample_hub = 2"
    using cl(1) by (auto simp: sample_hub_def with_client_limit_def indexed_def)
  have reg: "sample_registered = sample_hub\<lparr>hub_routes := indexed [7 \<mapsto> \<lparr>cr_events = (2, []),
      cr_lagged = 0, cr_subscriptions = {}\<rparr>]\<rparr>"
    by (simp add: sample_registered_def try_register_client_eq [OF cl] e sample_new_channel_def)
  have "finite_clients [7 \<mapsto> \<lparr>cr_events = (2 :: nat, [] :: market_event list), cr_lagged = 0,
      cr_subscriptions = {}\<rparr>]"
    by (simp add: finite_clients_def)
  then show ?thesis
    by (simp add: sample_routed_def reg update_client_subscriptions_eq
        [where clients = "[7 \<mapsto> \<lparr>cr_events = (2, []), cr_lagged = 0, cr_subscriptions = {}\<rparr>]"])
qed

theorem hub_routes_consistent_witness:
  "sample_hub_reachable sample_routed \<and> routes_inv (hub_routes sample_routed) \<and>
     receiver_count sample_routed \<le> 3"
  using hub_routes_consistent [OF sample_hub_reachable_routed] sample_hub_reachable_routed by simp

definition sample_published :: "(nat \<times> market_event list) hub" where
  "sample_published = fst (publish sample_try_send sample_routed sample_event)"

lemma sample_published_reachable: "sample_hub_reachable sample_published"
  unfolding sample_published_def
  by (rule reachable_step [OF sample_hub_reachable_routed]) (rule step_publish)

lemma sample_next: "hub_next_delivery_sequence sample_routed = 1" "hub_events sample_routed = []"
  by (simp_all add: sample_routed_def sample_registered_def sample_hub_def with_client_limit_def
      update_client_subscriptions_def update_routes_def try_register_client_def Let_def
      split: prod.splits option.splits)

lemma sample_publish:
  "publish sample_try_send sample_routed sample_event =
     (sample_published, Inr (into_market_event sample_event (hub_stream_epoch sample_routed) 1))"
  by (simp add: sample_published_def publish_def sample_next checked_add_def Let_def)

theorem delivery_sequence_gapless_witness:
  "sample_hub_reachable sample_published \<and>
   map (\<lambda>e. unat (me_delivery_sequence e)) (hub_events sample_published) =
     [1..<Suc (length (hub_events sample_published))]"
  using delivery_sequence_gapless [OF sample_published_reachable] sample_published_reachable by blast

theorem client_queue_ordered_witness:
  "\<exists>r. rs_clients (hub_routes sample_published) 7 = Some r \<and> length (snd (cr_events r)) = 1 \<and>
     subseq (snd (cr_events r)) (hub_events sample_published)"
proof -
  let ?e = "into_market_event sample_event (hub_stream_epoch sample_routed) 1"
  have "rs_clients (hub_routes sample_published) 7 =
      delivered sample_try_send ?e \<lparr>cr_events = (2, []), cr_lagged = 0, cr_subscriptions = {sample_key Ticker}\<rparr>"
    using publish_client(2) [OF sample_hub_inv(3) sample_route sample_publish] by simp
  also have "\<dots> = Some \<lparr>cr_events = (2, [?e]), cr_lagged = 0, cr_subscriptions = {sample_key Ticker}\<rparr>"
    by (simp add: delivered_def event_key_def sample_event_def sample_key_def)
  finally show ?thesis
    using client_queue_ordered [OF sample_fifo sample_published_reachable, of 7] by fastforce
qed

theorem publish_effect_witness:
  "hub_inv sample_routed \<and> (case publish sample_try_send sample_routed sample_event of
     (t, Inl _) \<Rightarrow> False
   | (t, Inr e) \<Rightarrow> unat (hub_next_delivery_sequence t) = 2 \<and> hub_events t = [e] \<and> hub_inv t)"
  using publish_effect [OF sample_hub_inv(3), where try_send = sample_try_send and pe = sample_event] sample_hub_inv(3)
  by (simp add: sample_publish sample_next)


end
