(* ===== verification/Connection.thy ===== *)
theory Connection
  imports Commands Health Metrics Hub
begin

text \<open>
  One upstream connection (\<^verbatim>\<open>src/src/runtime.rs\<close>, \<open>run_connection\<close> and its helpers). The
  body is a loop over \<open>tokio::select!\<close>; a run of it is the sequence of the branches that
  fire. \<open>conn_step\<close> is one turn of the loop: the whole handler of the branch that fired,
  on the loop's local variables and the shared health, metrics and hub it writes to. What the
  outside decides in a turn is the argument \<open>io\<close>: the time, and what the socket did with
  the frame being written. A handler ends the loop with \<open>Failed\<close> (an \<open>Err\<close>),
  \<open>Exited\<close> (an \<open>Ok\<close>) or \<open>Panicked\<close>; the combinators \<open>bind\<close> and
  \<open>lift_result\<close> are the \<open>?\<close> operator. Bytes on the wire are strings of bytes.
\<close>

section \<open>Handlers\<close>

datatype connection_exit = ExitIdle | ExitRotate

datatype stop = Failed runtime_error | Exited connection_exit | Panicked

type_synonym ('w, 'a) handler = "'w \<Rightarrow> 'w \<times> (stop + 'a)"

definition ret :: "'a \<Rightarrow> ('w, 'a) handler" where
  "ret x w = (w, Inr x)"

definition stop_with :: "stop \<Rightarrow> ('w, 'a) handler" where
  "stop_with s w = (w, Inl s)"

definition bind :: "('w, 'a) handler \<Rightarrow> ('a \<Rightarrow> ('w, 'b) handler) \<Rightarrow> ('w, 'b) handler" where
  "bind m f w = (case m w of (w', Inl s) \<Rightarrow> (w', Inl s) | (w', Inr x) \<Rightarrow> f x w')"

definition modify_world :: "('w \<Rightarrow> 'w) \<Rightarrow> ('w, unit) handler" where
  "modify_world f w = (f w, Inr ())"

definition with_world :: "('w \<Rightarrow> ('w, 'a) handler) \<Rightarrow> ('w, 'a) handler" where
  "with_world f w = f w w"

definition lift_result :: "runtime_error + 'a \<Rightarrow> ('w, 'a) handler" where
  "lift_result r w = (case r of Inl e \<Rightarrow> (w, Inl (Failed e)) | Inr x \<Rightarrow> (w, Inr x))"

definition run_if :: "bool \<Rightarrow> ('w, unit) handler \<Rightarrow> ('w, unit) handler" where
  "run_if b m = (if b then m else ret ())"

section \<open>State\<close>

datatype ws_message =
    TextMsg string
  | BinaryMsg string
  | PingMsg string
  | PongMsg string
  | RawFrame
  | CloseMsg string

datatype send_outcome = Sent | SendTimedOut | SendFailed string

record io =
  io_now :: instant
  io_unix_ms :: u64
  io_send :: send_outcome

datatype branch =
    ShutdownCancelled
  | RotateElapsed
  | AckTimeoutElapsed
  | CommandTick
  | HeartbeatTick
  | DesiredChanged "sub_key set option"
  | FrameReceived "(string + ws_message) option"

record ('s, 'ch) world =
  w_session :: 's
  w_commands :: command_state
  w_desired :: "sub_key set"
  w_last_market_event :: instant
  w_ack_deadline :: "instant option"
  w_live :: bool
  w_idle_after_commands :: bool
  w_sent :: "ws_message list"
  w_health :: health_registry
  w_metrics :: metrics
  w_hub :: "'ch hub"

text \<open>
  The fixed parameters of a connection. \<open>gunzip_take n bytes\<close> is flate2's decoder reading at
  most \<open>n\<close> bytes, and \<open>utf8\<close> is the validity test of \<open>from_utf8\<close>.
\<close>

record ('s, 'ch) env =
  env_lib :: ext
  env_adapter :: "'s adapter"
  env_endpoint :: endpoint_kind
  env_target :: connection_target
  env_epoch :: uuid
  env_try_send :: "'ch \<Rightarrow> market_event \<Rightarrow> 'ch try_send_result"
  env_gunzip_take :: "nat \<Rightarrow> string \<Rightarrow> string + string"
  env_utf8 :: "string \<Rightarrow> bool"

abbreviation env_provider :: "('s, 'ch) env \<Rightarrow> provider" where
  "env_provider env \<equiv> ad_provider (env_adapter env)"

abbreviation env_labels :: "('s, 'ch) env \<Rightarrow> endpoint_labels" where
  "env_labels env \<equiv> new_endpoint_labels (env_provider env) (env_endpoint env)"

definition CONNECT_TIMEOUT :: duration where
  "CONNECT_TIMEOUT = 15 * 10 ^ 9"

definition WRITE_TIMEOUT :: duration where
  "WRITE_TIMEOUT = 5 * 10 ^ 9"

section \<open>Helpers of the loop\<close>

definition update_health ::
  "('s, 'ch) env \<Rightarrow> (endpoint_health \<Rightarrow> endpoint_health) \<Rightarrow> (('s, 'ch) world, unit) handler" where
  "update_health env f w =
     (case health_update (w_health w) (env_provider env) (env_endpoint env) f of
        (reg, True) \<Rightarrow> (w\<lparr>w_health := reg\<rparr>, Inr ())
      | (reg, False) \<Rightarrow> (w\<lparr>w_health := reg\<rparr>, Inl Panicked))"

definition send_message :: "io \<Rightarrow> ws_message \<Rightarrow> (('s, 'ch) world, unit) handler" where
  "send_message io msg w =
     (case io_send io of
        Sent \<Rightarrow> (w\<lparr>w_sent := w_sent w @ [msg]\<rparr>, Inr ())
      | SendTimedOut \<Rightarrow> (w, Inl (Failed (WriteTimeout WRITE_TIMEOUT)))
      | SendFailed e \<Rightarrow> (w, Inl (Failed (WebSocket e))))"

text \<open>\<open>let _ = send_message(..)\<close>: the outcome is dropped.\<close>

definition send_ignoring :: "io \<Rightarrow> ws_message \<Rightarrow> (('s, 'ch) world, unit) handler" where
  "send_ignoring io msg w = (fst (send_message io msg w), Inr ())"

fun send_heartbeat :: "io \<Rightarrow> heartbeat \<Rightarrow> (('s, 'ch) world, unit) handler" where
  "send_heartbeat io (HeartbeatText t) = send_message io (TextMsg t)"
| "send_heartbeat io (WebSocketPing payload) = send_message io (PingMsg payload)"

definition close_and_exit :: "io \<Rightarrow> connection_exit \<Rightarrow> (('s, 'ch) world, 'a) handler" where
  "close_and_exit io e = bind (send_ignoring io (CloseMsg ''None'')) (\<lambda>_. stop_with (Exited e))"

definition mark_live :: "('s, 'ch) env \<Rightarrow> (('s, 'ch) world, unit) handler" where
  "mark_live env = update_health env (\<lambda>h. h\<lparr>eh_state := Live, eh_last_error := None\<rparr>)"

definition filter_desired :: "'s adapter \<Rightarrow> endpoint_kind \<Rightarrow> sub_key set \<Rightarrow> sub_key set" where
  "filter_desired ad endpoint snapshot =
     {k \<in> snapshot. key_provider k = ad_provider ad \<and> ad_endpoint_for ad (key_channel k) = endpoint}"

text \<open>\<open>i64::try_from(desired).unwrap_or(i64::MAX)\<close>\<close>

definition gauge_of_usize :: "usize \<Rightarrow> gauge" where
  "gauge_of_usize n = of_nat (min n (2 ^ 63 - 1))"

definition update_desired_metrics :: "('s, 'ch) env \<Rightarrow> usize \<Rightarrow> (('s, 'ch) world, unit) handler" where
  "update_desired_metrics env n =
     bind (modify_world (\<lambda>w. w\<lparr>w_metrics := (w_metrics w)\<lparr>mx_desired_subscriptions :=
       (mx_desired_subscriptions (w_metrics w))(env_labels env := gauge_of_usize n)\<rparr>\<rparr>)) (\<lambda>_.
     update_health env (\<lambda>h. h\<lparr>eh_desired_subscriptions := n\<rparr>))"

definition queue_subscription_diff ::
  "('s, 'ch) env \<Rightarrow> subscription_action \<Rightarrow> sub_key list \<Rightarrow> (('s, 'ch) world, unit) handler" where
  "queue_subscription_diff env action subs w =
     (if subs = [] then (w, Inr ())
      else case as_subscription_messages (env_adapter env) (w_session w) action subs of
        (s, Inl e) \<Rightarrow> (w\<lparr>w_session := s\<rparr>, Inl (Failed (AdapterErr e)))
      | (s, Inr cmds) \<Rightarrow>
          (case enqueue (w_commands w) cmds of
             (c, Inl e) \<Rightarrow> (w\<lparr>w_session := s, w_commands := c\<rparr>, Inl (Failed e))
           | (c, Inr _) \<Rightarrow> (w\<lparr>w_session := s, w_commands := c\<rparr>, Inr ())))"

definition decode_binary_frame ::
  "(nat \<Rightarrow> string \<Rightarrow> string + string) \<Rightarrow> (string \<Rightarrow> bool) \<Rightarrow> string \<Rightarrow> usize \<Rightarrow> runtime_error + string" where
  "decode_binary_frame gunzip_take utf8 bytes max_message_bytes =
     (if starts_with [char_of (31 :: nat), char_of (139 :: nat)] bytes
      then case gunzip_take (min (2 ^ 64 - 1) (max_message_bytes + 1)) bytes of
          Inl e \<Rightarrow> Inl (InvalidBinary e)
        | Inr uncompressed \<Rightarrow>
            if length uncompressed > max_message_bytes
            then Inl (DecompressedFrameTooLarge max_message_bytes)
            else if utf8 uncompressed then Inr uncompressed else Inl NonUtf8Binary
      else if utf8 bytes then Inr bytes else Inl NonUtf8Binary)"

section \<open>Frames\<close>

datatype processed_frame =
    AcknowledgedFrame string
  | DemandedMarketEvent
  | ReplyFrame heartbeat
  | OtherFrame

definition count_invalid :: "('s, 'ch) env \<Rightarrow> (('s, 'ch) world, unit) handler" where
  "count_invalid env = modify_world (\<lambda>w. w\<lparr>w_metrics := (w_metrics w)\<lparr>mx_invalid_frames :=
     inc (mx_invalid_frames (w_metrics w)) (env_labels env)\<rparr>\<rparr>)"

definition accept_event :: "('s, 'ch) env \<Rightarrow> provider_event \<Rightarrow> (('s, 'ch) world, unit) handler" where
  "accept_event env e = modify_world (\<lambda>w. w\<lparr>
     w_metrics := (w_metrics w)\<lparr>mx_normalized_events :=
       inc (mx_normalized_events (w_metrics w)) (env_labels env)\<rparr>,
     w_hub := fst (publish (env_try_send env) (w_hub w) e)\<rparr>)"

fun process_events ::
  "('s, 'ch) env \<Rightarrow> provider_event list \<Rightarrow> bool \<Rightarrow> (('s, 'ch) world, bool) handler" where
  "process_events env [] wanted = ret wanted"
| "process_events env (e # es) wanted =
     (case validate_event (env_lib env) e of
        Inl _ \<Rightarrow> bind (count_invalid env) (\<lambda>_. process_events env es wanted)
      | Inr _ \<Rightarrow> with_world (\<lambda>w. bind (accept_event env e) (\<lambda>_.
          process_events env es (wanted \<or> event_key e \<in> w_desired w))))"

definition process_parsed ::
  "('s, 'ch) env \<Rightarrow> io \<Rightarrow> adapter_error + parsed_frame \<Rightarrow> (('s, 'ch) world, processed_frame) handler" where
  "process_parsed env io parsed =
     (case parsed of
        Inr (Events events) \<Rightarrow>
          bind (process_events env events False) (\<lambda>wanted.
          bind (run_if wanted
            (update_health env (\<lambda>h. h\<lparr>eh_last_event_at_ms := Some (io_unix_ms io)\<rparr>))) (\<lambda>_.
          ret (if wanted then DemandedMarketEvent else OtherFrame)))
      | Inr (Acknowledgement request_id) \<Rightarrow> ret (AcknowledgedFrame request_id)
      | Inr (Reply reply) \<Rightarrow> ret (ReplyFrame reply)
      | Inr Pong \<Rightarrow> ret OtherFrame
      | Inr Ignored \<Rightarrow> ret OtherFrame
      | Inl (CommandRejected p m) \<Rightarrow> stop_with (Failed (AdapterErr (CommandRejected p m)))
      | Inl e \<Rightarrow> bind (count_invalid env) (\<lambda>_. ret OtherFrame))"

definition process_text ::
  "('s, 'ch) env \<Rightarrow> io \<Rightarrow> string \<Rightarrow> (('s, 'ch) world, processed_frame) handler" where
  "process_text env io text w =
     (case as_parse (env_adapter env) (w_session w) text (io_unix_ms io) of
        (s, parsed) \<Rightarrow> process_parsed env io parsed (w\<lparr>w_session := s\<rparr>))"

definition acknowledge_request :: "string \<Rightarrow> (('s, 'ch) world, unit) handler" where
  "acknowledge_request request_id w =
     (case acknowledge (w_commands w) request_id of
        (c, Inl e) \<Rightarrow> (w\<lparr>w_commands := c\<rparr>, Inl (Failed e))
      | (c, Inr _) \<Rightarrow> (w\<lparr>w_commands := c\<rparr>, Inr ()))"

fun handle_processed_frame ::
  "('s, 'ch) env \<Rightarrow> io \<Rightarrow> processed_frame \<Rightarrow> (('s, 'ch) world, bool) handler" where
  "handle_processed_frame env io (AcknowledgedFrame request_id) =
     bind (acknowledge_request request_id) (\<lambda>_.
     with_world (\<lambda>w.
       if readiness_complete (w_commands w)
       then bind (modify_world (\<lambda>w. w\<lparr>w_ack_deadline := None\<rparr>)) (\<lambda>_.
            bind (run_if (\<not> w_live w)
              (bind (mark_live env) (\<lambda>_. modify_world (\<lambda>w. w\<lparr>w_live := True\<rparr>)))) (\<lambda>_. ret False))
       else bind (modify_world (\<lambda>w. w\<lparr>w_ack_deadline :=
              Some (io_now io + ct_subscription_ack_timeout (env_target env))\<rparr>)) (\<lambda>_. ret False)))"
| "handle_processed_frame env io DemandedMarketEvent = ret True"
| "handle_processed_frame env io (ReplyFrame _) = ret False"
| "handle_processed_frame env io OtherFrame = ret False"

definition handle_text ::
  "('s, 'ch) env \<Rightarrow> io \<Rightarrow> string \<Rightarrow> (('s, 'ch) world, unit) handler" where
  "handle_text env io text =
     bind (process_text env io text) (\<lambda>processed.
       case processed of
         ReplyFrame reply \<Rightarrow> send_heartbeat io reply
       | _ \<Rightarrow> bind (handle_processed_frame env io processed) (\<lambda>market_event.
           run_if market_event (modify_world (\<lambda>w. w\<lparr>w_last_market_event := io_now io\<rparr>))))"

definition handle_frame ::
  "('s, 'ch) env \<Rightarrow> io \<Rightarrow> (string + ws_message) option \<Rightarrow> (('s, 'ch) world, unit) handler" where
  "handle_frame env io incoming =
     (case incoming of
        None \<Rightarrow> stop_with (Failed Closed)
      | Some (Inl e) \<Rightarrow> stop_with (Failed (WebSocket e))
      | Some (Inr msg) \<Rightarrow>
          bind (modify_world (\<lambda>w. w\<lparr>w_metrics := (w_metrics w)\<lparr>mx_upstream_frames :=
            inc (mx_upstream_frames (w_metrics w)) (env_labels env)\<rparr>\<rparr>)) (\<lambda>_.
          case msg of
            TextMsg text \<Rightarrow> handle_text env io text
          | BinaryMsg bytes \<Rightarrow>
              bind (lift_result (decode_binary_frame (env_gunzip_take env) (env_utf8 env) bytes
                (ct_max_message_bytes (env_target env)))) (handle_text env io)
          | PingMsg payload \<Rightarrow> send_message io (PongMsg payload)
          | PongMsg _ \<Rightarrow> ret ()
          | RawFrame \<Rightarrow> ret ()
          | CloseMsg f \<Rightarrow> stop_with (Failed (ProviderClosed f))))"

section \<open>Branches of the loop\<close>

definition mark_command_sent :: "queued_command \<Rightarrow> (('s, 'ch) world, unit) handler" where
  "mark_command_sent command w =
     (case mark_sent (w_commands w) (qc_request_id command) (qc_expected_acknowledgements command) of
        (c, Inl e) \<Rightarrow> (w\<lparr>w_commands := c\<rparr>, Inl (Failed e))
      | (c, Inr _) \<Rightarrow> (w\<lparr>w_commands := c\<rparr>, Inr ()))"

definition send_command :: "('s, 'ch) env \<Rightarrow> io \<Rightarrow> queued_command \<Rightarrow> (('s, 'ch) world, unit) handler" where
  "send_command env io command =
     bind (send_message io (TextMsg (qc_text command))) (\<lambda>_.
     bind (mark_command_sent command) (\<lambda>_.
     bind (run_if (0 < qc_expected_acknowledgements command) (modify_world (\<lambda>w. w\<lparr>w_ack_deadline :=
       Some (io_now io + ct_subscription_ack_timeout (env_target env))\<rparr>))) (\<lambda>_.
     with_world (\<lambda>w.
     bind (run_if (readiness_complete (w_commands w))
       (bind (modify_world (\<lambda>w. w\<lparr>w_ack_deadline := None\<rparr>)) (\<lambda>_.
        bind (mark_live env) (\<lambda>_. modify_world (\<lambda>w. w\<lparr>w_live := True\<rparr>))))) (\<lambda>_.
     run_if (w_idle_after_commands w \<and> \<not> has_queued (w_commands w))
       (close_and_exit io ExitIdle))))))"

text \<open>An empty queue is the \<open>expect\<close> that the guard of the branch rules out.\<close>

definition handle_command_tick :: "('s, 'ch) env \<Rightarrow> io \<Rightarrow> (('s, 'ch) world, unit) handler" where
  "handle_command_tick env io w =
     (case pop_front (w_commands w) of
        (c, None) \<Rightarrow> (w, Inl Panicked)
      | (c, Some command) \<Rightarrow> send_command env io command (w\<lparr>w_commands := c\<rparr>))"

definition handle_heartbeat :: "('s, 'ch) env \<Rightarrow> io \<Rightarrow> (('s, 'ch) world, unit) handler" where
  "handle_heartbeat env io w =
     (if io_now io - w_last_market_event w \<ge> ct_stale_after (env_target env)
      then (w, Inl (Failed (Stale (ct_stale_after (env_target env)))))
      else case as_heartbeat (env_adapter env) (w_session w) of
        (s, hb) \<Rightarrow> send_heartbeat io hb (w\<lparr>w_session := s\<rparr>))"

definition handle_desired_changed ::
  "('s, 'ch) env \<Rightarrow> io \<Rightarrow> sub_key set option \<Rightarrow> (('s, 'ch) world, unit) handler" where
  "handle_desired_changed env io changed =
     (case changed of
        None \<Rightarrow> stop_with (Failed RegistryClosed)
      | Some snapshot \<Rightarrow>
          let next = filter_desired (env_adapter env) (env_endpoint env) snapshot
          in bind (update_desired_metrics env (card next)) (\<lambda>_.
             with_world (\<lambda>w.
               let removed = sorted_list_of_set (w_desired w - next);
                   added = sorted_list_of_set (next - w_desired w)
               in bind (queue_subscription_diff env Unsubscribe removed) (\<lambda>_.
                  bind (queue_subscription_diff env Subscribe added) (\<lambda>_.
                  bind (run_if (removed \<noteq> [] \<or> added \<noteq> [])
                    (bind (modify_world (\<lambda>w. w\<lparr>w_live := False\<rparr>)) (\<lambda>_.
                     update_health env (\<lambda>h. h\<lparr>eh_state := Connecting, eh_last_error := None\<rparr>)))) (\<lambda>_.
                  bind (modify_world (\<lambda>w. w\<lparr>w_desired := next, w_idle_after_commands := (next = {})\<rparr>)) (\<lambda>_.
                  with_world (\<lambda>w. run_if (w_idle_after_commands w \<and> \<not> has_queued (w_commands w))
                    (close_and_exit io ExitIdle))))))))) "

fun conn_step :: "('s, 'ch) env \<Rightarrow> io \<Rightarrow> branch \<Rightarrow> (('s, 'ch) world, unit) handler" where
  "conn_step env io ShutdownCancelled = close_and_exit io ExitIdle"
| "conn_step env io RotateElapsed = close_and_exit io ExitRotate"
| "conn_step env io AckTimeoutElapsed =
     stop_with (Failed (SubscriptionAcknowledgementTimeout (ct_subscription_ack_timeout (env_target env))))"
| "conn_step env io CommandTick = handle_command_tick env io"
| "conn_step env io HeartbeatTick = handle_heartbeat env io"
| "conn_step env io (DesiredChanged changed) = handle_desired_changed env io changed"
| "conn_step env io (FrameReceived incoming) = handle_frame env io incoming"

text \<open>Which branches of the \<open>select!\<close> can fire: the guards and the timers that are armed.\<close>

definition branch_enabled :: "('s, 'ch) env \<Rightarrow> io \<Rightarrow> branch \<Rightarrow> ('s, 'ch) world \<Rightarrow> bool" where
  "branch_enabled env io b w =
     (case b of
        RotateElapsed \<Rightarrow> ct_rotate_after (env_target env) \<noteq> None
      | AckTimeoutElapsed \<Rightarrow> (\<exists>d. w_ack_deadline w = Some d \<and> d \<le> io_now io)
      | CommandTick \<Rightarrow> has_queued (w_commands w)
      | _ \<Rightarrow> True)"

section \<open>Opening and running a connection\<close>

datatype connect_outcome = Connected | ConnectTimedOut | ConnectFailed string

definition start_connection ::
  "('s, 'ch) env \<Rightarrow> connect_outcome \<Rightarrow> io \<Rightarrow> sub_key set \<Rightarrow> (('s, 'ch) world, unit) handler" where
  "start_connection env outcome io desired w0 =
     (case outcome of
        ConnectTimedOut \<Rightarrow> (w0, Inl (Failed (ConnectTimeout CONNECT_TIMEOUT)))
      | ConnectFailed e \<Rightarrow> (w0, Inl (Failed (WebSocket e)))
      | Connected \<Rightarrow>
          bind (queue_subscription_diff env Subscribe (sorted_list_of_set desired)) (\<lambda>_.
          bind (modify_world (\<lambda>w. w\<lparr>w_metrics := (w_metrics w)\<lparr>mx_upstream_connections :=
            (mx_upstream_connections (w_metrics w))(env_labels env := 1)\<rparr>\<rparr>)) (\<lambda>_.
          bind (update_health env (\<lambda>h. h\<lparr>eh_state := Connecting, eh_connection_epoch := Some (env_epoch env),
            eh_connected_at_ms := Some (io_unix_ms io), eh_last_event_at_ms := None,
            eh_last_error := None\<rparr>)) (\<lambda>_.
          with_world (\<lambda>w. run_if (readiness_complete (w_commands w))
            (bind (mark_live env) (\<lambda>_. modify_world (\<lambda>w. w\<lparr>w_live := True\<rparr>)))))))
          (w0\<lparr>w_session := ad_session (env_adapter env) (env_endpoint env) (env_epoch env),
              w_commands := default_commands, w_desired := desired, w_last_market_event := io_now io,
              w_ack_deadline := None, w_live := False, w_idle_after_commands := False, w_sent := []\<rparr>))"

fun run_loop ::
  "('s, 'ch) env \<Rightarrow> (io \<times> branch) list \<Rightarrow> ('s, 'ch) world \<Rightarrow> ('s, 'ch) world \<times> (stop + unit)" where
  "run_loop env [] w = (w, Inr ())"
| "run_loop env ((io, b) # turns) w =
     (case conn_step env io b w of (w', Inl s) \<Rightarrow> (w', Inl s) | (w', Inr _) \<Rightarrow> run_loop env turns w')"

section \<open>Specification\<close>

text \<open>A handler started in \<open>P\<close> does not panic, and if the loop goes on it is in \<open>Q\<close>.\<close>

definition valid :: "('w \<Rightarrow> bool) \<Rightarrow> ('w, 'a) handler \<Rightarrow> ('a \<Rightarrow> 'w \<Rightarrow> bool) \<Rightarrow> bool" where
  "valid P m Q \<longleftrightarrow> (\<forall>w. P w \<longrightarrow> (case m w of (w', Inr x) \<Rightarrow> Q x w' | (w', Inl s) \<Rightarrow> s \<noteq> Panicked))"

definition own_health :: "('s, 'ch) env \<Rightarrow> ('s, 'ch) world \<Rightarrow> endpoint_health" where
  "own_health env w = health_entry (w_health w) (env_provider env, env_endpoint env)"

definition base_inv :: "('s, 'ch) env \<Rightarrow> nat \<Rightarrow> ('s, 'ch) world \<Rightarrow> bool" where
  "base_inv env n w \<longleftrightarrow>
     commands_inv (w_commands w) \<and>
     (cmd_pending (w_commands w) \<noteq> Map.empty \<longrightarrow> w_ack_deadline w \<noteq> None) \<and>
     (readiness_complete (w_commands w) \<longrightarrow> w_ack_deadline w = None) \<and>
     eh_state (own_health env w) = (if w_live w then Live else Connecting) \<and>
     eh_connection_epoch (own_health env w) = Some (env_epoch env) \<and>
     eh_desired_subscriptions (own_health env w) = n \<and> eh_last_error (own_health env w) = None"

text \<open>
  What the loop needs of an adapter for readiness to be reached: a non-empty difference is
  turned into at least one command.
\<close>

definition commands_for_changes :: "'s adapter \<Rightarrow> bool" where
  "commands_for_changes ad \<longleftrightarrow>
     (\<forall>s action subs s' cmds. subs \<noteq> [] \<longrightarrow>
        as_subscription_messages ad s action subs = (s', Inr cmds) \<longrightarrow> cmds \<noteq> [])"

definition conn_inv :: "('s, 'ch) env \<Rightarrow> ('s, 'ch) world \<Rightarrow> bool" where
  "conn_inv env w \<longleftrightarrow>
     base_inv env (card (w_desired w)) w \<and>
     (w_live w \<longrightarrow> readiness_complete (w_commands w)) \<and>
     (commands_for_changes (env_adapter env) \<longrightarrow> \<not> w_live w \<longrightarrow> \<not> readiness_complete (w_commands w)) \<and>
     (w_idle_after_commands w \<longleftrightarrow> w_desired w = {}) \<and>
     (w_idle_after_commands w \<longrightarrow> has_queued (w_commands w)) \<and> finite (w_desired w)"

section \<open>Lemmas\<close>

lemma validI:
  "(\<And>w w' x. P w \<Longrightarrow> m w = (w', Inr x) \<Longrightarrow> Q x w') \<Longrightarrow> (\<And>w w'. P w \<Longrightarrow> m w \<noteq> (w', Inl Panicked)) \<Longrightarrow>
     valid P m Q"
  unfolding valid_def by (auto split: prod.splits sum.splits)

lemma validD:
  "valid P m Q \<Longrightarrow> P w \<Longrightarrow> m w = (w', Inr x) \<Longrightarrow> Q x w'"
  "valid P m Q \<Longrightarrow> P w \<Longrightarrow> m w \<noteq> (w', Inl Panicked)"
  unfolding valid_def by fastforce+

lemma validE: "valid P m Q \<Longrightarrow> P w \<Longrightarrow> case m w of (w', Inr x) \<Rightarrow> Q x w' | (w', Inl s) \<Rightarrow> s \<noteq> Panicked"
  by (simp add: valid_def)

lemma valid_bind:
  assumes "valid P m R" and "\<And>x. valid (R x) (f x) Q"
  shows "valid P (bind m f) Q"
  unfolding valid_def
proof (intro allI impI)
  fix w
  assume "P w"
  obtain w' r where m: "m w = (w', r)" by force
  show "case bind m f w of (w', Inr x) \<Rightarrow> Q x w' | (w', Inl s) \<Rightarrow> s \<noteq> Panicked"
  proof (cases r)
    case (Inl s)
    then show ?thesis using assms(1) \<open>P w\<close> m by (auto simp: bind_def valid_def dest!: spec [of _ w])
  next
    case (Inr x)
    then have "R x w'" using assms(1) \<open>P w\<close> m by (auto simp: valid_def dest!: spec [of _ w])
    then show ?thesis using assms(2) [of x] m Inr by (simp add: bind_def valid_def)
  qed
qed

lemma valid_ret: "(\<And>w. P w \<Longrightarrow> Q x w) \<Longrightarrow> valid P (ret x) Q"
  by (simp add: valid_def ret_def)

lemma valid_stop: "s \<noteq> Panicked \<Longrightarrow> valid P (stop_with s) Q"
  by (simp add: valid_def stop_with_def)

lemma valid_modify: "(\<And>w. P w \<Longrightarrow> Q () (f w)) \<Longrightarrow> valid P (modify_world f) Q"
  by (simp add: valid_def modify_world_def)

lemma valid_with: "(\<And>v. valid (\<lambda>w. P w \<and> w = v) (f v) Q) \<Longrightarrow> valid P (with_world f) Q"
  by (simp add: valid_def with_world_def)

lemma valid_run_if:
  "(b \<Longrightarrow> valid P m Q) \<Longrightarrow> (\<And>w. \<not> b \<Longrightarrow> P w \<Longrightarrow> Q () w) \<Longrightarrow> valid P (run_if b m) Q"
  by (simp add: valid_def run_if_def ret_def)

lemma valid_lift: "(\<And>x w. P w \<Longrightarrow> r = Inr x \<Longrightarrow> Q x w) \<Longrightarrow> valid P (lift_result r) Q"
  by (auto simp: valid_def lift_result_def split: sum.splits)

lemma valid_send: "(\<And>w. P w \<Longrightarrow> Q () (w\<lparr>w_sent := w_sent w @ [msg]\<rparr>)) \<Longrightarrow> valid P (send_message io msg) Q"
  by (simp add: valid_def send_message_def split: send_outcome.splits)

lemma valid_close: "valid P (close_and_exit io e) Q"
  by (simp add: valid_def close_and_exit_def bind_def send_ignoring_def stop_with_def)

lemma valid_update:
  "(\<And>w. P w \<Longrightarrow> eh_last_error (f (own_health env w)) = None \<and>
      Q () (w\<lparr>w_health := (w_health w)((env_provider env, env_endpoint env) \<mapsto> f (own_health env w))\<rparr>)) \<Longrightarrow>
     valid P (update_health env f) Q"
  by (auto simp: valid_def update_health_def own_health_def health_update_short short_error_def)

lemma valid_weaken: "valid R m Q \<Longrightarrow> (\<And>w. P w \<Longrightarrow> R w) \<Longrightarrow> valid P m Q"
  by (simp add: valid_def)

lemma valid_const: "valid P m Q \<Longrightarrow> valid (\<lambda>w. P w \<and> C) m (\<lambda>x w. Q x w \<and> C)"
  by (auto simp: valid_def split: prod.splits sum.splits)

lemma valid_pre: "valid P m Q \<Longrightarrow> (\<And>x w. Q x w \<Longrightarrow> R x w) \<Longrightarrow> valid P m R"
  by (fastforce simp: valid_def split: prod.splits sum.splits)

lemmas valid_rules = valid_ret valid_modify valid_send valid_close valid_lift

lemma own_health_simps [simp]:
  "own_health env (w\<lparr>w_session := s\<rparr>) = own_health env w"
  "own_health env (w\<lparr>w_commands := c\<rparr>) = own_health env w"
  "own_health env (w\<lparr>w_desired := d\<rparr>) = own_health env w"
  "own_health env (w\<lparr>w_last_market_event := t\<rparr>) = own_health env w"
  "own_health env (w\<lparr>w_ack_deadline := dl\<rparr>) = own_health env w"
  "own_health env (w\<lparr>w_live := b\<rparr>) = own_health env w"
  "own_health env (w\<lparr>w_idle_after_commands := b\<rparr>) = own_health env w"
  "own_health env (w\<lparr>w_sent := ms\<rparr>) = own_health env w"
  "own_health env (w\<lparr>w_metrics := m\<rparr>) = own_health env w"
  "own_health env (w\<lparr>w_hub := hb\<rparr>) = own_health env w"
  "own_health env (w\<lparr>w_health := reg((env_provider env, env_endpoint env) \<mapsto> h)\<rparr>) = h"
  by (simp_all add: own_health_def)

lemma inv_frame [simp]:
  "base_inv env n (w\<lparr>w_session := s\<rparr>) = base_inv env n w"
  "base_inv env n (w\<lparr>w_sent := ms\<rparr>) = base_inv env n w"
  "base_inv env n (w\<lparr>w_metrics := m\<rparr>) = base_inv env n w"
  "base_inv env n (w\<lparr>w_hub := hb\<rparr>) = base_inv env n w"
  "base_inv env n (w\<lparr>w_last_market_event := t\<rparr>) = base_inv env n w"
  "conn_inv env (w\<lparr>w_session := s\<rparr>) = conn_inv env w"
  "conn_inv env (w\<lparr>w_sent := ms\<rparr>) = conn_inv env w"
  "conn_inv env (w\<lparr>w_metrics := m\<rparr>) = conn_inv env w"
  "conn_inv env (w\<lparr>w_hub := hb\<rparr>) = conn_inv env w"
  "conn_inv env (w\<lparr>w_last_market_event := t\<rparr>) = conn_inv env w"
  by (simp_all add: base_inv_def conn_inv_def)

lemma valid_process_events: "valid (conn_inv env) (process_events env es b) (\<lambda>_. conn_inv env)"
proof (induction es arbitrary: b)
  case Nil
  show ?case by (simp add: valid_ret)
next
  case (Cons e es)
  show ?case
  proof (cases "validate_event (env_lib env) e")
    case (Inl err)
    have "valid (conn_inv env) (count_invalid env) (\<lambda>_. conn_inv env)"
      unfolding count_invalid_def by (rule valid_modify) simp
    with Cons.IH show ?thesis by (simp add: Inl) (rule valid_bind)
  next
    case (Inr u)
    have "valid (\<lambda>w. conn_inv env w \<and> w = v) (accept_event env e) (\<lambda>_. conn_inv env)" for v
      unfolding accept_event_def by (rule valid_modify) (simp add: conn_inv_def base_inv_def)
    with Cons.IH show ?thesis by (simp add: Inr) (intro valid_with valid_bind)
  qed
qed

lemma conn_inv_last_event:
  assumes "conn_inv env w"
  shows "conn_inv env (w\<lparr>w_health := (w_health w)((env_provider env, env_endpoint env) \<mapsto>
    (own_health env w)\<lparr>eh_last_event_at_ms := t\<rparr>)\<rparr>)"
  using assms by (simp add: conn_inv_def base_inv_def)

lemma valid_process_text: "valid (conn_inv env) (process_text env io text) (\<lambda>_. conn_inv env)"
proof -
  have ev: "valid (conn_inv env) (bind (process_events env es False) (\<lambda>d.
      bind (run_if d (update_health env (\<lambda>h. h\<lparr>eh_last_event_at_ms := Some t\<rparr>))) (\<lambda>_.
      ret (if d then DemandedMarketEvent else OtherFrame)))) (\<lambda>_. conn_inv env)" for es t
    by (rule valid_bind [OF valid_process_events], rule valid_bind [where R = "\<lambda>_. conn_inv env"],
        intro valid_run_if valid_update)
      (auto simp: conn_inv_last_event intro: valid_ret, simp add: conn_inv_def base_inv_def)
  have bad: "valid (conn_inv env) (bind (count_invalid env) (\<lambda>_. ret OtherFrame)) (\<lambda>_. conn_inv env)"
    unfolding count_invalid_def
    by (rule valid_bind [where R = "\<lambda>_. conn_inv env"]) (auto intro: valid_modify valid_ret)
  show ?thesis
    unfolding valid_def
  proof (intro allI impI)
    fix w
    assume w: "conn_inv env w"
    obtain s r where p: "as_parse (env_adapter env) (w_session w) text (io_unix_ms io) = (s, r)" by force
    have w': "conn_inv env (w\<lparr>w_session := s\<rparr>)" using w by simp
    show "case process_text env io text w of (w', Inr x) \<Rightarrow> conn_inv env w' | (w', Inl st) \<Rightarrow> st \<noteq> Panicked"
    proof (cases r)
      case (Inl e)
      then show ?thesis
        using bad w' by (cases e) (simp_all add: process_text_def process_parsed_def p stop_with_def valid_def)
    next
      case (Inr f)
      then show ?thesis
        using ev w' by (cases f) (simp_all add: process_text_def process_parsed_def p ret_def valid_def)
    qed
  qed
qed

lemma conn_inv_ack:
  assumes "conn_inv env w" and "acknowledge (w_commands w) r = (c, Inr u)" and "readiness_complete c"
  shows "\<not> w_live w \<and> conn_inv env (w\<lparr>w_commands := c, w_ack_deadline := None,
    w_health := (w_health w)((env_provider env, env_endpoint env) \<mapsto>
      (own_health env w)\<lparr>eh_state := Live, eh_last_error := None\<rparr>), w_live := True\<rparr>)"
proof -
  have pend: "cmd_pending (w_commands w) r \<noteq> None"
    using assms(2) by (auto simp: acknowledge_def split: option.splits)
  then have "\<not> readiness_complete (w_commands w)" by (auto simp: readiness_complete_def)
  then have nl: "\<not> w_live w" using assms(1) by (auto simp: conn_inv_def)
  have "commands_inv c"
    using acknowledge_inv [of "w_commands w" r] assms(1,2) by (simp add: conn_inv_def base_inv_def)
  moreover have "cmd_queued (w_commands w) = cmd_queued c"
    using assms(2) by (auto simp: acknowledge_def Let_def split: option.splits if_splits)
  ultimately show ?thesis
    using assms(1,3) nl
    by (auto simp: conn_inv_def base_inv_def own_health_def readiness_complete_def has_queued_def)
qed

lemma conn_inv_ack_more:
  assumes "conn_inv env w" and "acknowledge (w_commands w) r = (c, Inr u)" and "\<not> readiness_complete c"
  shows "conn_inv env (w\<lparr>w_commands := c, w_ack_deadline := Some d\<rparr>)"
proof -
  have "cmd_pending (w_commands w) r \<noteq> None"
    using assms(2) by (auto simp: acknowledge_def split: option.splits)
  then have "\<not> readiness_complete (w_commands w)" by (auto simp: readiness_complete_def)
  then have nl: "\<not> w_live w" using assms(1) by (auto simp: conn_inv_def)
  have "commands_inv c"
    using acknowledge_inv [of "w_commands w" r] assms(1,2) by (simp add: conn_inv_def base_inv_def)
  moreover have "cmd_queued (w_commands w) = cmd_queued c"
    using assms(2) by (auto simp: acknowledge_def Let_def split: option.splits if_splits)
  ultimately show ?thesis
    using assms(1,3) nl by (auto simp: conn_inv_def base_inv_def own_health_def has_queued_def)
qed

lemma mark_live_eq:
  "mark_live env w = (w\<lparr>w_health := (w_health w)((env_provider env, env_endpoint env) \<mapsto>
     (own_health env w)\<lparr>eh_state := Live, eh_last_error := None\<rparr>)\<rparr>, Inr ())"
  by (simp add: mark_live_def update_health_def health_update_short short_error_def own_health_def)

lemma valid_handle_processed:
  "valid (conn_inv env) (handle_processed_frame env io f) (\<lambda>_. conn_inv env)"
proof (cases f)
  case (AcknowledgedFrame r)
  show ?thesis
    unfolding valid_def AcknowledgedFrame
  proof (intro allI impI)
    fix w
    assume w: "conn_inv env w"
    obtain c res where a: "acknowledge (w_commands w) r = (c, res)" by force
    show "case handle_processed_frame env io (AcknowledgedFrame r) w of
        (w', Inr x) \<Rightarrow> conn_inv env w' | (w', Inl s) \<Rightarrow> s \<noteq> Panicked"
    proof (cases res)
      case (Inl e)
      then show ?thesis by (simp add: bind_def acknowledge_request_def a)
    next
      case (Inr u)
      then show ?thesis
        using conn_inv_ack [OF w a [unfolded Inr]] conn_inv_ack_more [OF w a [unfolded Inr]]
        by (cases "readiness_complete c")
          (simp_all add: bind_def acknowledge_request_def a with_world_def modify_world_def run_if_def ret_def mark_live_eq)
    qed
  qed
qed (simp_all add: valid_ret)

lemma valid_send_heartbeat: "valid (conn_inv env) (send_heartbeat io hb) (\<lambda>_. conn_inv env)"
  by (cases hb) (simp_all add: valid_send)

lemma valid_handle_text: "valid (conn_inv env) (handle_text env io text) (\<lambda>_. conn_inv env)"
proof -
  have rest: "valid (conn_inv env) (bind (handle_processed_frame env io f) (\<lambda>m.
      run_if m (modify_world (\<lambda>w. w\<lparr>w_last_market_event := io_now io\<rparr>)))) (\<lambda>_. conn_inv env)" for f
    by (rule valid_bind [OF valid_handle_processed]) (auto intro!: valid_run_if valid_modify)
  show ?thesis
    unfolding handle_text_def
  proof (rule valid_bind [OF valid_process_text])
    show "valid (conn_inv env) (case f of ReplyFrame reply \<Rightarrow> send_heartbeat io reply
        | _ \<Rightarrow> bind (handle_processed_frame env io f) (\<lambda>m.
            run_if m (modify_world (\<lambda>w. w\<lparr>w_last_market_event := io_now io\<rparr>)))) (\<lambda>_. conn_inv env)" for f
      using rest [of f] by (cases f) (simp_all add: valid_send_heartbeat)
  qed
qed

lemma valid_handle_frame: "valid (conn_inv env) (handle_frame env io incoming) (\<lambda>_. conn_inv env)"
proof (cases incoming)
  case (Some r)
  show ?thesis
  proof (cases r)
    case (Inr msg)
    have bin: "valid (conn_inv env) (bind (lift_result x) (handle_text env io)) (\<lambda>_. conn_inv env)" for x
      by (rule valid_bind [where R = "\<lambda>_. conn_inv env"]) (auto intro: valid_lift valid_handle_text)
    show ?thesis
      unfolding handle_frame_def Some Inr option.case sum.case
      by (rule valid_bind [where R = "\<lambda>_. conn_inv env"], simp add: valid_modify)
        (cases msg; simp add: valid_handle_text bin valid_send valid_ret valid_stop)
  qed (simp add: handle_frame_def Some valid_stop)
qed (simp add: handle_frame_def valid_stop)

lemma conn_inv_ready_None: "conn_inv env w \<Longrightarrow> readiness_complete (w_commands w) \<Longrightarrow> w_ack_deadline w = None"
  by (simp add: conn_inv_def base_inv_def)

lemma valid_command_tick:
  "valid (\<lambda>w. conn_inv env w \<and> has_queued (w_commands w)) (handle_command_tick env io) (\<lambda>_. conn_inv env)"
  unfolding valid_def
proof (intro allI impI, elim conjE)
  fix w
  assume w: "conn_inv env w" and q: "has_queued (w_commands w)"
  obtain c cs where cq: "cmd_queued (w_commands w) = c # cs"
    using q by (cases "cmd_queued (w_commands w)") (auto simp: has_queued_def)
  have inv: "commands_inv (w_commands w)" using w by (simp add: conn_inv_def base_inv_def)
  have nl: "\<not> w_live w" using w q by (auto simp: conn_inv_def readiness_complete_def has_queued_def)
  define c2 where "c2 = fst (send_front (w_commands w))"
  have pop: "pop_front (w_commands w) = ((w_commands w)\<lparr>cmd_queued := cs\<rparr>, Some c)"
    by (simp add: pop_front_def cq)
  have ms: "mark_sent ((w_commands w)\<lparr>cmd_queued := cs\<rparr>) (qc_request_id c)
      (qc_expected_acknowledgements c) = (c2, Inr ())"
    using send_front_Cons [OF inv cq] by (auto simp: c2_def send_front_def pop)
  have c2: "commands_inv c2" "cmd_queued c2 = cs"
    using send_front_inv [OF inv q] send_front_Cons [OF inv cq] by (auto simp: c2_def)
  have dl: "cmd_pending c2 \<noteq> Map.empty \<Longrightarrow>
      0 < qc_expected_acknowledgements c \<or> cmd_pending (w_commands w) \<noteq> Map.empty"
    using send_front_Cons [OF inv cq] by (auto simp: c2_def split: if_splits)
  let ?dl = "if readiness_complete c2 then None else if 0 < qc_expected_acknowledgements c
      then Some (io_now io + ct_subscription_ack_timeout (env_target env)) else w_ack_deadline w"
  let ?w1 = "w\<lparr>w_sent := w_sent w @ [TextMsg (qc_text c)], w_commands := c2, w_ack_deadline := ?dl\<rparr>"
  let ?w2 = "if readiness_complete c2 then ?w1\<lparr>w_health := (w_health w)((env_provider env, env_endpoint env)
      \<mapsto> (own_health env w)\<lparr>eh_state := Live, eh_last_error := None\<rparr>), w_live := True\<rparr> else ?w1"
  have run: "handle_command_tick env io w = (w', Inr u) \<Longrightarrow>
      w' = ?w2 \<and> \<not> (w_idle_after_commands w \<and> \<not> has_queued c2)" for w' u
    by (cases "io_send io"; cases "readiness_complete c2"; cases "0 < qc_expected_acknowledgements c")
      (simp_all add: handle_command_tick_def send_command_def mark_command_sent_def pop bind_def send_message_def ms run_if_def ret_def
        modify_world_def with_world_def mark_live_eq close_and_exit_def send_ignoring_def stop_with_def
        split: if_splits)
  have no_panic: "handle_command_tick env io w = (w', Inl Panicked) \<Longrightarrow> False" for w'
    by (cases "io_send io"; cases "readiness_complete c2"; cases "0 < qc_expected_acknowledgements c")
      (simp_all add: handle_command_tick_def send_command_def mark_command_sent_def pop bind_def send_message_def ms run_if_def ret_def
        modify_world_def with_world_def mark_live_eq close_and_exit_def send_ignoring_def stop_with_def
        split: if_splits)
  have "conn_inv env ?w2" if "\<not> (w_idle_after_commands w \<and> \<not> has_queued c2)"
  proof (cases "readiness_complete c2")
    case True
    then show ?thesis
      using that w c2(1) by (simp add: conn_inv_def base_inv_def own_health_def readiness_complete_def)
  next
    case False
    then show ?thesis
      using that w c2(1) dl nl by (auto simp: conn_inv_def base_inv_def own_health_def)
  qed
  then show "case handle_command_tick env io w of (w', Inr x) \<Rightarrow> conn_inv env w' | (w', Inl s) \<Rightarrow> s \<noteq> Panicked"
    using run no_panic by (cases "handle_command_tick env io w") (auto split: sum.splits)
qed

lemma valid_handle_heartbeat: "valid (conn_inv env) (handle_heartbeat env io) (\<lambda>_. conn_inv env)"
  unfolding valid_def
proof (intro allI impI)
  fix w
  assume w: "conn_inv env w"
  obtain s hb where hb: "as_heartbeat (env_adapter env) (w_session w) = (s, hb)" by force
  have "conn_inv env (w\<lparr>w_session := s\<rparr>)" using w by simp
  then show "case handle_heartbeat env io w of (w', Inr x) \<Rightarrow> conn_inv env w' | (w', Inl st) \<Rightarrow> st \<noteq> Panicked"
    using valid_send_heartbeat [of env io hb] by (simp add: handle_heartbeat_def hb valid_def)
qed

lemma queue_diff_cases:
  assumes "queue_subscription_diff env action subs w = (w', Inr u)"
  obtains "subs = []" "w' = w"
  | s cmds where "subs \<noteq> []" "as_subscription_messages (env_adapter env) (w_session w) action subs = (s, Inr cmds)"
      "snd (enqueue (w_commands w) cmds) = Inr ()"
      "w' = w\<lparr>w_session := s, w_commands := fst (enqueue (w_commands w) cmds)\<rparr>"
  using assms
  by (auto simp: queue_subscription_diff_def split: if_splits prod.splits sum.splits)

lemma queue_diff_no_panic: "queue_subscription_diff env action subs w \<noteq> (w', Inl Panicked)"
  by (auto simp: queue_subscription_diff_def split: prod.splits sum.splits)

lemma base_inv_enqueue:
  assumes "base_inv env n w"
  shows "base_inv env n (w\<lparr>w_session := s, w_commands := fst (enqueue (w_commands w) cmds)\<rparr>)"
proof -
  have "readiness_complete (w_commands w)" if "readiness_complete (fst (enqueue (w_commands w) cmds))"
    using that enqueue_frame [of "w_commands w" cmds] by (auto simp: readiness_complete_def)
  then show ?thesis
    using assms enqueue_inv [of "w_commands w" cmds]
    by (auto simp: base_inv_def enqueue_frame(1) own_health_def)
qed

text \<open>What queueing a difference keeps, and that a non-empty one leaves something queued.\<close>

definition diff_inv :: "('s, 'ch) env \<Rightarrow> ('s, 'ch) world \<Rightarrow> nat \<Rightarrow> bool \<Rightarrow> ('s, 'ch) world \<Rightarrow> bool" where
  "diff_inv env v n changed w \<longleftrightarrow> base_inv env n w \<and>
     (\<not> changed \<longrightarrow> w = v) \<and>
     (commands_for_changes (env_adapter env) \<longrightarrow> changed \<longrightarrow> has_queued (w_commands w))"

lemma valid_queue_diff:
  "valid (diff_inv env v n b) (queue_subscription_diff env action subs)
     (\<lambda>_. diff_inv env v n (b \<or> subs \<noteq> []))"
proof (rule validI)
  fix w w' u
  assume w: "diff_inv env v n b w" and "queue_subscription_diff env action subs w = (w', Inr u)"
  from this(2) show "diff_inv env v n (b \<or> subs \<noteq> []) w'"
  proof (cases rule: queue_diff_cases)
    case 1
    then show ?thesis using w by simp
  next
    case (2 s cmds)
    have "has_queued (w_commands w')" if "commands_for_changes (env_adapter env)"
      using that 2(1,2) enqueue_ok_queued [OF 2(3)]
      by (auto simp: commands_for_changes_def has_queued_def 2(4))
    then show ?thesis
      using w base_inv_enqueue [where env = env and n = n and w = w and s = s and cmds = cmds] 2(1,4) by (auto simp: diff_inv_def)
  qed
qed (simp add: queue_diff_no_panic)

lemma valid_handle_desired:
  assumes "case changed of None \<Rightarrow> True | Some snapshot \<Rightarrow> finite snapshot"
  shows "valid (conn_inv env) (handle_desired_changed env io changed) (\<lambda>_. conn_inv env)"
proof (cases changed)
  case None
  then show ?thesis by (simp add: handle_desired_changed_def valid_stop)
next
  case (Some snapshot)
  define nx where "nx = filter_desired (env_adapter env) (env_endpoint env) snapshot"
  have fin: "finite nx" using assms Some by (simp add: nx_def filter_desired_def)
  let ?P = "\<lambda>w. base_inv env (card nx) w \<and> finite (w_desired w) \<and>
      (w_live w \<longrightarrow> readiness_complete (w_commands w)) \<and>
      (commands_for_changes (env_adapter env) \<longrightarrow> \<not> w_live w \<longrightarrow> \<not> readiness_complete (w_commands w))"
  have upd: "valid (conn_inv env) (update_desired_metrics env (card nx)) (\<lambda>_. ?P)"
    unfolding update_desired_metrics_def
    by (rule valid_bind [where R = "\<lambda>_. conn_inv env"], simp add: valid_modify, rule valid_update)
      (simp add: conn_inv_def base_inv_def)
  show ?thesis
    unfolding handle_desired_changed_def Some option.case nx_def [symmetric] Let_def
  proof (rule valid_bind [OF upd], rule valid_with)
    fix v :: "('a, 'b) world"
    let ?removed = "sorted_list_of_set (w_desired v - nx)"
    let ?added = "sorted_list_of_set (nx - w_desired v)"
    let ?changed = "?removed \<noteq> [] \<or> ?added \<noteq> []"
    let ?S = "\<lambda>w. base_inv env (card nx) w \<and> (w_live w \<longrightarrow> readiness_complete (w_commands w)) \<and>
        (commands_for_changes (env_adapter env) \<longrightarrow> \<not> w_live w \<longrightarrow> \<not> readiness_complete (w_commands w))"
    let ?T = "\<lambda>w. ?S w \<and> w_desired w = nx \<and> (w_idle_after_commands w \<longleftrightarrow> nx = {})"
    have fin_pre: "valid (\<lambda>w. ?P w \<and> w = v) (queue_subscription_diff env Unsubscribe ?removed)
        (\<lambda>_ w. diff_inv env v (card nx) (?removed \<noteq> []) w \<and> ?P v)"
    proof (rule valid_weaken)
      show "valid (\<lambda>w. diff_inv env v (card nx) False w \<and> ?P v)
          (queue_subscription_diff env Unsubscribe ?removed)
          (\<lambda>_ w. diff_inv env v (card nx) (?removed \<noteq> []) w \<and> ?P v)"
        using valid_const [OF valid_queue_diff [of env v "card nx" False Unsubscribe ?removed]] by simp
      show "diff_inv env v (card nx) False w \<and> ?P v" if "?P w \<and> w = v" for w
        using that by (auto simp: diff_inv_def)
    qed
    have add: "valid (\<lambda>w. diff_inv env v (card nx) (?removed \<noteq> []) w \<and> ?P v)
        (queue_subscription_diff env Subscribe ?added)
        (\<lambda>_ w. diff_inv env v (card nx) ?changed w \<and> ?P v)"
      by (rule valid_const [OF valid_queue_diff])
    have mark: "valid (\<lambda>w. diff_inv env v (card nx) ?changed w \<and> ?P v)
        (run_if ?changed (bind (modify_world (\<lambda>w. w\<lparr>w_live := False\<rparr>)) (\<lambda>_.
          update_health env (\<lambda>h. h\<lparr>eh_state := Connecting, eh_last_error := None\<rparr>)))) (\<lambda>_. ?S)"
      by (simp add: valid_def run_if_def ret_def bind_def modify_world_def update_health_def
          health_update_short short_error_def)
        (auto simp: diff_inv_def base_inv_def own_health_def has_queued_def readiness_complete_def)
    have set_next: "valid ?S (modify_world (\<lambda>w. w\<lparr>w_desired := nx, w_idle_after_commands := (nx = {})\<rparr>)) (\<lambda>_. ?T)"
      by (rule valid_modify) (simp add: base_inv_def own_health_def)
    have finish: "valid ?T (with_world (\<lambda>w. run_if (w_idle_after_commands w \<and> \<not> has_queued (w_commands w))
        (close_and_exit io ExitIdle))) (\<lambda>_. conn_inv env)"
      by (rule valid_with, rule valid_run_if, rule valid_close)
        (use fin in \<open>auto simp: conn_inv_def\<close>)
    show "valid (\<lambda>w. ?P w \<and> w = v) (bind (queue_subscription_diff env Unsubscribe ?removed) (\<lambda>_.
        bind (queue_subscription_diff env Subscribe ?added) (\<lambda>_.
        bind (run_if ?changed (bind (modify_world (\<lambda>w. w\<lparr>w_live := False\<rparr>)) (\<lambda>_.
          update_health env (\<lambda>h. h\<lparr>eh_state := Connecting, eh_last_error := None\<rparr>)))) (\<lambda>_.
        bind (modify_world (\<lambda>w. w\<lparr>w_desired := nx, w_idle_after_commands := (nx = {})\<rparr>)) (\<lambda>_.
        with_world (\<lambda>w. run_if (w_idle_after_commands w \<and> \<not> has_queued (w_commands w))
          (close_and_exit io ExitIdle))))))) (\<lambda>_. conn_inv env)"
      by (rule valid_bind [OF fin_pre], rule valid_bind [OF add], rule valid_bind [OF mark],
          rule valid_bind [OF set_next], rule finish)
  qed
qed

lemma valid_start:
  assumes "desired \<noteq> {}" and "finite desired"
  shows "valid (\<lambda>w. eh_desired_subscriptions (own_health env w) = card desired)
    (start_connection env outcome io desired) (\<lambda>_. conn_inv env)"
proof (cases outcome)
  case Connected
  define R where "R w \<longleftrightarrow> commands_inv (w_commands w) \<and> cmd_pending (w_commands w) = Map.empty \<and>
      (commands_for_changes (env_adapter env) \<longrightarrow> has_queued (w_commands w)) \<and>
      eh_desired_subscriptions (own_health env w) = card desired \<and> w_desired w = desired \<and>
      w_ack_deadline w = None \<and> \<not> w_live w \<and> \<not> w_idle_after_commands w" for w :: "('a, 'b) world"
  let ?I = "\<lambda>w. w_commands w = default_commands \<and> w_ack_deadline w = None \<and> \<not> w_live w \<and>
      w_desired w = desired \<and> \<not> w_idle_after_commands w \<and>
      eh_desired_subscriptions (own_health env w) = card desired"
  have ne: "sorted_list_of_set desired \<noteq> []" using assms by simp
  have queue: "valid ?I (queue_subscription_diff env Subscribe (sorted_list_of_set desired)) (\<lambda>_. R)"
  proof (rule validI)
    fix w w' :: "('a, 'b) world" and u
    assume w: "?I w" and "queue_subscription_diff env Subscribe (sorted_list_of_set desired) w = (w', Inr u)"
    from this(2) show "R w'"
    proof (cases rule: queue_diff_cases)
      case (2 s cmds)
      then have "commands_for_changes (env_adapter env) \<Longrightarrow> cmds \<noteq> []"
        unfolding commands_for_changes_def by blast
      then show ?thesis
        using w enqueue_ok_queued [OF 2(3)] enqueue_inv [OF default_commands_inv, of cmds]
        by (auto simp: R_def 2(4) enqueue_frame(1) own_health_def has_queued_def default_commands_def)
    qed (use ne in simp)
  qed (simp add: queue_diff_no_panic)
  have opened: "valid R (modify_world (\<lambda>w. w\<lparr>w_metrics := (w_metrics w)\<lparr>mx_upstream_connections :=
      (mx_upstream_connections (w_metrics w))(env_labels env := 1)\<rparr>\<rparr>)) (\<lambda>_. R)"
    by (rule valid_modify) (simp add: R_def)
  let ?h = "\<lambda>h. h\<lparr>eh_state := Connecting, eh_connection_epoch := Some (env_epoch env),
      eh_connected_at_ms := Some (io_unix_ms io), eh_last_event_at_ms := None, eh_last_error := None\<rparr>"
  let ?S = "\<lambda>w. R w \<and> base_inv env (card desired) w"
  have health: "valid R (update_health env ?h) (\<lambda>_. ?S)"
    by (rule valid_update) (simp add: R_def base_inv_def)
  have ready: "valid ?S (with_world (\<lambda>w. run_if (readiness_complete (w_commands w))
      (bind (mark_live env) (\<lambda>_. modify_world (\<lambda>w. w\<lparr>w_live := True\<rparr>))))) (\<lambda>_. conn_inv env)"
    using assms
    by (auto simp: valid_def with_world_def run_if_def ret_def bind_def mark_live_eq modify_world_def
        conn_inv_def base_inv_def R_def own_health_def)
  note body = valid_bind [OF queue valid_bind [OF opened valid_bind [OF health ready]]]
  show ?thesis
    unfolding valid_def
  proof (intro allI impI)
    fix w :: "('a, 'b) world"
    let ?w = "w\<lparr>w_session := ad_session (env_adapter env) (env_endpoint env) (env_epoch env),
        w_commands := default_commands, w_desired := desired, w_last_market_event := io_now io,
        w_ack_deadline := None, w_live := False, w_idle_after_commands := False, w_sent := []\<rparr>"
    assume "eh_desired_subscriptions (own_health env w) = card desired"
    then have "?I ?w" by (simp add: own_health_def)
    from validE [OF body this] show "case start_connection env outcome io desired w of
        (w', Inr x) \<Rightarrow> conn_inv env w' | (w', Inl s) \<Rightarrow> s \<noteq> Panicked"
      unfolding start_connection_def Connected connect_outcome.case .
  qed
qed (simp_all add: start_connection_def valid_def)

section \<open>The loop as a transition system\<close>

inductive conn_turn :: "('s, 'ch) env \<Rightarrow> ('s, 'ch) world \<Rightarrow> ('s, 'ch) world \<Rightarrow> bool" for env where
  conn_turnI: "branch_enabled env io b w \<Longrightarrow> (\<And>snapshot. b = DesiredChanged (Some snapshot) \<Longrightarrow> finite snapshot) \<Longrightarrow>
    conn_step env io b w = (w', Inr ()) \<Longrightarrow> conn_turn env w w'"

definition conn_started :: "('s, 'ch) env \<Rightarrow> ('s, 'ch) world \<Rightarrow> bool" where
  "conn_started env w \<longleftrightarrow> (\<exists>io desired w0. desired \<noteq> {} \<and> finite desired \<and>
     eh_desired_subscriptions (own_health env w0) = card desired \<and>
     start_connection env Connected io desired w0 = (w, Inr ()))"

lemma valid_conn_step:
  assumes "\<And>snapshot. b = DesiredChanged (Some snapshot) \<Longrightarrow> finite snapshot"
  shows "valid (\<lambda>w. conn_inv env w \<and> branch_enabled env io b w) (conn_step env io b) (\<lambda>_. conn_inv env)"
proof (cases b)
  case CommandTick
  then show ?thesis using valid_command_tick [of env io] by (simp add: branch_enabled_def)
next
  case (DesiredChanged changed)
  then have "case changed of None \<Rightarrow> True | Some snapshot \<Rightarrow> finite snapshot"
    using assms by (simp split: option.splits)
  from valid_handle_desired [OF this] show ?thesis
    unfolding DesiredChanged conn_step.simps by (rule valid_weaken) simp
qed (auto intro: valid_weaken [OF valid_handle_frame] valid_weaken [OF valid_handle_heartbeat] valid_close valid_stop)

interpretation cn: invariant_system "conn_started env" "conn_turn env" "conn_inv env"
proof
  show "conn_inv env w" if "conn_started env w" for w
    using that validD(1) [OF valid_start] unfolding conn_started_def by blast
  show "conn_inv env w'" if "conn_inv env w" "conn_turn env w w'" for w w'
    using that(2,1) by cases (use validD(1) [OF valid_conn_step] in blast)
qed

section \<open>Frames and demand\<close>

abbreviation well_formed :: "('s, 'ch) env \<Rightarrow> provider_event \<Rightarrow> bool" where
  "well_formed env e \<equiv> validate_event (env_lib env) e = Inr ()"

lemma process_events_effect:
  "\<exists>w'. process_events env es b w = (w', Inr (b \<or> (\<exists>e \<in> set es. well_formed env e \<and> event_key e \<in> w_desired w))) \<and>
     w_hub w' = publish_all (env_try_send env) (filter (well_formed env) es) (w_hub w) \<and>
     mx_normalized_events (w_metrics w') (env_labels env) = mx_normalized_events (w_metrics w) (env_labels env) +
       of_nat (length (filter (well_formed env) es)) \<and>
     mx_invalid_frames (w_metrics w') (env_labels env) = mx_invalid_frames (w_metrics w) (env_labels env) +
       of_nat (length (filter (\<lambda>e. \<not> well_formed env e) es)) \<and>
     w' = w\<lparr>w_metrics := w_metrics w', w_hub := w_hub w'\<rparr>"
proof (induction es arbitrary: b w)
  case Nil
  then show ?case by (simp add: ret_def publish_all_def)
next
  case (Cons e es)
  let ?l = "env_labels env"
  show ?case
  proof (cases "validate_event (env_lib env) e")
    case (Inl err)
    let ?w = "w\<lparr>w_metrics := (w_metrics w)\<lparr>mx_invalid_frames := inc (mx_invalid_frames (w_metrics w)) ?l\<rparr>\<rparr>"
    have "process_events env (e # es) b w = process_events env es b ?w"
      by (simp add: Inl bind_def count_invalid_def modify_world_def)
    with Cons.IH [of b ?w] show ?thesis by (auto simp: Inl inc_def algebra_simps)
  next
    case (Inr u)
    let ?w = "w\<lparr>w_metrics := (w_metrics w)\<lparr>mx_normalized_events := inc (mx_normalized_events (w_metrics w)) ?l\<rparr>,
        w_hub := fst (publish (env_try_send env) (w_hub w) e)\<rparr>"
    have "process_events env (e # es) b w = process_events env es (b \<or> event_key e \<in> w_desired w) ?w"
      by (simp add: Inr bind_def with_world_def accept_event_def modify_world_def)
    with Cons.IH [of "b \<or> event_key e \<in> w_desired w" ?w] show ?thesis
      by (auto simp: Inr inc_def publish_all_def algebra_simps)
  qed
qed

section \<open>Properties\<close>

text \<open>
  (C14) The connection loop never panics and keeps its bookkeeping: in every state a connection
  reaches, the command bookkeeping is consistent, the endpoint is reported with this connection's
  epoch and demand and as live or connecting in step with the loop, whenever an acknowledgement
  is pending the acknowledgement deadline is armed, a connection with nothing outstanding has no
  deadline, and a connection without demand still has commands to send.
\<close>

theorem connection_consistent:
  assumes "reachable (conn_started env) (conn_turn env) w" and "branch_enabled env io b w"
    and "\<And>snapshot. b = DesiredChanged (Some snapshot) \<Longrightarrow> finite snapshot"
  shows "conn_inv env w \<and> snd (conn_step env io b w) \<noteq> Inl Panicked"
proof -
  have inv: "conn_inv env w" by (rule cn.reachable_inv [OF assms(1)])
  moreover have "conn_step env io b w \<noteq> (w', Inl Panicked)" for w'
    using validD(2) [OF valid_conn_step [OF assms(3)]] inv assms(2) by blast
  ultimately show ?thesis by (metis prod.collapse)
qed


lemma process_text_events:
  assumes "conn_inv env w"
    and "as_parse (env_adapter env) (w_session w) text (io_unix_ms io) = (s, Inr (Events es))"
  shows "\<exists>w'. process_text env io text w =
      (w', Inr (if \<exists>e \<in> set es. well_formed env e \<and> event_key e \<in> w_desired w then DemandedMarketEvent else OtherFrame)) \<and>
    w_hub w' = publish_all (env_try_send env) (filter (well_formed env) es) (w_hub w) \<and>
    mx_normalized_events (w_metrics w') (env_labels env) = mx_normalized_events (w_metrics w) (env_labels env) +
      of_nat (length (filter (well_formed env) es)) \<and>
    mx_invalid_frames (w_metrics w') (env_labels env) = mx_invalid_frames (w_metrics w) (env_labels env) +
      of_nat (length (filter (\<lambda>e. \<not> well_formed env e) es)) \<and>
    ((\<exists>e \<in> set es. well_formed env e \<and> event_key e \<in> w_desired w) \<longrightarrow>
      eh_last_event_at_ms (own_health env w') = Some (io_unix_ms io))"
proof -
  let ?d = "\<exists>e \<in> set es. well_formed env e \<and> event_key e \<in> w_desired w"
  obtain w1 where w1: "process_events env es False (w\<lparr>w_session := s\<rparr>) = (w1, Inr ?d)"
    "w_hub w1 = publish_all (env_try_send env) (filter (well_formed env) es) (w_hub w)"
    "mx_normalized_events (w_metrics w1) (env_labels env) = mx_normalized_events (w_metrics w) (env_labels env) +
      of_nat (length (filter (well_formed env) es))"
    "mx_invalid_frames (w_metrics w1) (env_labels env) = mx_invalid_frames (w_metrics w) (env_labels env) +
      of_nat (length (filter (\<lambda>e. \<not> well_formed env e) es))"
    using process_events_effect [of env es False "w\<lparr>w_session := s\<rparr>"] by auto
  have "conn_inv env w1"
    by (rule validD(1) [OF valid_process_events _ w1(1)]) (simp add: assms(1))
  then have "eh_last_error (own_health env w1) = None" by (simp add: conn_inv_def base_inv_def)
  then have upd: "update_health env (\<lambda>h. h\<lparr>eh_last_event_at_ms := t\<rparr>) w1 =
      (w1\<lparr>w_health := (w_health w1)((env_provider env, env_endpoint env) \<mapsto>
        (own_health env w1)\<lparr>eh_last_event_at_ms := t\<rparr>)\<rparr>, Inr ())" for t
    by (simp add: update_health_def health_update_short short_error_def own_health_def)
  show ?thesis
    by (cases ?d) (simp_all add: process_text_def process_parsed_def assms(2) bind_def w1 run_if_def ret_def upd, blast)
qed

text \<open>
  (C15) A frame of market events: exactly the events that pass validation are published, in the
  order of the frame and each once; the counters of accepted and rejected events grow by their
  numbers; the frame counts as market data (which defers the staleness cut-off and stamps the
  endpoint) exactly when one of the accepted events is for a key this connection wants.
\<close>

theorem frame_events_published:
  assumes "conn_inv env w"
    and "as_parse (env_adapter env) (w_session w) text (io_unix_ms io) = (s, Inr (Events es))"
  shows "\<exists>w'. process_text env io text w =
      (w', Inr (if \<exists>e \<in> set es. well_formed env e \<and> event_key e \<in> w_desired w then DemandedMarketEvent else OtherFrame)) \<and>
    w_hub w' = publish_all (env_try_send env) (filter (well_formed env) es) (w_hub w) \<and>
    mx_normalized_events (w_metrics w') (env_labels env) = mx_normalized_events (w_metrics w) (env_labels env) +
      of_nat (length (filter (well_formed env) es)) \<and>
    mx_invalid_frames (w_metrics w') (env_labels env) = mx_invalid_frames (w_metrics w) (env_labels env) +
      of_nat (length (filter (\<lambda>e. \<not> well_formed env e) es)) \<and>
    ((\<exists>e \<in> set es. well_formed env e \<and> event_key e \<in> w_desired w) \<longrightarrow>
      eh_last_event_at_ms (own_health env w') = Some (io_unix_ms io))"
  by (rule process_text_events [OF assms])


text \<open>
  Demand is divided among the endpoints of a provider: each desired key of the provider is
  handled by exactly one of its endpoints, provided the adapter lists every endpoint it routes
  channels to, and no endpoint subscribes to a key that is not desired or not its provider's.
\<close>

theorem filter_desired_partition:
  assumes "\<forall>ch. ad_endpoint_for ad ch \<in> set (ad_endpoints ad)"
  shows "(\<Union>e \<in> set (ad_endpoints ad). filter_desired ad e snapshot) =
      {k \<in> snapshot. key_provider k = ad_provider ad} \<and>
    (\<forall>e f. e \<noteq> f \<longrightarrow> filter_desired ad e snapshot \<inter> filter_desired ad f snapshot = {})"
  using assms by (auto simp: filter_desired_def)


subsection \<open>Witnesses\<close>

text \<open>An adapter that numbers its commands, expects one acknowledgement and parses one event frame.\<close>

definition sample_messages ::
  "nat \<Rightarrow> subscription_action \<Rightarrow> sub_key list \<Rightarrow> nat \<times> (adapter_error + outbound_command list)" where
  "sample_messages n action subs = (Suc n, Inr [\<lparr>oc_request_id = replicate (Suc n) (CHR ''r''),
     oc_text = ''subscribe'', oc_expected_acknowledgements = 1\<rparr>])"

definition sample_adapter :: "nat adapter" where
  "sample_adapter = \<lparr>ad_provider = Bybit, ad_endpoints = [Primary], ad_endpoint_for = (\<lambda>_. Primary),
     ad_max_subscriptions = 1000, ad_session = (\<lambda>_ _. 0), as_subscription_messages = sample_messages,
     as_heartbeat = (\<lambda>s. (s, HeartbeatText ''ping'')),
     as_parse = (\<lambda>s text t. (s, Inr (if text = ''event'' then Events [sample_event] else Acknowledgement text)))\<rparr>"

definition sample_target :: connection_target where
  "sample_target = \<lparr>ct_url = ''wss://example'', ct_command_interval = 1, ct_subscription_ack_timeout = 10,
     ct_heartbeat_interval = 20, ct_stale_after = 60, ct_max_message_bytes = 1000, ct_rotate_after = None\<rparr>"

definition sample_env :: "(nat, nat \<times> market_event list) env" where
  "sample_env = \<lparr>env_lib = sample_lib, env_adapter = sample_adapter, env_endpoint = Primary,
     env_target = sample_target, env_epoch = 9, env_try_send = sample_try_send,
     env_gunzip_take = (\<lambda>n bytes. Inr (take n bytes)), env_utf8 = (\<lambda>_. True)\<rparr>"

definition sample_io :: io where
  "sample_io = \<lparr>io_now = 100, io_unix_ms = 5, io_send = Sent\<rparr>"

definition sample_world0 :: "(nat, nat \<times> market_event list) world" where
  "sample_world0 = \<lparr>w_session = 0, w_commands = default_commands, w_desired = {}, w_last_market_event = 0,
     w_ack_deadline = None, w_live = False, w_idle_after_commands = False, w_sent = [],
     w_health = [(Bybit, Primary) \<mapsto> (new_endpoint_health Bybit Primary)\<lparr>eh_desired_subscriptions := 1\<rparr>],
     w_metrics = new_metrics, w_hub = sample_routed\<rparr>"

definition sample_open :: "(nat, nat \<times> market_event list) world" where
  "sample_open = fst (start_connection sample_env Connected sample_io {sample_key Ticker} sample_world0)"

lemmas sample_defs = sample_env_def sample_adapter_def sample_messages_def sample_io_def sample_world0_def

lemma sample_open_eq:
  "start_connection sample_env Connected sample_io {sample_key Ticker} sample_world0 = (sample_open, Inr ())"
  by (simp add: sample_open_def start_connection_def bind_def queue_subscription_diff_def sample_defs
      modify_world_def update_health_def health_update_short short_error_def with_world_def
      run_if_def ret_def readiness_complete_def default_commands_def)

lemma sample_open_reachable: "reachable (conn_started sample_env) (conn_turn sample_env) sample_open"
proof (rule reachable_start)
  have "eh_desired_subscriptions (own_health sample_env sample_world0) = card {sample_key Ticker}"
    by (simp add: own_health_def sample_defs health_entry_def)
  then show "conn_started sample_env sample_open"
    unfolding conn_started_def using sample_open_eq by (intro exI [of _ sample_io] exI [of _ "{sample_key Ticker}"] exI [of _ sample_world0]) auto
qed

lemma sample_open_fields:
  "cmd_queued (w_commands sample_open) \<noteq> []" "w_desired sample_open = {sample_key Ticker}"
  "w_session sample_open = 1"
  by (simp_all add: sample_open_def start_connection_def bind_def queue_subscription_diff_def sample_defs
      modify_world_def update_health_def health_update_short short_error_def with_world_def
      run_if_def ret_def readiness_complete_def default_commands_def)

theorem connection_consistent_witness:
  "branch_enabled sample_env sample_io CommandTick sample_open \<and> conn_inv sample_env sample_open \<and>
     snd (conn_step sample_env sample_io CommandTick sample_open) \<noteq> Inl Panicked"
proof -
  have "branch_enabled sample_env sample_io CommandTick sample_open"
    by (simp add: branch_enabled_def has_queued_def sample_open_fields)
  with connection_consistent [OF sample_open_reachable this] show ?thesis by blast
qed


theorem frame_events_published_witness:
  "\<exists>w'. process_text sample_env sample_io ''event'' sample_open = (w', Inr OtherFrame) \<and>
     w_hub w' = w_hub sample_open"
proof -
  have inv: "conn_inv sample_env sample_open" by (rule cn.reachable_inv [OF sample_open_reachable])
  have parse: "as_parse (env_adapter sample_env) (w_session sample_open) ''event'' (io_unix_ms sample_io) =
      (1, Inr (Events [sample_event]))"
    by (simp add: sample_defs sample_open_fields)
  have "\<not> well_formed sample_env sample_event"
    by (simp add: sample_event_def validate_event_def validate_ticker_def default_ticker_def
        check_crossed_def has_price_def and_then_def)
  with frame_events_published [OF inv parse] show ?thesis by (auto simp: publish_all_def)
qed


theorem filter_desired_partition_witness:
  "(\<Union>e \<in> {Primary}. filter_desired sample_adapter e {sample_key Ticker}) = {sample_key Ticker}"
proof -
  have "\<forall>ch. ad_endpoint_for sample_adapter ch \<in> set (ad_endpoints sample_adapter)"
    by (simp add: sample_adapter_def)
  from filter_desired_partition [OF this, of "{sample_key Ticker}"] show ?thesis
    by (auto simp: sample_adapter_def sample_key_def)
qed

end
