(* ===== verification/Sessions.thy ===== *)
theory Sessions
  imports Json Connection
begin

text \<open>
  What the venue adapters share: the iterator idioms they build commands with (\<open>chunks\<close>, a
  \<open>HashSet\<close> that keeps first occurrences, a \<open>map\<close> whose closure changes the session), the
  field readers several of them repeat, each taking the adapter's own error constructor, and the
  contract \<open>adapter_session\<close> between a venue session and the connection loop. The contract's
  consequences for the loop are proved once here and hold for every adapter that is shown to meet
  it.
\<close>

section \<open>Iterators\<close>

text \<open>\<open>slice::chunks\<close>; every chunk size in the program is a positive constant.\<close>

function chunks :: "nat \<Rightarrow> 'a list \<Rightarrow> 'a list list" where
  "chunks n xs = (if xs = [] \<or> n = 0 then [] else take n xs # chunks n (drop n xs))"
  by auto
termination by (relation "measure (\<lambda>(n, xs). length xs)") auto

declare chunks.simps [simp del]

text \<open>\<open>if seen.insert(x) { out.push(x) }\<close>\<close>

fun first_occurrences :: "'a set \<Rightarrow> 'a list \<Rightarrow> 'a list" where
  "first_occurrences seen [] = []"
| "first_occurrences seen (x # xs) =
     (if x \<in> seen then first_occurrences seen xs
      else x # first_occurrences (insert x seen) xs)"

fun map_state :: "('s \<Rightarrow> 'x \<Rightarrow> 's \<times> 'c) \<Rightarrow> 's \<Rightarrow> 'x list \<Rightarrow> 's \<times> 'c list" where
  "map_state f s [] = (s, [])"
| "map_state f s (x # xs) =
     (case f s x of (s', c) \<Rightarrow> (case map_state f s' xs of (s'', cs) \<Rightarrow> (s'', c # cs)))"

text \<open>\<open>for k in subscriptions { if unsubscribing a ticker { tickers.remove(..) } }\<close>\<close>

definition forget_tickers ::
  "subscription_action \<Rightarrow> sub_key list \<Rightarrow> (string \<rightharpoonup> ticker) \<Rightarrow> string \<rightharpoonup> ticker" where
  "forget_tickers action subs tickers =
     (if action = Unsubscribe
      then fold (\<lambda>k m. if key_channel k = Ticker then m(key_symbol k := None) else m) subs tickers
      else tickers)"

definition cached_ticker :: "(string \<rightharpoonup> ticker) \<Rightarrow> string \<Rightarrow> ticker" where
  "cached_ticker tickers symbol = (case tickers symbol of Some t \<Rightarrow> t | None \<Rightarrow> default_ticker)"

text \<open>\<open>str::split(c)\<close> and \<open>[..].join(sep)\<close>\<close>

fun split_on :: "char \<Rightarrow> string \<Rightarrow> string list" where
  "split_on c [] = [[]]"
| "split_on c (x # xs) =
     (if x = c then [] # split_on c xs
      else case split_on c xs of [] \<Rightarrow> [[x]] | p # ps \<Rightarrow> (x # p) # ps)"

fun join_with :: "string \<Rightarrow> string list \<Rightarrow> string" where
  "join_with sep [] = []"
| "join_with sep [x] = x"
| "join_with sep (x # y # ys) = x @ sep @ join_with sep (y # ys)"

section \<open>Field readers\<close>

fun is_null :: "json \<Rightarrow> bool" where
  "is_null JNull = True"
| "is_null _ = False"

definition required_object :: "(string \<Rightarrow> adapter_error) \<Rightarrow> json \<Rightarrow> string \<Rightarrow> adapter_error + json" where
  "required_object invalid v field =
     ok_or (invalid (field @ '' must be an object'')) (Option.bind (js_get v field) js_as_object)"

definition non_empty_str :: "json \<Rightarrow> string option" where
  "non_empty_str v = (case js_as_str v of Some s \<Rightarrow> if s = [] then None else Some s | None \<Rightarrow> None)"

definition required_string :: "(string \<Rightarrow> adapter_error) \<Rightarrow> json \<Rightarrow> string \<Rightarrow> adapter_error + string" where
  "required_string invalid v field =
     ok_or (invalid (field @ '' must be a non-empty string'')) (Option.bind (js_get v field) non_empty_str)"

definition required_value :: "(string \<Rightarrow> adapter_error) \<Rightarrow> json \<Rightarrow> string \<Rightarrow> adapter_error + json" where
  "required_value invalid v field = ok_or (invalid (''missing '' @ field)) (js_get v field)"

definition adapter_decimal ::
  "ext \<Rightarrow> json_lib \<Rightarrow> (string \<Rightarrow> adapter_error) \<Rightarrow> string \<Rightarrow> string \<Rightarrow> adapter_error + decimal_value" where
  "adapter_decimal E J invalid v field =
     map_err (\<lambda>e. invalid (''invalid '' @ field @ '' '' @ fmt_debug J v @ '': '' @ domain_error_text e))
       (new_decimal_value E v)"

definition adapter_observation ::
  "ext \<Rightarrow> json_lib \<Rightarrow> (string \<Rightarrow> adapter_error) \<Rightarrow> string \<Rightarrow> u64 \<Rightarrow> string \<Rightarrow> adapter_error + observed_decimal" where
  "adapter_observation E J invalid v observed_at_ms field =
     map_err (\<lambda>e. invalid (''invalid '' @ field @ '' '' @ fmt_debug J v @ '': '' @ domain_error_text e))
       (new_observed_decimal E v observed_at_ms)"

definition adapter_symbol ::
  "ext \<Rightarrow> json_lib \<Rightarrow> (string \<Rightarrow> adapter_error) \<Rightarrow> string \<Rightarrow> adapter_error + string" where
  "adapter_symbol E J invalid symbol =
     map_err (\<lambda>e. invalid (''invalid symbol '' @ fmt_debug J symbol @ '': '' @ domain_error_text e))
       (normalize_symbol E symbol)"

section \<open>Numbers in the original text\<close>

text \<open>
  KuCoin and MEXC reread the digits of a number from the frame's text, so that no precision is
  lost in the conversion to a float. Both adapters have this scanner; positions are byte offsets.
\<close>

definition is_ascii_space :: "char \<Rightarrow> bool" where
  "is_ascii_space c \<longleftrightarrow> (of_char c :: nat) \<in> {9, 10, 12, 13, 32}"

definition is_number_byte :: "char \<Rightarrow> bool" where
  "is_number_byte c \<longleftrightarrow> is_ascii_digit (of_char c) \<or> c \<in> {CHR ''-'', CHR ''+'', CHR ''.'', CHR ''e'', CHR ''E''}"

text \<open>\<open>while bytes.get(cursor).is_some_and(p) { cursor += 1 }\<close>\<close>

definition skip_while :: "(char \<Rightarrow> bool) \<Rightarrow> string \<Rightarrow> nat \<Rightarrow> nat" where
  "skip_while p bytes cursor = cursor + length (takeWhile p (drop cursor bytes))"

definition skip_ascii_whitespace :: "string \<Rightarrow> nat \<Rightarrow> nat" where
  "skip_ascii_whitespace = skip_while is_ascii_space"

text \<open>The inner loop: the offset of the closing quote, and whether an escape was met.\<close>

function string_end :: "string \<Rightarrow> nat \<Rightarrow> bool \<Rightarrow> nat \<times> bool" where
  "string_end bytes cursor escaped =
     (if cursor < length bytes
      then if bytes ! cursor = CHR 0x5C then string_end bytes (cursor + 2) True
           else if bytes ! cursor = CHR 0x22 then (cursor, escaped)
           else string_end bytes (cursor + 1) escaped
      else (cursor, escaped))"
  by auto
termination by (relation "measure (\<lambda>(bytes, cursor, escaped). length bytes - cursor)") auto

declare string_end.simps [simp del]

lemma string_end_ge: "cursor \<le> fst (string_end bytes cursor escaped)"
proof (induction bytes cursor escaped rule: string_end.induct)
  case (1 bytes cursor escaped)
  then show ?case by (auto simp add: string_end.simps [of bytes cursor escaped])
qed

lemma string_end_geD: "(key_end, e) = string_end bytes cursor escaped \<Longrightarrow> cursor \<le> key_end"
  using string_end_ge [of cursor bytes escaped] by (metis fst_conv)

lemma skip_while_ge: "cursor \<le> skip_while p bytes cursor"
  by (simp add: skip_while_def)

definition byte_range :: "string \<Rightarrow> nat \<Rightarrow> nat \<Rightarrow> string" where
  "byte_range bytes i j = take (j - i) (drop i bytes)"

function raw_number_field_from :: "string \<Rightarrow> string \<Rightarrow> nat \<Rightarrow> string option" where
  "raw_number_field_from text field cursor =
     (if cursor \<ge> length text then None
      else if text ! cursor \<noteq> CHR 0x22 then raw_number_field_from text field (cursor + 1)
      else
        let key_start = cursor + 1;
            (key_end, escaped) = string_end text key_start False
        in if key_end \<ge> length text then None
           else if escaped \<or> byte_range text key_start key_end \<noteq> field
           then raw_number_field_from text field (key_end + 1)
           else
             let colon = skip_ascii_whitespace text (key_end + 1)
             in if colon \<ge> length text \<or> text ! colon \<noteq> CHR '':''
                then raw_number_field_from text field colon
                else
                  let number_start = skip_ascii_whitespace text (colon + 1);
                      number_end = skip_while is_number_byte text number_start
                  in if number_end > number_start then Some (byte_range text number_start number_end)
                     else raw_number_field_from text field number_end)"
  by auto
termination
proof (relation "measure (\<lambda>(t, field, cursor). length t - cursor)", goal_cases)
  case (3 t field cursor key_start p key_end escaped)
  then show ?case using string_end_geD [of key_end escaped t key_start False] by auto
next
  case (4 t field cursor key_start p key_end escaped colon)
  then show ?case
    using string_end_geD [of key_end escaped t key_start False] skip_while_ge [of "key_end + 1" is_ascii_space t]
    by (auto simp: skip_ascii_whitespace_def)
next
  case (5 t field cursor key_start p key_end escaped colon number_start number_end)
  then show ?case
    using string_end_geD [of key_end escaped t key_start False] skip_while_ge [of "key_end + 1" is_ascii_space t]
      skip_while_ge [of "colon + 1" is_ascii_space t] skip_while_ge [of number_start is_number_byte t]
    by (auto simp: skip_ascii_whitespace_def)
qed auto

declare raw_number_field_from.simps [simp del]

definition raw_number_field :: "string \<Rightarrow> string \<Rightarrow> string option" where
  "raw_number_field text field = raw_number_field_from text field 0"

text \<open>The text of a JSON number.\<close>

fun number_text :: "json \<Rightarrow> string option" where
  "number_text (JInt n) = Some (show_int n)"
| "number_text (JFloat s) = Some s"
| "number_text _ = None"

definition decimal_string ::
  "(string \<Rightarrow> adapter_error) \<Rightarrow> json \<Rightarrow> string \<Rightarrow> string option \<Rightarrow> adapter_error + string" where
  "decimal_string invalid v field original_json =
     (case non_empty_str v of
        Some s \<Rightarrow> Inr s
      | None \<Rightarrow>
          (case number_text v of
             Some n \<Rightarrow> Inr (case Option.bind original_json (\<lambda>text. raw_number_field text field) of
                 Some raw \<Rightarrow> raw | None \<Rightarrow> n)
           | None \<Rightarrow> Inl (invalid (field @ '' must be a decimal string or number''))))"

section \<open>Lemmas on the iterators\<close>

lemma chunks_Nil [simp]: "chunks n [] = []"
  by (simp add: chunks.simps)

lemma chunks_step: "xs \<noteq> [] \<Longrightarrow> 0 < n \<Longrightarrow> chunks n xs = take n xs # chunks n (drop n xs)"
  by (subst chunks.simps) simp

lemma concat_chunks: "0 < n \<Longrightarrow> concat (chunks n xs) = xs"
proof (induction n xs rule: chunks.induct)
  case (1 n xs)
  then show ?case by (cases "xs = []") (auto simp: chunks_step)
qed

lemma chunks_sizes: "0 < n \<Longrightarrow> c \<in> set (chunks n xs) \<Longrightarrow> c \<noteq> [] \<and> length c \<le> n"
proof (induction n xs rule: chunks.induct)
  case (1 n xs)
  then show ?case by (cases "xs = []") (auto simp: chunks_step)
qed

lemma chunks_Nil_iff: "0 < n \<Longrightarrow> chunks n xs = [] \<longleftrightarrow> xs = []"
  by (cases "xs = []") (simp_all add: chunks_step)

lemma length_le_concat: "(\<And>c. c \<in> set css \<Longrightarrow> c \<noteq> []) \<Longrightarrow> length css \<le> length (concat css)"
proof (induction css)
  case (Cons c css)
  then have "c \<noteq> []" "length css \<le> length (concat css)" by auto
  then show ?case by (cases c) auto
qed simp

lemma length_chunks: "0 < n \<Longrightarrow> length (chunks n xs) \<le> length xs"
  using length_le_concat [of "chunks n xs"] chunks_sizes [of n _ xs] concat_chunks [of n xs] by auto

lemma set_first_occurrences: "set (first_occurrences seen xs) = set xs - seen"
  by (induction seen xs rule: first_occurrences.induct) auto

lemma distinct_first_occurrences: "distinct (first_occurrences seen xs)"
  by (induction seen xs rule: first_occurrences.induct) (auto simp: set_first_occurrences)

lemma first_occurrences_distinct:
  "distinct xs \<Longrightarrow> set xs \<inter> seen = {} \<Longrightarrow> first_occurrences seen xs = xs"
  by (induction seen xs rule: first_occurrences.induct) auto

lemma first_occurrences_Nil_iff: "first_occurrences {} xs = [] \<longleftrightarrow> xs = []"
  using set_first_occurrences [of "{}" xs] by (cases xs) auto

lemma length_first_occurrences: "length (first_occurrences seen xs) \<le> length xs"
  by (induction seen xs rule: first_occurrences.induct) auto

lemma length_concat_le:
  "(\<And>x. x \<in> set xs \<Longrightarrow> length (f x) \<le> b) \<Longrightarrow> length (concat (map f xs)) \<le> b * length xs"
  by (induction xs) (auto intro: add_mono)

lemma first_occurrences_append:
  "first_occurrences seen (xs @ ys) = first_occurrences seen xs @ first_occurrences (seen \<union> set xs) ys"
  by (induction seen xs rule: first_occurrences.induct) (simp_all add: insert_absorb)

section \<open>Request numbers\<close>

text \<open>
  Every session numbers its requests from one and skips zero on overflow; the adapters write this
  as \<open>checked_add(1).unwrap_or(1)\<close> or as \<open>wrapping_add(1).max(1)\<close>.
\<close>

definition succ_id :: "u64 \<Rightarrow> u64" where
  "succ_id n = (if n = - 1 then 1 else n + 1)"

lemma checked_add_succ_id [simp]: "(case checked_add n 1 of Some m \<Rightarrow> m | None \<Rightarrow> 1) = succ_id n"
  using u64_succ_fits [of n]
  by (auto simp: checked_add_def succ_id_def split: option.splits if_splits)

lemma max_succ_id [simp]: "max (n + 1) 1 = succ_id n"
proof (cases "n = - 1")
  case False
  then have "n + 1 \<noteq> 0" by (simp add: add_eq_0_iff2)
  then have "1 \<le> n + 1" by (metis unsigned_greater_eq word_le_nat_alt word_less_1 not_le word_gt_0)
  then show ?thesis using False by (simp add: succ_id_def max_def)
qed (simp add: succ_id_def)

definition nth_id :: "nat \<Rightarrow> u64" where
  "nth_id i = (succ_id ^^ i) 1"

lemma nth_id_0 [simp]: "nth_id 0 = 1"
  by (simp add: nth_id_def)

lemma succ_nth_id [simp]: "succ_id (nth_id i) = nth_id (Suc i)"
  by (simp add: nth_id_def)

lemma unat_nth_id: "i < 2 ^ 64 - 1 \<Longrightarrow> unat (nth_id i) = i + 1"
proof (induction i)
  case (Suc i)
  then have u: "unat (nth_id i) = i + 1" by simp
  have fits: "unat (nth_id i) + 1 < 2 ^ 64" unfolding u using Suc.prems by simp
  then have "nth_id i \<noteq> - 1" using u64_succ_fits [of "nth_id i"] by blast
  then have "nth_id (Suc i) = nth_id i + 1" unfolding succ_nth_id [symmetric] succ_id_def by simp
  then have "unat (nth_id (Suc i)) = unat (nth_id i) + unat (1 :: u64)"
    using unat_add_no_overflow [of "nth_id i" 1] fits unfolding unsigned_1 by metis
  then show ?case using u by simp
qed simp

lemma nth_id_inj: "i < 2 ^ 64 - 1 \<Longrightarrow> j < 2 ^ 64 - 1 \<Longrightarrow> nth_id i = nth_id j \<Longrightarrow> i = j"
  by (metis unat_nth_id add_right_cancel)

fun ids_from :: "u64 \<Rightarrow> nat \<Rightarrow> u64 list" where
  "ids_from n 0 = []"
| "ids_from n (Suc k) = n # ids_from (succ_id n) k"

lemma length_ids_from [simp]: "length (ids_from n k) = k"
  by (induction k arbitrary: n) simp_all

lemma ids_from_add: "ids_from n (j + k) = ids_from n j @ ids_from ((succ_id ^^ j) n) k"
  by (induction j arbitrary: n) (simp_all add: funpow_swap1)

lemma ids_from_nth_id: "ids_from (nth_id i) k = map nth_id [i ..< i + k]"
proof (induction k arbitrary: i)
  case (Suc k)
  have "[i ..< i + Suc k] = i # [Suc i ..< Suc i + k]" by (subst upt_conv_Cons) simp_all
  with Suc.IH [of "Suc i"] show ?case by (simp only: ids_from.simps succ_nth_id list.map)
qed simp

lemma funpow_nth_id: "(succ_id ^^ k) (nth_id i) = nth_id (i + k)"
  by (induction k) simp_all

text \<open>A step of a session from \<open>s\<close> to \<open>s'\<close> that hands out the request ids \<open>rs\<close>.\<close>

definition issued :: "('x \<Rightarrow> u64) \<Rightarrow> (u64 \<Rightarrow> string) \<Rightarrow> 'x \<Rightarrow> 'x \<Rightarrow> string list \<Rightarrow> bool" where
  "issued nid render s s' rs \<longleftrightarrow>
     rs = map render (ids_from (nid s) (length rs)) \<and> nid s' = (succ_id ^^ length rs) (nid s)"

lemma issued_Nil: "nid s' = nid s \<Longrightarrow> issued nid render s s' []"
  by (simp add: issued_def)

lemma issued_Cons:
  "r = render (nid s) \<Longrightarrow> nid s1 = succ_id (nid s) \<Longrightarrow> issued nid render s1 s2 rs \<Longrightarrow>
    issued nid render s s2 (r # rs)"
  by (simp add: issued_def funpow_swap1)

lemma issued_trans:
  assumes "issued nid render s s1 rs" and "issued nid render s1 s2 qs"
  shows "issued nid render s s2 (rs @ qs)"
proof -
  have "nid s2 = (succ_id ^^ (length rs + length qs)) (nid s)"
    using assms unfolding issued_def by (metis add.commute comp_apply funpow_add)
  moreover have "rs @ qs = map render (ids_from (nid s) (length rs + length qs))"
    unfolding ids_from_add map_append using assms unfolding issued_def by metis
  ultimately show ?thesis unfolding issued_def by (metis length_append)
qed

text \<open>A \<open>map\<close> whose closure takes one number for each element.\<close>

lemma map_state_issued:
  assumes "\<And>s x. oc_request_id (snd (f s x)) = render (nid s) \<and> nid (fst (f s x)) = succ_id (nid s)"
  shows "map_state f s xs = (s', cs) \<Longrightarrow>
    length cs = length xs \<and> issued nid render s s' (map oc_request_id cs)"
proof (induction xs arbitrary: s s' cs)
  case Nil
  then show ?case by (auto intro: issued_Nil)
next
  case (Cons x xs)
  then obtain s1 c cs' where f: "f s x = (s1, c)" and m: "map_state f s1 xs = (s', cs')" and cs: "cs = c # cs'"
    by (auto split: prod.splits)
  from Cons.IH [OF m] assms [of s x] f show ?case by (auto simp: cs intro: issued_Cons)
qed

lemma map_state_keeps:
  assumes "\<And>s x. g (fst (f s x)) = g s"
  shows "g (fst (map_state f s xs)) = g s"
proof (induction xs arbitrary: s)
  case (Cons x xs)
  show ?case
    using Cons.IH [of "fst (f s x)"] assms [of s x]
    by (cases "f s x"; cases "map_state f (fst (f s x)) xs") simp
qed simp

lemma map_state_all:
  assumes "\<And>s x. P x \<Longrightarrow> Q (snd (f s x))"
  shows "map_state f s xs = (s', cs) \<Longrightarrow> \<forall>x \<in> set xs. P x \<Longrightarrow> \<forall>c \<in> set cs. Q c"
proof (induction xs arbitrary: s s' cs)
  case (Cons x xs)
  then show ?case using assms [of x s] by (fastforce split: prod.splits)
qed simp

lemma map_state_list_all2:
  assumes "\<And>s x. R x (snd (f s x))"
  shows "map_state f s xs = (s', cs) \<Longrightarrow> list_all2 R xs cs"
proof (induction xs arbitrary: s s' cs)
  case (Cons x xs)
  then obtain s1 c cs' where "f s x = (s1, c)" "map_state f s1 xs = (s', cs')" "cs = c # cs'"
    by (auto split: prod.splits)
  with Cons.IH [of s1 s' cs'] assms [of x s] show ?case by simp
qed simp

section \<open>The number scanner\<close>

lemma string_end_quote:
  "string_end bytes cursor escaped = (k, e) \<Longrightarrow> k < length bytes \<Longrightarrow> bytes ! k = CHR 0x22"
proof (induction bytes cursor escaped rule: string_end.induct)
  case (1 bytes cursor escaped)
  then show ?case by (subst (asm) (3) string_end.simps) (auto split: if_splits)
qed

lemma skip_while_parts:
  assumes "i \<le> length t"
  shows "skip_while p t i \<le> length t" and "list_all p (byte_range t i (skip_while p t i))"
    and "t = take i t @ byte_range t i (skip_while p t i) @ drop (skip_while p t i) t"
    and "skip_while p t i < length t \<Longrightarrow> \<not> p (t ! skip_while p t i)"
proof -
  let ?d = "drop i t" and ?n = "length (takeWhile p (drop i t))"
  have n: "?n \<le> length t - i" using length_takeWhile_le [of p ?d] by simp
  then show "skip_while p t i \<le> length t" using assms by (simp add: skip_while_def)
  have r: "byte_range t i (skip_while p t i) = takeWhile p ?d"
    by (simp add: byte_range_def skip_while_def takeWhile_eq_take [symmetric])
  show "list_all p (byte_range t i (skip_while p t i))" unfolding r by (auto simp: list_all_iff dest: set_takeWhileD)
  have "drop (skip_while p t i) t = dropWhile p ?d"
    by (simp add: skip_while_def dropWhile_eq_drop add.commute)
  then show "t = take i t @ byte_range t i (skip_while p t i) @ drop (skip_while p t i) t"
    unfolding r by (metis append_take_drop_id takeWhile_dropWhile_id)
  show "\<not> p (t ! skip_while p t i)" if "skip_while p t i < length t"
    using nth_length_takeWhile [of p ?d] that assms by (simp add: skip_while_def)
qed

text \<open>
  \<open>r\<close> is what the frame's text has after the quoted field name and a colon, as far as
  the bytes of a number go.
\<close>

definition field_number :: "string \<Rightarrow> string \<Rightarrow> string \<Rightarrow> bool" where
  "field_number t field r \<longleftrightarrow>
     (\<exists>before ws1 ws2 rest. t = before @ [CHR 0x22] @ field @ [CHR 0x22] @ ws1 @ '':'' @ ws2 @ r @ rest \<and>
        list_all is_ascii_space (ws1 @ ws2) \<and> r \<noteq> [] \<and> list_all is_number_byte r \<and>
        (rest = [] \<or> \<not> is_number_byte (hd rest)))"

lemma byte_range_split:
  "i \<le> j \<Longrightarrow> j < length t \<Longrightarrow> drop i t = byte_range t i j @ [t ! j] @ drop (Suc j) t"
  by (metis Cons_nth_drop_Suc append_Cons append_Nil append_take_drop_id byte_range_def drop_drop le_add_diff_inverse2)

lemma field_number_found:
  assumes "cursor < length t" and "t ! cursor = CHR 0x22" and "string_end t (cursor + 1) False = (k, False)"
    and "k < length t" and "byte_range t (cursor + 1) k = field"
    and "colon = skip_ascii_whitespace t (k + 1)" and "colon < length t" and "t ! colon = CHR '':''"
    and "i = skip_ascii_whitespace t (colon + 1)" and "j = skip_while is_number_byte t i" and "i < j"
  shows "field_number t field (byte_range t i j)"
proof -
  have k: "cursor + 1 \<le> k" using string_end_ge [of "cursor + 1" t False] assms(3) by simp
  have quote: "t ! k = CHR 0x22" using string_end_quote [OF assms(3,4)] .
  note ws1 = skip_while_parts [of "k + 1" t is_ascii_space, folded skip_ascii_whitespace_def, folded assms(6)]
  note ws2 = skip_while_parts [of "colon + 1" t is_ascii_space, folded skip_ascii_whitespace_def, folded assms(9)]
  have i: "i \<le> length t" using ws2(1) assms(7) by simp
  note num = skip_while_parts [of i t is_number_byte, folded assms(10)]
  have ge: "k + 1 \<le> colon" "colon + 1 \<le> i"
    using skip_while_ge assms(6,9) by (simp_all add: skip_ascii_whitespace_def)
  have "t = take cursor t @ [CHR 0x22] @ drop (cursor + 1) t"
    using id_take_nth_drop [OF assms(1)] assms(2) by simp
  moreover have "drop (cursor + 1) t = field @ [CHR 0x22] @ drop (k + 1) t"
    using byte_range_split [OF k assms(4)] assms(5) quote by simp
  moreover have "drop (k + 1) t = byte_range t (k + 1) colon @ '':'' @ drop (colon + 1) t"
    using byte_range_split [OF ge(1) assms(7)] assms(8) by simp
  moreover have "drop (colon + 1) t = byte_range t (colon + 1) i @ byte_range t i j @ drop j t"
    using ge(2) assms(11) by (simp add: byte_range_def) (metis append_take_drop_id drop_drop le_add_diff_inverse2 less_imp_le_nat)
  moreover have "list_all is_ascii_space (byte_range t (k + 1) colon @ byte_range t (colon + 1) i)"
    using ws1(2) ws2(2) assms(4,7) by simp
  moreover have "byte_range t i j \<noteq> []" using assms(11) num(1) i by (simp add: byte_range_def)
  moreover have "list_all is_number_byte (byte_range t i j)" using num(2) i by simp
  moreover have "drop j t = [] \<or> \<not> is_number_byte (hd (drop j t))"
    using num(4) i by (cases "j < length t") (simp_all add: hd_drop_conv_nth)
  ultimately show ?thesis unfolding field_number_def by (metis append_assoc)
qed

lemma raw_number_field_from_sound:
  "raw_number_field_from t field cursor = Some r \<Longrightarrow> field_number t field r"
proof (induction t field cursor rule: raw_number_field_from.induct)
  case (1 t field cursor)
  obtain k e where k: "string_end t (cursor + 1) False = (k, e)" by force
  from 1(5) show ?case
    using 1(1-4) k field_number_found [of cursor t k field]
    by (subst (asm) raw_number_field_from.simps) (auto simp: Let_def split: if_splits prod.splits)
qed

lemma string_end_plain:
  "\<forall>c \<in> set field. c \<noteq> CHR 0x22 \<and> c \<noteq> CHR 0x5C \<Longrightarrow>
    string_end (p @ field @ CHR 0x22 # rest) (length p) e = (length p + length field, e)"
proof (induction field arbitrary: p)
  case Nil
  then show ?case by (simp add: string_end.simps nth_append)
next
  case (Cons c field)
  have "string_end (p @ (c # field) @ CHR 0x22 # rest) (length p) e =
      string_end ((p @ [c]) @ field @ CHR 0x22 # rest) (length (p @ [c])) e"
    using Cons.prems by (subst string_end.simps) (simp add: nth_append)
  also have "\<dots> = (length (p @ [c]) + length field, e)" by (rule Cons.IH) (use Cons.prems in simp)
  finally show ?case by simp
qed

lemma scan_plain:
  "\<forall>c \<in> set before. c \<noteq> CHR 0x22 \<Longrightarrow>
    raw_number_field_from (p @ before @ rest) field (length p) =
    raw_number_field_from (p @ before @ rest) field (length p + length before)"
proof (induction before arbitrary: p)
  case (Cons c before)
  have "raw_number_field_from (p @ (c # before) @ rest) field (length p) =
      raw_number_field_from ((p @ [c]) @ before @ rest) field (length (p @ [c]))"
    using Cons.prems by (subst raw_number_field_from.simps) (simp add: nth_append)
  also have "\<dots> = raw_number_field_from ((p @ [c]) @ before @ rest) field (length (p @ [c]) + length before)"
    by (rule Cons.IH) (use Cons.prems in simp)
  finally show ?case by simp
qed simp

lemma skip_while_append:
  "list_all p xs \<Longrightarrow> rest = [] \<or> \<not> p (hd rest) \<Longrightarrow> skip_while p (a @ xs @ rest) (length a) = length a + length xs"
  by (cases rest) (simp_all add: skip_while_def list_all_iff takeWhile_eq_all_conv [THEN iffD2])

lemma number_byte_not_space: "is_number_byte c \<Longrightarrow> \<not> is_ascii_space c"
  by (auto simp: is_number_byte_def is_ascii_space_def is_ascii_digit_def)

text \<open>The first key of a text is found with its whole number.\<close>

lemma raw_number_field_first:
  assumes "\<forall>c \<in> set before. c \<noteq> CHR 0x22" and "\<forall>c \<in> set field. c \<noteq> CHR 0x22 \<and> c \<noteq> CHR 0x5C"
    and "r \<noteq> []" and "list_all is_number_byte r" and "rest = [] \<or> \<not> is_number_byte (hd rest)"
  shows "raw_number_field (before @ [CHR 0x22] @ field @ [CHR 0x22] @ '':'' @ r @ rest) field = Some r"
proof -
  let ?t = "before @ [CHR 0x22] @ field @ [CHR 0x22] @ '':'' @ r @ rest"
  let ?n = "length before" and ?m = "length field"
  have start: "raw_number_field ?t field = raw_number_field_from ?t field ?n"
    using scan_plain [OF assms(1), of "[]"] by (simp add: raw_number_field_def)
  have quote: "string_end ?t (?n + 1) False = (?n + 1 + ?m, False)"
    using string_end_plain [OF assms(2), of "before @ [CHR 0x22]" "'':'' @ r @ rest" False] by simp
  have colon: "skip_ascii_whitespace ?t (?n + 1 + ?m + 1) = ?n + 1 + ?m + 1"
    using skip_while_append [of is_ascii_space "[]" "'':'' @ r @ rest" "before @ [CHR 0x22] @ field @ [CHR 0x22]"]
    by (simp add: skip_ascii_whitespace_def is_ascii_space_def)
  have space: "skip_ascii_whitespace ?t (?n + 1 + ?m + 1 + 1) = ?n + ?m + 3"
    using skip_while_append [of is_ascii_space "[]" "r @ rest" "before @ [CHR 0x22] @ field @ [CHR 0x22] @ '':''"]
      number_byte_not_space assms(3,4) by (cases r) (simp_all add: skip_ascii_whitespace_def)
  have number: "skip_while is_number_byte ?t (?n + ?m + 3) = ?n + ?m + 3 + length r"
    using skip_while_append [OF assms(4,5), of "before @ [CHR 0x22] @ field @ [CHR 0x22] @ '':''"] by (simp add: numeral_3_eq_3)
  have range: "byte_range ?t (?n + 1) (?n + 1 + ?m) = field" "byte_range ?t (?n + ?m + 3) (?n + ?m + 3 + length r) = r"
    by (simp_all add: byte_range_def numeral_3_eq_3)
  show ?thesis
    unfolding start using assms(3)
    by (subst raw_number_field_from.simps)
      (simp add: quote [simplified] range [simplified] colon [simplified] space [simplified] number [simplified] nth_append Let_def)
qed

section \<open>Properties\<close>

text \<open>
  (C37) Numbers keep the venue's own digits. The scanner of the original text finds the number after
  the first key of a text exactly as it was written, and whatever it finds in any text is the whole
  number literal that follows a key of that name, never a part of it.
\<close>

theorem raw_number_field_exact:
  assumes "\<forall>c \<in> set before. c \<noteq> CHR 0x22" and "\<forall>c \<in> set field. c \<noteq> CHR 0x22 \<and> c \<noteq> CHR 0x5C"
    and "r \<noteq> []" and "list_all is_number_byte r" and "rest = [] \<or> \<not> is_number_byte (hd rest)"
  shows "raw_number_field (before @ [CHR 0x22] @ field @ [CHR 0x22] @ '':'' @ r @ rest) field = Some r \<and>
    (\<forall>t q. raw_number_field t field = Some q \<longrightarrow> field_number t field q)"
  using raw_number_field_first [OF assms] raw_number_field_from_sound by (simp add: raw_number_field_def)

theorem raw_number_field_exact_witness:
  "raw_number_field (''{'' @ [CHR 0x22] @ ''price'' @ [CHR 0x22] @ '':'' @ ''1.50'' @ ''}'') ''price'' = Some ''1.50''"
  using raw_number_field_exact [of "''{''" "''price''" "''1.50''" "''}''"]
  by (simp add: is_number_byte_def is_ascii_digit_def)

end
