(* ===== verification/Supervisor.thy ===== *)
theory Supervisor
  imports Connection Config
begin

text \<open>
  The supervisor of one provider endpoint (\<^verbatim>\<open>src/src/runtime.rs\<close>, \<open>supervise_endpoint\<close>,
  \<open>wait_for_desired\<close>, the sequential part of \<open>run_connection\<close> and
  \<open>spawn_provider_supervisors\<close>). One turn of its loop waits for demand, runs a connection and,
  after a failure, backs off. What the outside decides in a turn (the registry snapshots seen, the
  outcome of endpoint discovery and connecting, the branches the connection takes, the time it
  lasted, whether shutdown was requested) is the record \<open>iteration\<close>; a script that ends early
  is a supervisor still waiting or connected.
\<close>

section \<open>Operations\<close>

datatype wait_event = WaitShutdown | WaitChanged "sub_key set" | WaitClosed

datatype wait_result = StillWaiting | NoDemand | Demand "sub_key set"

fun wait_for_desired ::
  "('s, 'ch) env \<Rightarrow> sub_key set \<Rightarrow> wait_event list \<Rightarrow> (('s, 'ch) world, wait_result) handler" where
  "wait_for_desired env snapshot events =
     (let desired = filter_desired (env_adapter env) (env_endpoint env) snapshot
      in bind (update_desired_metrics env (card desired)) (\<lambda>_.
         if desired \<noteq> {} then ret (Demand desired)
         else bind (update_health env (\<lambda>h. h\<lparr>eh_state := Idle, eh_connection_epoch := None,
             eh_connected_at_ms := None, eh_last_event_at_ms := None, eh_last_error := None\<rparr>)) (\<lambda>_.
           case events of
             [] \<Rightarrow> ret StillWaiting
           | WaitShutdown # _ \<Rightarrow> ret NoDemand
           | WaitClosed # _ \<Rightarrow> ret NoDemand
           | WaitChanged next # rest \<Rightarrow> wait_for_desired env next rest)))"

declare wait_for_desired.simps [simp del]

record iteration =
  it_snapshot :: "sub_key set"
  it_waits :: "wait_event list"
  it_target :: "adapter_error + connection_target"
  it_connect :: connect_outcome
  it_epoch :: uuid
  it_io :: io
  it_turns :: "(io \<times> branch) list"
  it_shutdown :: bool
  it_elapsed :: duration
  it_sleep_cancelled :: bool

abbreviation connection_env ::
  "('s, 'ch) env \<Rightarrow> iteration \<Rightarrow> connection_target \<Rightarrow> ('s, 'ch) env" where
  "connection_env env it target \<equiv> env\<lparr>env_target := target, env_epoch := it_epoch it\<rparr>"

definition run_connection ::
  "('s, 'ch) env \<Rightarrow> iteration \<Rightarrow> sub_key set \<Rightarrow> (('s, 'ch) world, unit) handler" where
  "run_connection env it desired =
     (case it_target it of
        Inl e \<Rightarrow> stop_with (Failed (AdapterErr e))
      | Inr target \<Rightarrow>
          bind (start_connection (connection_env env it target) (it_connect it) (it_io it) desired) (\<lambda>_.
            run_loop (connection_env env it target) (it_turns it)))"

datatype sup_outcome = SupContinue duration | SupPending | SupStopped

definition set_connections_gauge :: "('s, 'ch) env \<Rightarrow> (('s, 'ch) world, unit) handler" where
  "set_connections_gauge env = modify_world (\<lambda>w. w\<lparr>w_metrics := (w_metrics w)\<lparr>mx_upstream_connections :=
     (mx_upstream_connections (w_metrics w))(env_labels env := 0)\<rparr>\<rparr>)"

definition finish_supervisor :: "('s, 'ch) env \<Rightarrow> (('s, 'ch) world, sup_outcome) handler" where
  "finish_supervisor env =
     bind (set_connections_gauge env) (\<lambda>_.
     bind (update_health env (\<lambda>h. h\<lparr>eh_state := Stopped, eh_connection_epoch := None,
       eh_connected_at_ms := None, eh_last_event_at_ms := None\<rparr>)) (\<lambda>_. ret SupStopped))"

definition stop_message :: "stop \<Rightarrow> string" where
  "stop_message s = (case s of Failed e \<Rightarrow> show_runtime_error e | _ \<Rightarrow> ''planned connection rotation'')"

definition after_failure ::
  "('s, 'ch) env \<Rightarrow> settings \<Rightarrow> iteration \<Rightarrow> stop \<Rightarrow> duration \<Rightarrow> (('s, 'ch) world, sup_outcome) handler" where
  "after_failure env st it s backoff =
     (let current = (if it_elapsed it \<ge> stable_connection_duration st then backoff_min st else backoff)
      in bind (modify_world (\<lambda>w. w\<lparr>w_metrics := (w_metrics w)\<lparr>mx_upstream_reconnects :=
           inc (mx_upstream_reconnects (w_metrics w)) (env_labels env)\<rparr>\<rparr>)) (\<lambda>_.
         bind (update_health env (\<lambda>h. h\<lparr>eh_state := Backoff,
           eh_reconnects := saturating_add (eh_reconnects h) 1, eh_connection_epoch := None,
           eh_connected_at_ms := None, eh_last_event_at_ms := None,
           eh_last_error := Some (stop_message s)\<rparr>)) (\<lambda>_.
         if it_sleep_cancelled it then finish_supervisor env
         else ret (SupContinue (min (duration_saturating_mul current 2) (backoff_max st))))))"

definition after_connection ::
  "('s, 'ch) env \<Rightarrow> settings \<Rightarrow> iteration \<Rightarrow> stop \<Rightarrow> duration \<Rightarrow> (('s, 'ch) world, sup_outcome) handler" where
  "after_connection env st it s backoff =
     bind (set_connections_gauge env) (\<lambda>_.
       if it_shutdown it then finish_supervisor env
       else if s = Exited ExitIdle then ret (SupContinue (backoff_min st))
       else after_failure env st it s backoff)"

definition supervise_iteration ::
  "('s, 'ch) env \<Rightarrow> settings \<Rightarrow> iteration \<Rightarrow> duration \<Rightarrow> (('s, 'ch) world, sup_outcome) handler" where
  "supervise_iteration env st it backoff =
     bind (wait_for_desired env (it_snapshot it) (it_waits it)) (\<lambda>r.
       case r of
         StillWaiting \<Rightarrow> ret SupPending
       | NoDemand \<Rightarrow> finish_supervisor env
       | Demand desired \<Rightarrow>
           bind (update_health env (\<lambda>h. h\<lparr>eh_state := Connecting, eh_connection_epoch := None,
             eh_connected_at_ms := None, eh_last_event_at_ms := None, eh_last_error := None\<rparr>)) (\<lambda>_ w.
           case run_connection env it desired w of
             (w', Inr _) \<Rightarrow> (w', Inr SupPending)
           | (w', Inl Panicked) \<Rightarrow> (w', Inl Panicked)
           | (w', Inl s) \<Rightarrow> after_connection env st it s backoff w'))"

fun spawn_provider_supervisors :: "'s adapter list \<Rightarrow> health_registry \<Rightarrow> health_registry \<times> (provider \<times> endpoint_kind) list" where
  "spawn_provider_supervisors [] reg = (reg, [])"
| "spawn_provider_supervisors (ad # ads) reg =
     (let reg' = fold (\<lambda>e r. health_register r (ad_provider ad) e) (ad_endpoints ad) reg;
          (reg'', tasks) = spawn_provider_supervisors ads reg'
      in (reg'', map (Pair (ad_provider ad)) (ad_endpoints ad) @ tasks))"

section \<open>Specification\<close>

text \<open>A script of turns whose branches are enabled when they fire.\<close>

fun turns_enabled :: "('s, 'ch) env \<Rightarrow> (io \<times> branch) list \<Rightarrow> ('s, 'ch) world \<Rightarrow> bool" where
  "turns_enabled env [] w = True"
| "turns_enabled env ((io, b) # turns) w =
     (branch_enabled env io b w \<and> (\<forall>snapshot. b = DesiredChanged (Some snapshot) \<longrightarrow> finite snapshot) \<and>
      (case conn_step env io b w of (w', Inl _) \<Rightarrow> True | (w', Inr _) \<Rightarrow> turns_enabled env turns w'))"

definition iteration_ok :: "('s, 'ch) env \<Rightarrow> iteration \<Rightarrow> bool" where
  "iteration_ok env it \<longleftrightarrow> finite (it_snapshot it) \<and>
     (\<forall>snapshot. WaitChanged snapshot \<in> set (it_waits it) \<longrightarrow> finite snapshot) \<and>
     (\<forall>target desired w w'. it_target it = Inr target \<longrightarrow>
        start_connection (connection_env env it target) (it_connect it) (it_io it) desired w = (w', Inr ()) \<longrightarrow>
        turns_enabled (connection_env env it target) (it_turns it) w')"

section \<open>Lemmas\<close>

lemma run_loop_no_panic:
  "conn_inv env w \<Longrightarrow> turns_enabled env turns w \<Longrightarrow> snd (run_loop env turns w) \<noteq> Inl Panicked"
proof (induction turns arbitrary: w)
  case (Cons t turns)
  obtain io b where t: "t = (io, b)" by force
  have fin: "\<And>snapshot. b = DesiredChanged (Some snapshot) \<Longrightarrow> finite snapshot" and
    en: "branch_enabled env io b w" using Cons.prems(2) t by auto
  have v: "valid (\<lambda>w. conn_inv env w \<and> branch_enabled env io b w) (conn_step env io b) (\<lambda>_. conn_inv env)"
    by (rule valid_conn_step) (rule fin)
  obtain w' r where step: "conn_step env io b w = (w', r)" by force
  show ?case
  proof (cases r)
    case (Inl s)
    then show ?thesis using validD(2) [OF v, of w] Cons.prems(1) en step by (auto simp: t)
  next
    case (Inr u)
    then show ?thesis
      using validD(1) [OF v _ step [unfolded Inr]] Cons step en by (simp add: t)
  qed
qed simp

lemma valid_update_short:
  "(\<And>w. P w \<Longrightarrow> short_error (f (own_health env w)) \<and>
      Q () (w\<lparr>w_health := (w_health w)((env_provider env, env_endpoint env) \<mapsto> f (own_health env w))\<rparr>)) \<Longrightarrow>
     valid P (update_health env f) Q"
  by (auto simp: valid_def update_health_def own_health_def health_update_short)

definition demand_known :: "('s, 'ch) env \<Rightarrow> wait_result \<Rightarrow> ('s, 'ch) world \<Rightarrow> bool" where
  "demand_known env r w \<longleftrightarrow> short_error (own_health env w) \<and> (case r of
     Demand d \<Rightarrow> d \<noteq> {} \<and> finite d \<and> eh_desired_subscriptions (own_health env w) = card d | _ \<Rightarrow> True)"

lemma short_error_None [simp]: "eh_last_error h = None \<Longrightarrow> short_error h"
  by (simp add: short_error_def)

lemma valid_update_desired_metrics:
  "valid (\<lambda>w. short_error (own_health env w)) (update_desired_metrics env n)
     (\<lambda>_ w. short_error (own_health env w) \<and> eh_desired_subscriptions (own_health env w) = n)"
  unfolding update_desired_metrics_def
  by (rule valid_bind [where R = "\<lambda>_ w. short_error (own_health env w)"], rule valid_modify, simp,
      rule valid_update_short) (simp add: short_error_def)

lemma valid_no_demand:
  "valid (\<lambda>w. short_error (own_health env w)) (ret NoDemand) (demand_known env)"
  by (rule valid_ret) (simp add: demand_known_def)

lemma valid_wait_step:
  assumes "finite snapshot"
    and "valid (\<lambda>w. short_error (own_health env w)) (case events of [] \<Rightarrow> ret StillWaiting
      | WaitShutdown # _ \<Rightarrow> ret NoDemand | WaitClosed # _ \<Rightarrow> ret NoDemand
      | WaitChanged n # rest \<Rightarrow> wait_for_desired env n rest) (demand_known env)"
  shows "valid (\<lambda>w. short_error (own_health env w)) (wait_for_desired env snapshot events) (demand_known env)"
proof -
  let ?d = "filter_desired (env_adapter env) (env_endpoint env) snapshot"
  let ?S = "\<lambda>w. short_error (own_health env w)"
  have fin: "finite ?d" using assms(1) by (simp add: filter_desired_def)
  have idle: "valid (\<lambda>w. ?S w \<and> eh_desired_subscriptions (own_health env w) = card ?d)
      (update_health env (\<lambda>h. h\<lparr>eh_state := Idle, eh_connection_epoch := None,
        eh_connected_at_ms := None, eh_last_event_at_ms := None, eh_last_error := None\<rparr>)) (\<lambda>_. ?S)"
    by (rule valid_update_short) simp
  show ?thesis
  proof (cases "?d = {}")
    case True
    then show ?thesis
      using valid_bind [OF valid_update_desired_metrics valid_bind [OF idle assms(2)]]
      by (simp add: wait_for_desired.simps [of env snapshot] Let_def)
  next
    case False
    have "valid (\<lambda>w. ?S w \<and> eh_desired_subscriptions (own_health env w) = card ?d) (ret (Demand ?d)) (demand_known env)"
      by (rule valid_ret) (use fin False in \<open>simp add: demand_known_def\<close>)
    from valid_bind [OF valid_update_desired_metrics this] False show ?thesis
      by (simp add: wait_for_desired.simps [of env snapshot] Let_def)
  qed
qed

lemma valid_wait:
  assumes "finite snapshot" and "\<forall>snap. WaitChanged snap \<in> set events \<longrightarrow> finite snap"
  shows "valid (\<lambda>w. short_error (own_health env w)) (wait_for_desired env snapshot events) (demand_known env)"
  using assms
proof (induction events arbitrary: snapshot)
  case Nil
  then show ?case by (intro valid_wait_step) (simp_all add: demand_known_def valid_ret)
next
  case (Cons e events)
  show ?case
  proof (cases e)
    case (WaitChanged n)
    then show ?thesis using Cons by (intro valid_wait_step) simp_all
  qed (use Cons.prems in \<open>auto intro!: valid_wait_step valid_no_demand\<close>)
qed

lemma own_health_connection [simp]: "own_health (connection_env env it target) w = own_health env w"
  by (simp add: own_health_def)

lemma valid_run_connection:
  assumes "iteration_ok env it" and "d \<noteq> {}" and "finite d"
  shows "valid (\<lambda>w. eh_desired_subscriptions (own_health env w) = card d) (run_connection env it d) (\<lambda>_ _. True)"
proof (cases "it_target it")
  case (Inr target)
  let ?env = "connection_env env it target"
  show ?thesis
    unfolding valid_def
  proof (intro allI impI)
    fix w
    assume "eh_desired_subscriptions (own_health env w) = card d"
    then have dc: "eh_desired_subscriptions (own_health ?env w) = card d" by simp
    obtain w' r where s: "start_connection ?env (it_connect it) (it_io it) d w = (w', r)" by force
    note v = validE [OF valid_start [OF assms(2,3), where outcome = "it_connect it" and io = "it_io it"] dc]
    have "snd (run_loop ?env (it_turns it) w') \<noteq> Inl Panicked" if "r = Inr ()"
      using v s that assms(1) Inr by (intro run_loop_no_panic) (auto simp: iteration_ok_def)
    then show "case run_connection env it d w of (w', Inr x) \<Rightarrow> True | (w', Inl st) \<Rightarrow> st \<noteq> Panicked"
      using v s by (cases r) (auto simp: run_connection_def Inr bind_def split: prod.splits sum.splits)
  qed
qed (simp add: run_connection_def valid_stop)

lemma finish_returns:
  "short_error (own_health env w) \<Longrightarrow> \<exists>w'. finish_supervisor env w = (w', Inr SupStopped) \<and>
     eh_state (own_health env w') = Stopped"
  by (simp add: finish_supervisor_def set_connections_gauge_def bind_def modify_world_def
      update_health_def health_update_short own_health_def short_error_def ret_def)

lemma short_after_cut: "short_error (h\<lparr>eh_last_error := Some (take 500 msg)\<rparr>)"
  by (simp add: short_error_def)

lemma after_failure_cases:
  "after_failure env st it s backoff w = (w', r) \<Longrightarrow>
     (if cut_panics (stop_message s) then r = Inl Panicked
      else if it_sleep_cancelled it then r = Inr SupStopped
      else r = Inr (SupContinue (min (duration_saturating_mul
          (if it_elapsed it \<ge> stable_connection_duration st then backoff_min st else backoff) 2) (backoff_max st))))"
  by (auto simp: after_failure_def Let_def bind_def modify_world_def update_health_def
      health_update_def truncate_500 ret_def finish_supervisor_def set_connections_gauge_def short_after_cut
      cut_panics_def split: prod.splits sum.splits option.splits if_splits)

lemma double_backoff:
  "b \<le> backoff_max st \<Longrightarrow> min (duration_saturating_mul b 2) (backoff_max st) = min (2 * b) (backoff_max st)"
proof -
  have "unat (st_upstream_backoff_max_ms st) \<le> 18446744073709551615"
    using unat_u64_less [of "st_upstream_backoff_max_ms st"] by linarith
  then have "backoff_max st \<le> duration_max"
    by (simp add: backoff_max_def from_millis_def duration_max_def)
  then show "min (duration_saturating_mul b 2) (backoff_max st) = min (2 * b) (backoff_max st)"
    by (simp add: duration_saturating_mul_def)
qed

lemma after_connection_cases:
  "after_connection env st it s backoff w = (w', r) \<Longrightarrow>
     (\<exists>b. r = Inr (SupContinue b)) \<Longrightarrow> \<not> it_shutdown it \<and>
     (if s = Exited ExitIdle then r = Inr (SupContinue (backoff_min st))
      else r = Inr (SupContinue (min (duration_saturating_mul
          (if it_elapsed it \<ge> stable_connection_duration st then backoff_min st else backoff) 2) (backoff_max st))))"
  using after_failure_cases [of env st it s backoff "fst (set_connections_gauge env w)" w' r]
  by (auto simp: after_connection_def bind_def set_connections_gauge_def modify_world_def ret_def
      finish_supervisor_def update_health_def split: prod.splits sum.splits bool.splits if_splits)

lemma supervise_continue:
  assumes "supervise_iteration env st it b w = (w', Inr (SupContinue b'))"
  obtains "b' = backoff_min st"
  | "b' = min (duration_saturating_mul b 2) (backoff_max st)"
  | "b' = min (duration_saturating_mul (backoff_min st) 2) (backoff_max st)"
proof -
  from assms obtain s w1 where "after_connection env st it s b w1 = (w', Inr (SupContinue b'))"
    by (auto simp: supervise_iteration_def bind_def ret_def finish_supervisor_def
        split: prod.splits sum.splits wait_result.splits stop.splits)
  from after_connection_cases [OF this] that show ?thesis by (auto split: if_splits)
qed

text \<open>Every handler that returns leaves the endpoint's error text within its bound.\<close>

definition keeps :: "provider \<Rightarrow> endpoint_kind \<Rightarrow> (('s, 'ch) world, 'a) handler \<Rightarrow> bool" where
  "keeps p e m \<longleftrightarrow> (\<forall>w w' r. short_error (health_entry (w_health w) (p, e)) \<longrightarrow> m w = (w', r) \<longrightarrow>
     r \<noteq> Inl Panicked \<longrightarrow> short_error (health_entry (w_health w') (p, e)))"

lemma keepsD:
  "keeps p e m \<Longrightarrow> short_error (health_entry (w_health w) (p, e)) \<Longrightarrow> m w = (w', r) \<Longrightarrow> r \<noteq> Inl Panicked \<Longrightarrow>
     short_error (health_entry (w_health w') (p, e))"
  unfolding keeps_def by blast

lemma keeps_same: "(\<And>w w' r. m w = (w', r) \<Longrightarrow> w_health w' = w_health w) \<Longrightarrow> keeps p e m"
  unfolding keeps_def by metis

lemma keeps_bind: "keeps p e m \<Longrightarrow> (\<And>x. keeps p e (f x)) \<Longrightarrow> keeps p e (bind m f)"
proof (unfold keeps_def, intro allI impI)
  fix w w' r
  assume m: "\<forall>w w' r. short_error (health_entry (w_health w) (p, e)) \<longrightarrow> m w = (w', r) \<longrightarrow>
      r \<noteq> Inl Panicked \<longrightarrow> short_error (health_entry (w_health w') (p, e))"
    and f: "\<And>x. \<forall>w w' r. short_error (health_entry (w_health w) (p, e)) \<longrightarrow> f x w = (w', r) \<longrightarrow>
      r \<noteq> Inl Panicked \<longrightarrow> short_error (health_entry (w_health w') (p, e))"
    and w: "short_error (health_entry (w_health w) (p, e))" "bind m f w = (w', r)" "r \<noteq> Inl Panicked"
  obtain w1 r1 where m1: "m w = (w1, r1)" by force
  show "short_error (health_entry (w_health w') (p, e))"
  proof (cases r1)
    case (Inl s)
    then show ?thesis using m w m1 by (auto simp: bind_def)
  next
    case (Inr x)
    then have "short_error (health_entry (w_health w1) (p, e))" using m w(1) m1 by blast
    then show ?thesis using f [of x] w(2,3) m1 Inr by (auto simp: bind_def)
  qed
qed

lemma keeps_with: "(\<And>v. keeps p e (f v)) \<Longrightarrow> keeps p e (with_world f)"
  unfolding keeps_def with_world_def by blast

lemma keeps_run_if: "keeps p e m \<Longrightarrow> keeps p e (run_if b m)"
  by (auto simp: keeps_def run_if_def ret_def)

lemma keeps_update: "keeps (env_provider env) (env_endpoint env) (update_health env f)"
  by (auto simp: keeps_def update_health_def health_update_def Let_def truncate_500 short_error_def
      split: prod.splits bool.splits option.splits if_splits)

lemma keeps_modify: "(\<And>w. w_health (f w) = w_health w) \<Longrightarrow> keeps p e (modify_world f)"
  by (rule keeps_same) (auto simp: modify_world_def)

lemma keeps_ret: "keeps p e (ret x)" "keeps p e (stop_with s)" "keeps p e (lift_result res)"
  by (rule keeps_same, auto simp: ret_def stop_with_def lift_result_def split: sum.splits)+

lemma keeps_send: "keeps p e (send_message io msg)"
  by (rule keeps_same) (auto simp: send_message_def split: send_outcome.splits)

lemma keeps_heartbeat: "keeps p e (send_heartbeat io hb)"
  by (cases hb) (simp_all add: keeps_send)

lemma keeps_close: "keeps p e (close_and_exit io ex)"
  by (rule keeps_same) (auto simp: close_and_exit_def send_ignoring_def bind_def stop_with_def
      send_message_def split: send_outcome.splits)

lemma keeps_queue: "keeps p e (queue_subscription_diff env action subs)"
  by (rule keeps_same) (auto simp: queue_subscription_diff_def split: sum.splits prod.splits if_splits)

lemma keeps_count: "keeps p e (count_invalid env)" "keeps p e (accept_event env ev)"
  by (auto simp: count_invalid_def accept_event_def intro!: keeps_modify)

lemma keeps_if: "keeps p e m \<Longrightarrow> keeps p e m' \<Longrightarrow> keeps p e (if b then m else m')"
  by simp

lemmas keeps_rules = keeps_if keeps_bind keeps_with keeps_run_if keeps_update keeps_modify keeps_ret keeps_send
  keeps_heartbeat keeps_close keeps_queue keeps_count

lemma keeps_mark_live: "keeps (env_provider env) (env_endpoint env) (mark_live env)"
  unfolding mark_live_def by (rule keeps_update)

lemma keeps_process_events: "keeps p e (process_events env es b)"
  by (induction es arbitrary: b) (auto intro!: keeps_rules split: sum.splits)

lemma keeps_via:
  assumes "\<And>w. m w = f w (g w)" and "\<And>v. keeps p e (f v)" and "\<And>w. w_health (g w) = w_health w"
  shows "keeps p e m"
  unfolding keeps_def
proof (intro allI impI)
  fix w w' r
  assume "short_error (health_entry (w_health w) (p, e))" "m w = (w', r)" "r \<noteq> Inl Panicked"
  then show "short_error (health_entry (w_health w') (p, e))"
    using keepsD [OF assms(2) [of w], of "g w" w' r] assms(1,3) by simp
qed

lemma keeps_process_parsed: "keeps (env_provider env) (env_endpoint env) (process_parsed env io parsed)"
proof (cases parsed)
  case (Inl er)
  then show ?thesis by (cases er) (simp_all add: process_parsed_def keeps_ret keeps_bind keeps_count)
next
  case (Inr f)
  then show ?thesis
    by (cases f) (simp_all add: process_parsed_def keeps_ret keeps_bind keeps_run_if keeps_update keeps_process_events)
qed

lemma keeps_process_text: "keeps (env_provider env) (env_endpoint env) (process_text env io text)"
  by (rule keeps_via [where f = "\<lambda>w. process_parsed env io (snd (as_parse (env_adapter env) (w_session w) text (io_unix_ms io)))"
        and g = "\<lambda>w. w\<lparr>w_session := fst (as_parse (env_adapter env) (w_session w) text (io_unix_ms io))\<rparr>"])
    (auto simp: process_text_def split_beta intro: keeps_process_parsed)

lemma keeps_commands: "keeps p e (acknowledge_request r)" "keeps p e (mark_command_sent c)"
  by (rule keeps_same, auto simp: acknowledge_request_def mark_command_sent_def split: prod.splits sum.splits)+

lemma keeps_handle_processed:
  "keeps (env_provider env) (env_endpoint env) (handle_processed_frame env io f)"
proof (cases f)
  case (AcknowledgedFrame r)
  show ?thesis
    unfolding AcknowledgedFrame handle_processed_frame.simps
    by (intro keeps_rules keeps_commands keeps_mark_live) simp_all
qed (simp_all add: keeps_ret)

lemma keeps_handle_text: "keeps (env_provider env) (env_endpoint env) (handle_text env io text)"
  unfolding handle_text_def
proof (rule keeps_bind [OF keeps_process_text])
  show "keeps (env_provider env) (env_endpoint env) (case f of ReplyFrame reply \<Rightarrow> send_heartbeat io reply
      | _ \<Rightarrow> bind (handle_processed_frame env io f) (\<lambda>m.
          run_if m (modify_world (\<lambda>w. w\<lparr>w_last_market_event := io_now io\<rparr>))))" for f
  proof -
    have "keeps (env_provider env) (env_endpoint env) (bind (handle_processed_frame env io f) (\<lambda>m.
        run_if m (modify_world (\<lambda>w. w\<lparr>w_last_market_event := io_now io\<rparr>))))"
      by (intro keeps_bind keeps_handle_processed keeps_run_if keeps_modify) simp
    then show ?thesis by (cases f) (simp_all add: keeps_heartbeat)
  qed
qed

lemma keeps_handle_frame: "keeps (env_provider env) (env_endpoint env) (handle_frame env io incoming)"
proof (cases incoming)
  case (Some r)
  show ?thesis
  proof (cases r)
    case (Inr msg)
    show ?thesis
      unfolding handle_frame_def Some Inr option.case sum.case
      by (rule keeps_bind, simp add: keeps_modify)
        (cases msg; simp add: keeps_handle_text keeps_bind keeps_ret keeps_send)
  qed (simp add: handle_frame_def Some keeps_ret)
qed (simp add: handle_frame_def keeps_ret)

lemma keeps_send_command: "keeps (env_provider env) (env_endpoint env) (send_command env io c)"
  unfolding send_command_def by (intro keeps_rules keeps_commands keeps_mark_live) simp_all

lemma keeps_panic: "keeps p e (\<lambda>w. (w, Inl Panicked))"
  by (simp add: keeps_def)

lemma keeps_command_tick: "keeps (env_provider env) (env_endpoint env) (handle_command_tick env io)"
  by (rule keeps_via [where f = "\<lambda>w. case snd (pop_front (w_commands w)) of
        None \<Rightarrow> \<lambda>w. (w, Inl Panicked) | Some c \<Rightarrow> send_command env io c"
        and g = "\<lambda>w. case snd (pop_front (w_commands w)) of None \<Rightarrow> w | Some c \<Rightarrow> w\<lparr>w_commands := fst (pop_front (w_commands w))\<rparr>"])
    (auto simp: handle_command_tick_def keeps_send_command keeps_panic split: option.splits prod.splits)

lemma keeps_heartbeat_tick: "keeps (env_provider env) (env_endpoint env) (handle_heartbeat env io)"
  by (rule keeps_via [where f = "\<lambda>w. if io_now io - w_last_market_event w \<ge> ct_stale_after (env_target env)
        then stop_with (Failed (Stale (ct_stale_after (env_target env))))
        else send_heartbeat io (snd (as_heartbeat (env_adapter env) (w_session w)))"
        and g = "\<lambda>w. if io_now io - w_last_market_event w \<ge> ct_stale_after (env_target env) then w
        else w\<lparr>w_session := fst (as_heartbeat (env_adapter env) (w_session w))\<rparr>"])
    (simp_all add: handle_heartbeat_def stop_with_def split_beta keeps_ret keeps_heartbeat)

lemma keeps_desired_changed: "keeps (env_provider env) (env_endpoint env) (handle_desired_changed env io changed)"
proof (cases changed)
  case (Some snapshot)
  show ?thesis
    unfolding handle_desired_changed_def Some option.case Let_def update_desired_metrics_def
    by (intro keeps_rules) simp_all
qed (simp add: handle_desired_changed_def keeps_ret)

lemma keeps_conn_step: "keeps (env_provider env) (env_endpoint env) (conn_step env io b)"
  by (cases b) (simp_all add: keeps_close keeps_ret keeps_command_tick keeps_heartbeat_tick
      keeps_desired_changed keeps_handle_frame)

lemma keeps_run_loop: "keeps (env_provider env) (env_endpoint env) (run_loop env turns)"
proof (induction turns)
  case (Cons t turns)
  obtain io b where t: "t = (io, b)" by force
  have "run_loop env (t # turns) = bind (conn_step env io b) (\<lambda>_. run_loop env turns)"
    by (auto simp: t bind_def fun_eq_iff)
  then show ?case by (simp add: keeps_bind keeps_conn_step Cons.IH)
qed (auto intro: keeps_same)

lemma keeps_start_connection:
  "keeps (env_provider env) (env_endpoint env) (start_connection env outcome io desired)"
proof (cases outcome)
  case Connected
  show ?thesis
    by (rule keeps_via [where f = "\<lambda>_. bind (queue_subscription_diff env Subscribe (sorted_list_of_set desired)) (\<lambda>_.
          bind (modify_world (\<lambda>w. w\<lparr>w_metrics := (w_metrics w)\<lparr>mx_upstream_connections :=
            (mx_upstream_connections (w_metrics w))(env_labels env := 1)\<rparr>\<rparr>)) (\<lambda>_.
          bind (update_health env (\<lambda>h. h\<lparr>eh_state := Connecting, eh_connection_epoch := Some (env_epoch env),
            eh_connected_at_ms := Some (io_unix_ms io), eh_last_event_at_ms := None,
            eh_last_error := None\<rparr>)) (\<lambda>_.
          with_world (\<lambda>w. run_if (readiness_complete (w_commands w))
            (bind (mark_live env) (\<lambda>_. modify_world (\<lambda>w. w\<lparr>w_live := True\<rparr>)))))))"
        and g = "\<lambda>w. w\<lparr>w_session := ad_session (env_adapter env) (env_endpoint env) (env_epoch env),
          w_commands := default_commands, w_desired := desired, w_last_market_event := io_now io,
          w_ack_deadline := None, w_live := False, w_idle_after_commands := False, w_sent := []\<rparr>"],
        simp add: start_connection_def Connected, intro keeps_rules keeps_mark_live) simp_all
qed (auto simp: start_connection_def intro!: keeps_same)

lemma keeps_run_connection: "keeps (env_provider env) (env_endpoint env) (run_connection env it d)"
  using keeps_start_connection [of "connection_env env it target" for target]
    keeps_run_loop [of "connection_env env it target" for target]
  by (auto simp: run_connection_def intro!: keeps_ret keeps_bind split: sum.splits)

lemma after_connection_panic:
  assumes "short_error (own_health env w)" and "after_connection env st it s b w = (w', Inl Panicked)"
  shows "\<not> it_shutdown it \<and> cut_panics (stop_message s)"
proof -
  obtain w1 where g: "set_connections_gauge env w = (w1, Inr ())" "own_health env w1 = own_health env w"
    by (simp add: set_connections_gauge_def modify_world_def)
  have f: "finish_supervisor env w1 \<noteq> (w', Inl Panicked)"
    using finish_returns [of env w1] assms(1) g(2) by auto
  show ?thesis
    using assms(2) f after_failure_cases [of env st it s b w1 w' "Inl Panicked"]
    by (auto simp: after_connection_def bind_def g(1) ret_def split: if_splits)
qed

text \<open>The supervisor over its turns: the world and the backoff it carries.\<close>

inductive sup_step ::
  "('s, 'ch) env \<Rightarrow> settings \<Rightarrow> ('s, 'ch) world \<times> duration \<Rightarrow> ('s, 'ch) world \<times> duration \<Rightarrow> bool" for env st where
  sup_stepI: "supervise_iteration env st it b w = (w', Inr (SupContinue b')) \<Longrightarrow> sup_step env st (w, b) (w', b')"

inductive_cases sup_stepE: "sup_step env st (w, b) t"

definition sup_start :: "settings \<Rightarrow> ('s, 'ch) world \<times> duration \<Rightarrow> bool" where
  "sup_start st s \<longleftrightarrow> snd s = backoff_min st"

definition backoff_power :: "settings \<Rightarrow> duration \<Rightarrow> bool" where
  "backoff_power st b \<longleftrightarrow> (\<exists>n. b = min (2 ^ n * backoff_min st) (backoff_max st))"

lemma backoff_power_double:
  assumes "backoff_power st b" and "backoff_min st \<le> backoff_max st"
  shows "backoff_power st (min (duration_saturating_mul b 2) (backoff_max st))"
proof -
  from assms(1) obtain n where b: "b = min (2 ^ n * backoff_min st) (backoff_max st)"
    by (auto simp: backoff_power_def)
  then have "min (duration_saturating_mul b 2) (backoff_max st) = min (2 * b) (backoff_max st)"
    by (intro double_backoff) simp
  also have "\<dots> = min (2 ^ Suc n * backoff_min st) (backoff_max st)" using b by (auto simp: min_def)
  finally show ?thesis unfolding backoff_power_def by blast
qed

lemma settings_backoff:
  assumes "validate_settings st = Inr ()"
  shows "0 < backoff_min st" "backoff_min st \<le> backoff_max st"
  using assms
  by (auto simp: validate_settings_def backoff_min_def backoff_max_def from_millis_def unat_gt_0
      word_less_nat_alt not_less split: if_splits)

lemma backoff_power_min: "backoff_min st \<le> backoff_max st \<Longrightarrow> backoff_power st (backoff_min st)"
  unfolding backoff_power_def by (rule exI [of _ 0]) simp

lemma spawn_tasks:
  "snd (spawn_provider_supervisors ads reg) = concat (map (\<lambda>ad. map (Pair (ad_provider ad)) (ad_endpoints ad)) ads)"
  by (induction ads arbitrary: reg) (simp_all add: Let_def split_beta)

lemma register_all_dom:
  "dom (fold (\<lambda>e r. health_register r p e) es reg) = dom reg \<union> Pair p ` set es"
  by (induction es arbitrary: reg) (auto simp: health_register_def)

lemma spawn_registered:
  "dom (fst (spawn_provider_supervisors ads reg)) = dom reg \<union> set (snd (spawn_provider_supervisors ads reg))"
  by (induction ads arbitrary: reg) (auto simp: Let_def split_beta register_all_dom)

lemma count_list_distinct: "distinct xs \<Longrightarrow> x \<in> set xs \<Longrightarrow> count_list xs x = 1"
  by (induction xs) (auto simp: count_list_0_iff)

lemma count_tasks:
  assumes "distinct (map ad_provider ads)" and "ad \<in> set ads" and "distinct (ad_endpoints ad)" and "e \<in> set (ad_endpoints ad)"
  shows "count_list (concat (map (\<lambda>ad. map (Pair (ad_provider ad)) (ad_endpoints ad)) ads)) (ad_provider ad, e) = 1"
  using assms
proof (induction ads)
  case (Cons a ads)
  have none: "count_list (concat (map (\<lambda>ad. map (Pair (ad_provider ad)) (ad_endpoints ad)) ads)) (ad_provider a, e) = 0"
    using Cons.prems(1) by (auto simp: count_list_0_iff image_iff)
  show ?case
  proof (cases "a = ad")
    case True
    then have "distinct (map (Pair (ad_provider ad)) (ad_endpoints ad))"
      using Cons.prems(3) by (simp add: distinct_map inj_on_def)
    then show ?thesis using none True Cons.prems(4) by (simp add: count_list_append count_list_distinct)
  next
    case False
    then have "ad_provider a \<noteq> ad_provider ad" "ad \<in> set ads" using Cons.prems by force+
    then have "count_list (map (Pair (ad_provider a)) (ad_endpoints a)) (ad_provider ad, e) = 0"
      by (auto simp: count_list_0_iff)
    then show ?thesis using Cons \<open>ad \<in> set ads\<close> by (simp add: count_list_append)
  qed
qed simp

lemma after_failure_kills:
  assumes "cut_panics (show_runtime_error e)" and "\<not> it_shutdown it"
  shows "snd (after_connection env st it (Failed e) b w) = Inl Panicked"
proof -
  obtain w1 where g: "set_connections_gauge env w = (w1, Inr ())"
    by (simp add: set_connections_gauge_def modify_world_def)
  obtain w2 r where "after_failure env st it (Failed e) b w1 = (w2, r)" by force
  then show ?thesis
    using after_failure_cases [of env st it "Failed e" b w1 w2 r] assms
    by (simp add: after_connection_def bind_def g stop_message_def)
qed

section \<open>Properties\<close>

text \<open>
  (C23) Reconnect backoff: with validated settings, at every turn of a supervisor the backoff is
  the configured minimum doubled some number of times and capped at the configured maximum, so
  it always stays within the configured range, and it never overflows.
\<close>

theorem supervisor_backoff_range:
  assumes "validate_settings st = Inr ()" and "reachable (sup_start st) (sup_step env st) (w, b)"
  shows "(\<exists>n. b = min (2 ^ n * backoff_min st) (backoff_max st)) \<and> backoff_min st \<le> b \<and> b \<le> backoff_max st"
proof -
  note le = settings_backoff(2) [OF assms(1)]
  have "backoff_power st (snd s)" if "reachable (sup_start st) (sup_step env st) s" for s
    using that
  proof induction
    case (reachable_start s)
    then show ?case using backoff_power_min [OF le] by (simp add: sup_start_def)
  next
    case (reachable_step s t)
    obtain it b' where t: "supervise_iteration env st it (snd s) (fst s) = (fst t, Inr (SupContinue b'))"
      "snd t = b'"
      using reachable_step(2) by cases auto
    from t(1) show ?case
      by (rule supervise_continue)
        (use backoff_power_double [OF reachable_step(3) le] backoff_power_min [OF le]
          backoff_power_double [OF backoff_power_min [OF le] le] t(2) in simp_all)
  qed
  from this [OF assms(2)] obtain n where n: "b = min (2 ^ n * backoff_min st) (backoff_max st)"
    by (auto simp: backoff_power_def)
  moreover have "backoff_min st \<le> 2 ^ n * backoff_min st" by simp
  ultimately show ?thesis using le by auto
qed


text \<open>
  (C22) A connection that fails with an error text longer than 500 bytes whose byte 500 is inside a
  character takes its supervisor down: recording the failure panics, so the endpoint is never
  reconnected. The text can be the venue's own rejection message.
\<close>

theorem long_error_kills_supervisor:
  assumes "cut_panics (show_runtime_error e)" and "\<not> it_shutdown it"
  shows "snd (after_connection env st it (Failed e) b w) = Inl Panicked"
  by (rule after_failure_kills [OF assms])

text \<open>
  A connection that fails with a recordable error is reported and retried: the endpoint is in
  backoff with one more reconnect and the error text (cut to 500 bytes), its connection data is
  cleared, and the supervisor goes on with twice the backoff (or twice the minimum after a stable
  connection), capped at the maximum.
\<close>

theorem failure_reported:
  assumes "\<not> cut_panics (stop_message s)" and "\<not> it_sleep_cancelled it"
  shows "\<exists>w'. after_failure env st it s b w =
      (w', Inr (SupContinue (min (duration_saturating_mul
        (if it_elapsed it \<ge> stable_connection_duration st then backoff_min st else b) 2) (backoff_max st)))) \<and>
    own_health env w' = (own_health env w)\<lparr>eh_state := Backoff,
      eh_reconnects := saturating_add (eh_reconnects (own_health env w)) 1, eh_connection_epoch := None,
      eh_connected_at_ms := None, eh_last_event_at_ms := None,
      eh_last_error := Some (take 500 (stop_message s))\<rparr>"
  using assms
  by (auto simp: after_failure_def Let_def bind_def modify_world_def update_health_def health_update_def
      truncate_500 ret_def own_health_def)


subsection \<open>Witnesses\<close>

text \<open>Discovery fails with a message whose byte 500 in the full text continues a character.\<close>

definition sample_discovery :: adapter_error where
  "sample_discovery = Discovery Bybit (replicate 454 (CHR ''x'') @ [char_of (195 :: nat), char_of (169 :: nat)])"

definition sample_iteration :: "adapter_error \<Rightarrow> iteration" where
  "sample_iteration e = \<lparr>it_snapshot = {sample_key Ticker}, it_waits = [], it_target = Inl e,
     it_connect = Connected, it_epoch = 9, it_io = sample_io, it_turns = [], it_shutdown = False,
     it_elapsed = 0, it_sleep_cancelled = False\<rparr>"

lemma sample_iteration_running: "\<not> it_shutdown (sample_iteration e)"
  by (simp add: sample_iteration_def)

lemma sample_discovery_cut: "cut_panics (show_runtime_error (AdapterErr sample_discovery))"
  by (simp add: cut_panics_def sample_discovery_def nth_append is_cont_def)

lemma sample_short: "short_error (own_health sample_env sample_world0)"
  by (simp add: own_health_def sample_defs health_entry_def new_endpoint_health_def)

lemma sample_iteration_eq:
  "\<exists>w1 w2. run_connection sample_env (sample_iteration e) {sample_key Ticker} w1 = (w2, Inl (Failed (AdapterErr e))) \<and>
     supervise_iteration sample_env sample_settings (sample_iteration e) b sample_world0 =
       after_connection sample_env sample_settings (sample_iteration e) (Failed (AdapterErr e)) b w2"
proof -
  have d: "filter_desired (env_adapter sample_env) (env_endpoint sample_env) {sample_key Ticker} = {sample_key Ticker}"
    by (auto simp: filter_desired_def sample_defs sample_key_def)
  have run: "run_connection sample_env (sample_iteration e) {sample_key Ticker} w =
      (w, Inl (Failed (AdapterErr e)))" for w
    by (simp add: run_connection_def sample_iteration_def stop_with_def)
  have snap: "it_snapshot (sample_iteration e) = {sample_key Ticker}" by (simp add: sample_iteration_def)
  have "\<exists>w1. update_desired_metrics sample_env (card {sample_key Ticker}) sample_world0 = (w1, Inr ())"
    by (simp add: update_desired_metrics_def bind_def modify_world_def update_health_def
        health_update_short short_error_def sample_defs health_entry_def new_endpoint_health_def)
  then obtain w1 where w1: "update_desired_metrics sample_env (card {sample_key Ticker}) sample_world0 = (w1, Inr ())" ..
  show ?thesis
    by (intro exI conjI, rule run)
      (simp add: supervise_iteration_def bind_def wait_for_desired.simps [of sample_env] snap d w1 [simplified]
        Let_def ret_def update_health_def health_update_short run)
qed

theorem supervisor_backoff_range_witness:
  "\<exists>w. reachable (sup_start sample_settings) (sup_step sample_env sample_settings) (w, 2 * backoff_min sample_settings) \<and>
     2 * backoff_min sample_settings \<le> backoff_max sample_settings"
proof -
  let ?it = "sample_iteration (CommandRejected Bybit ''no'')"
  let ?b = "backoff_min sample_settings"
  obtain w1 w2 where s: "supervise_iteration sample_env sample_settings ?it ?b sample_world0 =
      after_connection sample_env sample_settings ?it (Failed (AdapterErr (CommandRejected Bybit ''no''))) ?b w2"
    using sample_iteration_eq by blast
  have b2: "min (duration_saturating_mul ?b 2) (backoff_max sample_settings) = 2 * ?b"
    by (simp add: duration_saturating_mul_def duration_max_def backoff_min_def backoff_max_def
        from_millis_def sample_settings_def)
  obtain w3 where "after_connection sample_env sample_settings ?it
      (Failed (AdapterErr (CommandRejected Bybit ''no''))) ?b w2 = (w3, Inr (SupContinue (2 * ?b)))"
  proof -
    have "\<not> cut_panics (stop_message (Failed (AdapterErr (CommandRejected Bybit ''no''))))"
      by (simp add: cut_panics_def stop_message_def)
    moreover have "\<not> it_sleep_cancelled ?it" "\<not> stable_connection_duration sample_settings \<le> it_elapsed ?it"
      by (simp_all add: sample_iteration_def stable_connection_duration_def from_secs_def sample_settings_def)
    ultimately obtain w4 w5 where "set_connections_gauge sample_env w2 = (w4, Inr ())"
      "after_failure sample_env sample_settings ?it (Failed (AdapterErr (CommandRejected Bybit ''no''))) ?b w4 =
        (w5, Inr (SupContinue (2 * ?b)))"
      using after_failure_cases [of sample_env sample_settings ?it "Failed (AdapterErr (CommandRejected Bybit ''no''))" ?b]
      by (metis (no_types, lifting) b2 modify_world_def set_connections_gauge_def surj_pair)
    then show ?thesis
      using that by (simp add: after_connection_def bind_def sample_iteration_def)
  qed
  with s have step: "sup_step sample_env sample_settings (sample_world0, ?b) (w3, 2 * ?b)"
    by (intro sup_stepI [of _ _ ?it]) simp
  have "reachable (sup_start sample_settings) (sup_step sample_env sample_settings) (sample_world0, ?b)"
    by (rule reachable_start) (simp add: sup_start_def)
  then have r: "reachable (sup_start sample_settings) (sup_step sample_env sample_settings) (w3, 2 * ?b)"
    using step by (rule reachable_step)
  then show ?thesis using supervisor_backoff_range [OF sample_settings_valid r] by blast
qed


theorem long_error_kills_supervisor_witness:
  "cut_panics (show_runtime_error (AdapterErr sample_discovery)) \<and>
     snd (after_connection sample_env sample_settings (sample_iteration sample_discovery)
       (Failed (AdapterErr sample_discovery)) 1 sample_world0) = Inl Panicked"
  using long_error_kills_supervisor [OF sample_discovery_cut sample_iteration_running] sample_discovery_cut by blast

theorem failure_reported_witness:
  "\<exists>w'. after_failure sample_env sample_settings (sample_iteration sample_discovery) (Exited ExitRotate) 7 sample_world0 =
      (w', Inr (SupContinue 14)) \<and> eh_last_error (own_health sample_env w') = Some ''planned connection rotation''"
proof -
  have c: "\<not> cut_panics (stop_message (Exited ExitRotate))" by (simp add: cut_panics_def stop_message_def)
  have i: "\<not> it_sleep_cancelled (sample_iteration sample_discovery)" by (simp add: sample_iteration_def)
  have n: "\<not> stable_connection_duration sample_settings \<le> it_elapsed (sample_iteration sample_discovery)"
    by (simp add: sample_iteration_def stable_connection_duration_def from_secs_def sample_settings_def)
  have m: "min (duration_saturating_mul 7 2) (backoff_max sample_settings) = 14"
    by (simp add: duration_saturating_mul_def duration_max_def backoff_max_def from_millis_def sample_settings_def)
  show ?thesis
    using failure_reported [OF c i, where env = sample_env and st = sample_settings and b = 7 and w = sample_world0] n m
    by (auto simp: stop_message_def)
qed


end
