(* ===== verification/Contract.thy ===== *)
theory Contract
  imports Sessions Supervisor
begin

text \<open>
  The contract between a venue session (\<open>AdapterSession\<close> in
  \<^verbatim>\<open>src/src/providers/mod.rs\<close>) and the connection loop (\<^verbatim>\<open>src/src/runtime.rs\<close>), and what
  the loop gets from it: request ids that are never empty and never collide, so that queueing and
  sending commands cannot fail on them, and events that carry the connection's own epoch and
  provider. Each adapter's theory shows that its session meets the contract.
\<close>

section \<open>The contract\<close>

text \<open>An event carries the epoch and the provider of its connection and the time of its frame.\<close>

definition stamped :: "uuid \<Rightarrow> provider \<Rightarrow> u64 \<Rightarrow> provider_event \<Rightarrow> bool" where
  "stamped u p now e \<longleftrightarrow>
     pe_connection_epoch e = u \<and> pe_provider e = p \<and> pe_gateway_received_time_ms e = now"

definition frame_stamped :: "uuid \<Rightarrow> provider \<Rightarrow> u64 \<Rightarrow> adapter_error + parsed_frame \<Rightarrow> bool" where
  "frame_stamped u p now r \<longleftrightarrow> (\<forall>es. r = Inr (Events es) \<longrightarrow> list_all (stamped u p now) es)"

lemma frame_stamped_simps [simp]:
  "frame_stamped u p now (Inl e)" "frame_stamped u p now (Inr (Acknowledgement r))"
  "frame_stamped u p now (Inr (Reply hb))" "frame_stamped u p now (Inr Pong)" "frame_stamped u p now (Inr Ignored)"
  "frame_stamped u p now (Inr (Events es)) \<longleftrightarrow> list_all (stamped u p now) es"
  by (simp_all add: frame_stamped_def)

lemma frame_stamped_and_then:
  "(\<And>x. r = Inr x \<Longrightarrow> frame_stamped u p now (f x)) \<Longrightarrow> frame_stamped u p now (and_then r f)"
  by (cases r) simp_all

locale adapter_session =
  fixes A :: "'s adapter" and nid :: "'s \<Rightarrow> u64" and render :: "u64 \<Rightarrow> string" and epoch_of :: "'s \<Rightarrow> uuid"
  assumes render_inj: "render m = render n \<Longrightarrow> m = n"
    and render_not_Nil: "render n \<noteq> []"
    and new_id: "nid (ad_session A kind u) = 1"
    and new_epoch: "epoch_of (ad_session A kind u) = u"
    and messages_issued: "as_subscription_messages A s action subs = (s', Inr cmds) \<Longrightarrow>
      issued nid render s s' (map oc_request_id cmds) \<and> length cmds \<le> 3 * length subs"
    and messages_epoch: "epoch_of (fst (as_subscription_messages A s action subs)) = epoch_of s"
    and heartbeat_id: "nid (fst (as_heartbeat A s)) = nid s \<or> nid (fst (as_heartbeat A s)) = succ_id (nid s)"
    and heartbeat_epoch: "epoch_of (fst (as_heartbeat A s)) = epoch_of s"
    and parse_id: "nid (fst (as_parse A s t now)) = nid s"
    and parse_epoch: "epoch_of (fst (as_parse A s t now)) = epoch_of s"
    and parse_stamped: "frame_stamped (epoch_of s) (ad_provider A) now (snd (as_parse A s t now))"

text \<open>An adapter whose every non-empty difference produces commands.\<close>

locale prompt_session = adapter_session +
  assumes prompt: "subs \<noteq> [] \<Longrightarrow> as_subscription_messages A s action subs = (s', Inr cmds) \<Longrightarrow> cmds \<noteq> []"
begin

lemma prompt_commands: "commands_for_changes A"
  unfolding commands_for_changes_def using prompt by blast

end

section \<open>Handlers that cannot fail on a request id\<close>

definition id_failure :: "stop \<Rightarrow> bool" where
  "id_failure s \<longleftrightarrow> s = Failed InvalidOutboundCommand \<or> (\<exists>r. s = Failed (DuplicateOutboundRequestId r))"

definition avoids :: "('w \<Rightarrow> bool) \<Rightarrow> ('w, 'a) handler \<Rightarrow> ('a \<Rightarrow> 'w \<Rightarrow> bool) \<Rightarrow> bool" where
  "avoids P m Q \<longleftrightarrow> (\<forall>w. P w \<longrightarrow> (case m w of (w', Inr x) \<Rightarrow> Q x w' | (w', Inl s) \<Rightarrow> \<not> id_failure s))"

lemma id_failure_simps [simp]:
  "\<not> id_failure Panicked" "\<not> id_failure (Exited e)" "\<not> id_failure (Failed (AdapterErr a))"
  "\<not> id_failure (Failed (WebSocket m))" "\<not> id_failure (Failed (WriteTimeout d))" "\<not> id_failure (Failed Closed)"
  "\<not> id_failure (Failed (Stale d))" "\<not> id_failure (Failed (ProviderClosed m))"
  "\<not> id_failure (Failed RegistryClosed)" "\<not> id_failure (Failed NonUtf8Binary)"
  "\<not> id_failure (Failed (InvalidBinary m))" "\<not> id_failure (Failed (DecompressedFrameTooLarge n))"
  "\<not> id_failure (Failed (UnexpectedAcknowledgement r))" "\<not> id_failure (Failed (ConnectTimeout d))"
  "\<not> id_failure (Failed (SubscriptionAcknowledgementTimeout d))"
  by (simp_all add: id_failure_def)

lemma avoidsD:
  "avoids P m Q \<Longrightarrow> P w \<Longrightarrow> m w = (w', Inr x) \<Longrightarrow> Q x w'"
  "avoids P m Q \<Longrightarrow> P w \<Longrightarrow> m w = (w', Inl s) \<Longrightarrow> \<not> id_failure s"
  by (fastforce simp: avoids_def)+

lemma avoids_apply:
  "avoids P m Q \<Longrightarrow> P w \<Longrightarrow> case m w of (w', Inr x) \<Rightarrow> Q x w' | (w', Inl s) \<Rightarrow> \<not> id_failure s"
  by (simp add: avoids_def)

lemma avoidsI:
  "(\<And>w w' x. P w \<Longrightarrow> m w = (w', Inr x) \<Longrightarrow> Q x w') \<Longrightarrow> (\<And>w w' s. P w \<Longrightarrow> m w = (w', Inl s) \<Longrightarrow> \<not> id_failure s) \<Longrightarrow>
    avoids P m Q"
  by (auto simp: avoids_def split: prod.splits sum.splits)

lemma avoids_bind:
  assumes "avoids P m (\<lambda>_. R)" and "\<And>x. avoids R (f x) Q"
  shows "avoids P (bind m f) Q"
  unfolding avoids_def
proof (intro allI impI)
  fix w
  assume "P w"
  obtain w1 r where m: "m w = (w1, r)" by force
  show "case bind m f w of (w', Inr x) \<Rightarrow> Q x w' | (w', Inl s) \<Rightarrow> \<not> id_failure s"
  proof (cases r)
    case (Inl s)
    with m avoidsD(2) [OF assms(1) \<open>P w\<close>] show ?thesis by (simp add: bind_def)
  next
    case (Inr x)
    with m avoidsD(1) [OF assms(1) \<open>P w\<close>] have "R w1" by simp
    with assms(2) [of x] m Inr show ?thesis by (simp add: bind_def avoids_def)
  qed
qed

lemma avoids_conseq: "avoids R m Q \<Longrightarrow> (\<And>w. P w \<Longrightarrow> R w) \<Longrightarrow> (\<And>x w. Q x w \<Longrightarrow> S x w) \<Longrightarrow> avoids P m S"
  by (fastforce simp: avoids_def split: prod.splits sum.splits)

text \<open>Handlers that keep one assertion: the rules follow the shape of the handler.\<close>

definition preserves :: "('w \<Rightarrow> bool) \<Rightarrow> ('w, 'a) handler \<Rightarrow> bool" where
  "preserves I m \<longleftrightarrow> avoids I m (\<lambda>_. I)"

lemma preserves_bind: "preserves I m \<Longrightarrow> (\<And>x. preserves I (f x)) \<Longrightarrow> preserves I (bind m f)"
  unfolding preserves_def by (rule avoids_bind)

lemma preserves_ret: "preserves I (ret x)"
  by (simp add: preserves_def avoids_def ret_def)

lemma preserves_stop: "\<not> id_failure s \<Longrightarrow> preserves I (stop_with s)"
  by (simp add: preserves_def avoids_def stop_with_def)

lemma preserves_modify: "(\<And>w. I w \<Longrightarrow> I (f w)) \<Longrightarrow> preserves I (modify_world f)"
  by (simp add: preserves_def avoids_def modify_world_def)

lemma preserves_with: "(\<And>v. preserves I (f v)) \<Longrightarrow> preserves I (with_world f)"
  by (simp add: preserves_def avoids_def with_world_def)

lemma avoids_with: "(\<And>v. P v \<Longrightarrow> avoids P (f v) Q) \<Longrightarrow> avoids P (with_world f) Q"
  by (simp add: avoids_def with_world_def)

lemma preserves_run_if: "preserves I m \<Longrightarrow> preserves I (run_if b m)"
  by (simp add: run_if_def preserves_ret)

lemma preserves_close: "preserves I (close_and_exit io e)"
  by (simp add: preserves_def avoids_def close_and_exit_def bind_def send_ignoring_def stop_with_def)

lemmas preserves_rules = preserves_bind preserves_ret preserves_stop preserves_modify preserves_with
  preserves_run_if preserves_close

section \<open>The invariant\<close>

text \<open>
  At most \<open>n\<close> numbers have been handed out, the known request ids are among them, the
  session belongs to the connection's epoch, and at most \<open>D\<close> keys are desired.
\<close>

definition session_inv ::
  "('s \<Rightarrow> u64) \<Rightarrow> (u64 \<Rightarrow> string) \<Rightarrow> ('s \<Rightarrow> uuid) \<Rightarrow> uuid \<Rightarrow> nat \<Rightarrow> nat \<Rightarrow> ('s, 'ch) world \<Rightarrow> bool" where
  "session_inv nid render epoch_of u D n w \<longleftrightarrow>
     commands_inv (w_commands w) \<and>
     (\<exists>i \<le> n. nid (w_session w) = nth_id i \<and>
        cmd_known_request_ids (w_commands w) \<subseteq> (\<lambda>j. render (nth_id j)) ` {..< i}) \<and>
     epoch_of (w_session w) = u \<and> finite (w_desired w) \<and> card (w_desired w) \<le> D"

lemma session_inv_frame [simp]:
  "session_inv nid render ep u D n (w\<lparr>w_sent := a\<rparr>) = session_inv nid render ep u D n w"
  "session_inv nid render ep u D n (w\<lparr>w_health := b\<rparr>) = session_inv nid render ep u D n w"
  "session_inv nid render ep u D n (w\<lparr>w_metrics := c\<rparr>) = session_inv nid render ep u D n w"
  "session_inv nid render ep u D n (w\<lparr>w_hub := d\<rparr>) = session_inv nid render ep u D n w"
  "session_inv nid render ep u D n (w\<lparr>w_ack_deadline := e\<rparr>) = session_inv nid render ep u D n w"
  "session_inv nid render ep u D n (w\<lparr>w_live := f\<rparr>) = session_inv nid render ep u D n w"
  "session_inv nid render ep u D n (w\<lparr>w_last_market_event := g\<rparr>) = session_inv nid render ep u D n w"
  "session_inv nid render ep u D n (w\<lparr>w_idle_after_commands := h\<rparr>) = session_inv nid render ep u D n w"
  by (simp_all add: session_inv_def)

lemma session_inv_mono: "session_inv nid render ep u D n w \<Longrightarrow> n \<le> m \<Longrightarrow> session_inv nid render ep u D m w"
  unfolding session_inv_def by (meson le_trans)

context adapter_session
begin

abbreviation sinv :: "uuid \<Rightarrow> nat \<Rightarrow> nat \<Rightarrow> ('s, 'ch) world \<Rightarrow> bool" where
  "sinv \<equiv> session_inv nid render epoch_of"

lemma session_inv_session:
  "sinv u D n w \<Longrightarrow> nid s = nid (w_session w) \<Longrightarrow> epoch_of s = epoch_of (w_session w) \<Longrightarrow>
    sinv u D n (w\<lparr>w_session := s\<rparr>)"
  by (simp add: session_inv_def)

lemma process_events_keeps: "fst (process_events env es b w) = w\<lparr>w_metrics := w_metrics (fst (process_events env es b w)),
    w_hub := w_hub (fst (process_events env es b w))\<rparr> \<and> (\<forall>s. snd (process_events env es b w) \<noteq> Inl s)"
  using process_events_effect [of env es b w] by auto

lemma preserves_update_health: "preserves (sinv u D n :: ('s, 'ch) world \<Rightarrow> bool) (update_health env f)"
  by (auto simp: preserves_def avoids_def update_health_def split: prod.splits bool.splits)

lemma preserves_send: "preserves (sinv u D n :: ('s, 'ch) world \<Rightarrow> bool) (send_message io msg)"
  by (auto simp: preserves_def avoids_def send_message_def split: send_outcome.splits)

lemma preserves_send_heartbeat: "preserves (sinv u D n :: ('s, 'ch) world \<Rightarrow> bool) (send_heartbeat io hb)"
  by (cases hb) (simp_all add: preserves_send)

lemma preserves_process_events: "preserves (sinv u D n :: ('s, 'ch) world \<Rightarrow> bool) (process_events env es b)"
  unfolding preserves_def
proof (rule avoidsI)
  fix w w' :: "('s, 'ch) world" and x
  assume "sinv u D n w" "process_events env es b w = (w', Inr x)"
  with process_events_keeps [of env es b w] show "sinv u D n w'" by (metis fst_conv session_inv_frame(3,4))
qed (use process_events_keeps in \<open>metis snd_conv\<close>)

lemmas preserves_base = preserves_rules preserves_update_health preserves_send preserves_send_heartbeat
  preserves_process_events

lemma preserves_process_parsed: "preserves (sinv u D n :: ('s, 'ch) world \<Rightarrow> bool) (process_parsed env io r)"
  unfolding process_parsed_def count_invalid_def
  by (auto intro!: preserves_base split: sum.splits parsed_frame.splits adapter_error.splits)

lemma preserves_process_text:
  assumes "env_adapter env = A"
  shows "preserves (sinv u D n :: ('s, 'ch) world \<Rightarrow> bool) (process_text env io t)"
  unfolding preserves_def avoids_def
proof (intro allI impI)
  fix w :: "('s, 'ch) world"
  assume inv: "sinv u D n w"
  obtain s r where p: "as_parse A (w_session w) t (io_unix_ms io) = (s, r)" by force
  then have "sinv u D n (w\<lparr>w_session := s\<rparr>)"
    using session_inv_session [OF inv] parse_id parse_epoch by (metis fst_conv)
  with preserves_process_parsed [of u D n env io r] p assms
  show "case process_text env io t w of (w', Inr x) \<Rightarrow> sinv u D n w' | (w', Inl s) \<Rightarrow> \<not> id_failure s"
    by (simp add: process_text_def avoids_def preserves_def)
qed

lemma preserves_acknowledge: "preserves (sinv u D n :: ('s, 'ch) world \<Rightarrow> bool) (acknowledge_request r)"
  unfolding preserves_def
proof (rule avoidsI)
  fix w w' :: "('s, 'ch) world" and x
  assume inv: "sinv u D n w" and "acknowledge_request r w = (w', Inr x)"
  then have "w' = w\<lparr>w_commands := fst (acknowledge (w_commands w) r)\<rparr>"
    by (auto simp: acknowledge_request_def split: prod.splits sum.splits)
  moreover have "cmd_known_request_ids (fst (acknowledge c r)) \<subseteq> cmd_known_request_ids c" for c
    by (auto simp: acknowledge_def Let_def split: option.splits)
  ultimately show "sinv u D n w'"
    using inv acknowledge_inv [of "w_commands w" r] unfolding session_inv_def by fastforce
next
  fix w w' :: "('s, 'ch) world" and s
  assume "acknowledge_request r w = (w', Inl s)"
  then show "\<not> id_failure s"
    by (auto simp: acknowledge_request_def acknowledge_def Let_def split: prod.splits sum.splits option.splits if_splits)
qed

lemma preserves_handle_processed: "preserves (sinv u D n :: ('s, 'ch) world \<Rightarrow> bool) (handle_processed_frame env io f)"
proof (cases f)
  case (AcknowledgedFrame r)
  show ?thesis
    unfolding AcknowledgedFrame handle_processed_frame.simps mark_live_def
    by (rule preserves_bind [OF preserves_acknowledge]) (auto intro!: preserves_base)
qed (simp_all add: preserves_ret)

lemma preserves_handle_text:
  assumes "env_adapter env = A"
  shows "preserves (sinv u D n :: ('s, 'ch) world \<Rightarrow> bool) (handle_text env io t)"
  unfolding handle_text_def
  by (rule preserves_bind [OF preserves_process_text [OF assms]])
    (auto intro!: preserves_base preserves_handle_processed simp del: handle_processed_frame.simps
      split: processed_frame.split)

lemma preserves_handle_frame:
  assumes "env_adapter env = A"
  shows "preserves (sinv u D n :: ('s, 'ch) world \<Rightarrow> bool) (handle_frame env io incoming)"
proof -
  have lift: "preserves (sinv u D n :: ('s, 'ch) world \<Rightarrow> bool) (lift_result (decode_binary_frame g utf8 bytes m))"
    for g utf8 bytes m
    by (auto simp: preserves_def avoids_def lift_result_def decode_binary_frame_def split: sum.splits if_splits)
  show ?thesis
    unfolding handle_frame_def
    by (auto intro!: preserves_base lift preserves_handle_text [OF assms] split: option.split sum.split ws_message.split)
qed

text \<open>Popping, sending and marking the front command is one step on the bookkeeping.\<close>

lemma mark_popped:
  assumes "sinv u D n (w :: ('s, 'ch) world)" and "cmd_queued (w_commands w) = q # qs"
  shows "\<exists>c. mark_command_sent q (w\<lparr>w_commands := (w_commands w)\<lparr>cmd_queued := qs\<rparr>, w_sent := m\<rparr>) =
      (w\<lparr>w_commands := c, w_sent := m\<rparr>, Inr ()) \<and> sinv u D n (w\<lparr>w_commands := c, w_sent := m\<rparr>)"
proof -
  from assms(1) have inv: "commands_inv (w_commands w)" by (simp add: session_inv_def)
  obtain c where c: "send_front (w_commands w) = (c, Inr ())" "cmd_known_request_ids c \<subseteq> cmd_known_request_ids (w_commands w)"
    using send_front_Cons [OF inv assms(2)] by (cases "qc_expected_acknowledgements q = 0") auto
  moreover from c(1) have "mark_sent ((w_commands w)\<lparr>cmd_queued := qs\<rparr>) (qc_request_id q) (qc_expected_acknowledgements q) = (c, Inr ())"
    by (simp add: send_front_def pop_front_def assms(2))
  moreover have "commands_inv c" using send_front_inv [OF inv] c(1) assms(2) by (simp add: has_queued_def)
  ultimately show ?thesis
    using assms(1) by (intro exI [of _ c]) (auto simp: mark_command_sent_def session_inv_def)
qed

lemma preserves_command_tick: "preserves (sinv u D n :: ('s, 'ch) world \<Rightarrow> bool) (handle_command_tick env io)"
  unfolding preserves_def avoids_def
proof (intro allI impI)
  fix w :: "('s, 'ch) world"
  assume inv: "sinv u D n w"
  show "case handle_command_tick env io w of (w', Inr x) \<Rightarrow> sinv u D n w' | (w', Inl s) \<Rightarrow> \<not> id_failure s"
  proof (cases "cmd_queued (w_commands w)")
    case Nil
    then show ?thesis by (simp add: handle_command_tick_def pop_front_def)
  next
    case (Cons q qs)
    let ?w = "w\<lparr>w_commands := (w_commands w)\<lparr>cmd_queued := qs\<rparr>\<rparr>"
    define rest where "rest = bind (run_if (0 < qc_expected_acknowledgements q) (modify_world (\<lambda>w :: ('s, 'ch) world. w\<lparr>w_ack_deadline :=
         Some (io_now io + ct_subscription_ack_timeout (env_target env))\<rparr>))) (\<lambda>_.
       with_world (\<lambda>w.
       bind (run_if (readiness_complete (w_commands w))
         (bind (modify_world (\<lambda>w. w\<lparr>w_ack_deadline := None\<rparr>)) (\<lambda>_.
          bind (mark_live env) (\<lambda>_. modify_world (\<lambda>w. w\<lparr>w_live := True\<rparr>))))) (\<lambda>_.
       run_if (w_idle_after_commands w \<and> \<not> has_queued (w_commands w))
         (close_and_exit io ExitIdle))))"
    have rest: "preserves (sinv u D n :: ('s, 'ch) world \<Rightarrow> bool) rest"
      unfolding rest_def mark_live_def by (auto intro!: preserves_base)
    have tick: "handle_command_tick env io w =
        bind (send_message io (TextMsg (qc_text q))) (\<lambda>_. bind (mark_command_sent q) (\<lambda>_. rest)) ?w"
      by (simp add: handle_command_tick_def pop_front_def Cons send_command_def rest_def)
    show ?thesis
    proof (cases "io_send io")
      case Sent
      obtain c where c: "mark_command_sent q (?w\<lparr>w_sent := w_sent w @ [TextMsg (qc_text q)]\<rparr>) =
          (w\<lparr>w_commands := c, w_sent := w_sent w @ [TextMsg (qc_text q)]\<rparr>, Inr ())"
        "sinv u D n (w\<lparr>w_commands := c, w_sent := w_sent w @ [TextMsg (qc_text q)]\<rparr>)"
        using mark_popped [OF inv Cons] by blast
      with rest show ?thesis unfolding tick by (simp add: Sent bind_def send_message_def preserves_def avoids_def)
    qed (simp_all add: tick bind_def send_message_def)
  qed
qed

lemma avoids_heartbeat:
  assumes "env_adapter env = A"
  shows "avoids (sinv u D n) (handle_heartbeat env io) (\<lambda>_. sinv u D (Suc n) :: ('s, 'ch) world \<Rightarrow> bool)"
  unfolding avoids_def
proof (intro allI impI)
  fix w :: "('s, 'ch) world"
  assume inv: "sinv u D n w"
  obtain s hb where h: "as_heartbeat A (w_session w) = (s, hb)" by force
  from inv obtain i where i: "i \<le> n" "nid (w_session w) = nth_id i"
    "cmd_known_request_ids (w_commands w) \<subseteq> (\<lambda>j. render (nth_id j)) ` {..< i}"
    by (auto simp: session_inv_def)
  have "nid s = nth_id i \<or> nid s = nth_id (Suc i)" "epoch_of s = epoch_of (w_session w)"
    using heartbeat_id [of "w_session w"] heartbeat_epoch [of "w_session w"] h i(2) by auto
  moreover have "\<exists>j \<le> Suc n. nid s = nth_id j \<and> cmd_known_request_ids (w_commands w) \<subseteq> (\<lambda>j. render (nth_id j)) ` {..< j}"
    using calculation(1)
  proof
    assume "nid s = nth_id (Suc i)"
    with i show ?thesis by (intro exI [of _ "Suc i"]) (auto simp: lessThan_Suc)
  qed (use i in \<open>auto intro!: exI [of _ i]\<close>)
  ultimately have "sinv u D (Suc n) (w\<lparr>w_session := s\<rparr>)" using inv by (simp add: session_inv_def)
  moreover have "preserves (sinv u D (Suc n) :: ('s, 'ch) world \<Rightarrow> bool) (send_heartbeat io hb)"
    by (rule preserves_send_heartbeat)
  ultimately show "case handle_heartbeat env io w of (w', Inr x) \<Rightarrow> sinv u D (Suc n) w' | (w', Inl s) \<Rightarrow> \<not> id_failure s"
    using h assms by (simp add: handle_heartbeat_def preserves_def avoids_def)
qed

lemma fresh_ids:
  assumes "issued nid render s s' (map oc_request_id cmds)" and "nid s = nth_id i"
    and "cmd_known_request_ids c \<subseteq> (\<lambda>j. render (nth_id j)) ` {..< i}" and "i + length cmds < 2 ^ 64 - 1"
  shows "fresh_commands c cmds \<and> nid s' = nth_id (i + length cmds) \<and>
    set (map oc_request_id cmds) \<subseteq> (\<lambda>j. render (nth_id j)) ` {..< i + length cmds}"
proof -
  have ids: "map oc_request_id cmds = map (\<lambda>j. render (nth_id j)) [i ..< i + length cmds]"
    and next_id: "nid s' = nth_id (i + length cmds)"
    using assms(1,2) by (simp_all add: issued_def ids_from_nth_id funpow_nth_id)
  have inj: "j = k" if "render (nth_id j) = render (nth_id k)" "j < i + length cmds" "k < i + length cmds" for j k
    using that assms(4) render_inj nth_id_inj by (meson less_trans)
  have "distinct (map oc_request_id cmds)"
    unfolding ids by (auto simp: distinct_map inj_on_def intro: inj)
  moreover have "set (map oc_request_id cmds) \<inter> cmd_known_request_ids c = {}"
    unfolding ids using assms(3) inj by fastforce
  moreover have "[] \<notin> set (map oc_request_id cmds)"
    unfolding ids using render_not_Nil by (metis (no_types, lifting) imageE set_map)
  moreover have "set (map oc_request_id cmds) \<subseteq> (\<lambda>j. render (nth_id j)) ` {..< i + length cmds}"
    unfolding ids by auto
  ultimately show ?thesis using next_id by (simp add: fresh_commands_def)
qed

lemma enqueue_known:
  "snd (enqueue c cmds) = Inr () \<Longrightarrow>
    cmd_known_request_ids (fst (enqueue c cmds)) = cmd_known_request_ids c \<union> set (map oc_request_id cmds)"
  by (induction c cmds rule: enqueue.induct) (auto split: if_splits)

lemma avoids_queue_diff:
  assumes "env_adapter env = A" and "n + 3 * length subs < 2 ^ 64 - 1"
  shows "avoids (sinv u D n) (queue_subscription_diff env action subs)
    (\<lambda>_. sinv u D (n + 3 * length subs) :: ('s, 'ch) world \<Rightarrow> bool)"
  unfolding avoids_def
proof (intro allI impI)
  fix w :: "('s, 'ch) world"
  assume inv: "sinv u D n w"
  show "case queue_subscription_diff env action subs w of (w', Inr x) \<Rightarrow> sinv u D (n + 3 * length subs) w'
      | (w', Inl s) \<Rightarrow> \<not> id_failure s"
  proof (cases "subs = []")
    case True
    then show ?thesis using inv by (simp add: queue_subscription_diff_def)
  next
    case False
    obtain s r where m: "as_subscription_messages A (w_session w) action subs = (s, r)" by force
    then have ep: "epoch_of s = epoch_of (w_session w)" by (metis messages_epoch fst_conv)
    show ?thesis
    proof (cases r)
      case (Inl e)
      then show ?thesis by (simp add: queue_subscription_diff_def False m assms(1))
    next
      case (Inr cmds)
      with messages_issued m have iss: "issued nid render (w_session w) s (map oc_request_id cmds)"
        and len: "length cmds \<le> 3 * length subs" by blast+
      from inv obtain i where i: "i \<le> n" "nid (w_session w) = nth_id i"
        "cmd_known_request_ids (w_commands w) \<subseteq> (\<lambda>j. render (nth_id j)) ` {..< i}"
        by (auto simp: session_inv_def)
      from i(1) len assms(2) have bound: "i + length cmds < 2 ^ 64 - 1" by linarith
      note fresh = fresh_ids [OF iss i(2,3) bound]
      obtain c where c: "enqueue (w_commands w) cmds = (c, Inr ())"
        using fresh enqueue_ok_iff [of "w_commands w" cmds] by (metis prod.collapse)
      then have known: "cmd_known_request_ids c = cmd_known_request_ids (w_commands w) \<union> set (map oc_request_id cmds)"
        using enqueue_known [of "w_commands w" cmds] by simp
      have "commands_inv c" using inv enqueue_inv [of "w_commands w" cmds] c by (simp add: session_inv_def)
      moreover have "cmd_known_request_ids c \<subseteq> (\<lambda>j. render (nth_id j)) ` {..< i + length cmds}"
        unfolding known using fresh i(3) image_mono [of "{..< i}" "{..< i + length cmds}"]
        by (metis Un_least lessThan_subset_iff le_add1 subset_trans)
      moreover have "i + length cmds \<le> n + 3 * length subs" "nid s = nth_id (i + length cmds)"
        using i(1) len fresh by simp_all
      moreover have "epoch_of s = u" "finite (w_desired w)" "card (w_desired w) \<le> D"
        using inv ep by (simp_all add: session_inv_def)
      ultimately have "sinv u D (n + 3 * length subs) (w\<lparr>w_session := s, w_commands := c\<rparr>)"
        unfolding session_inv_def by (intro conjI exI [of _ "i + length cmds"]) simp_all
      then show ?thesis by (simp add: queue_subscription_diff_def False m assms(1) Inr c)
    qed
  qed
qed

lemma avoids_desired_changed:
  assumes "env_adapter env = A" and "n + 6 * D < 2 ^ 64 - 1"
    and "\<And>snapshot. changed = Some snapshot \<Longrightarrow> finite snapshot \<and> card snapshot \<le> D"
  shows "avoids (sinv u D n) (handle_desired_changed env io changed) (\<lambda>_. sinv u D (n + 6 * D) :: ('s, 'ch) world \<Rightarrow> bool)"
proof (cases changed)
  case None
  then show ?thesis by (simp add: handle_desired_changed_def avoids_def stop_with_def)
next
  case (Some snapshot)
  let ?next = "filter_desired (env_adapter env) (env_endpoint env) snapshot"
  have fin: "finite ?next" "card ?next \<le> D"
    using assms(3) [OF Some] card_mono [of snapshot ?next] by (auto simp: filter_desired_def)
  let ?removed = "\<lambda>w :: ('s, 'ch) world. sorted_list_of_set (w_desired w - ?next)"
  let ?added = "\<lambda>w :: ('s, 'ch) world. sorted_list_of_set (?next - w_desired w)"
  define tail :: "bool \<Rightarrow> (('s, 'ch) world, unit) handler" where "tail c = bind (run_if c
        (bind (modify_world (\<lambda>w. w\<lparr>w_live := False\<rparr>)) (\<lambda>_.
         update_health env (\<lambda>h. h\<lparr>eh_state := Connecting, eh_last_error := None\<rparr>)))) (\<lambda>_.
      bind (modify_world (\<lambda>w. w\<lparr>w_desired := ?next, w_idle_after_commands := (?next = {})\<rparr>)) (\<lambda>_.
      with_world (\<lambda>w. run_if (w_idle_after_commands w \<and> \<not> has_queued (w_commands w))
        (close_and_exit io ExitIdle))))" for c
  have tail: "avoids (sinv u D k) (tail c) (\<lambda>_. sinv u D (n + 6 * D))" if "k \<le> n + 6 * D" for k c
  proof -
    have "preserves (sinv u D (n + 6 * D)) (tail c)"
      unfolding tail_def by (rule preserves_base | simp add: session_inv_def fin)+
    then show ?thesis
      unfolding preserves_def by (rule avoids_conseq) (use session_inv_mono that in blast)+
  qed
  have metrics: "preserves (sinv u D n :: ('s, 'ch) world \<Rightarrow> bool) (update_desired_metrics env (card ?next))"
    unfolding update_desired_metrics_def by (rule preserves_base | simp)+
  have changes: "avoids (sinv u D n) (bind (queue_subscription_diff env Unsubscribe (?removed v)) (\<lambda>_.
      bind (queue_subscription_diff env Subscribe (?added v)) (\<lambda>_. tail c))) (\<lambda>_. sinv u D (n + 6 * D))"
    if "sinv u D n v" for v c
  proof -
    have "length (?removed v) \<le> D" "length (?added v) \<le> D"
      using that card_mono [of "w_desired v" "w_desired v - ?next"] card_mono [of ?next "?next - w_desired v"] fin
      by (auto simp: session_inv_def)
    then show ?thesis
      using assms(2)
      by (intro avoids_bind [OF avoids_queue_diff [OF assms(1)]] avoids_bind [OF avoids_queue_diff [OF assms(1)]] tail) linarith+
  qed
  have "handle_desired_changed env io changed = bind (update_desired_metrics env (card ?next)) (\<lambda>_.
      with_world (\<lambda>w. bind (queue_subscription_diff env Unsubscribe (?removed w)) (\<lambda>_.
        bind (queue_subscription_diff env Subscribe (?added w)) (\<lambda>_.
        tail (?removed w \<noteq> [] \<or> ?added w \<noteq> [])))))"
    by (simp only: handle_desired_changed_def Some option.case Let_def tail_def)
  then show ?thesis
    using avoids_bind [OF metrics [unfolded preserves_def] avoids_with [OF changes]] by simp
qed

lemma avoids_conn_step:
  assumes "env_adapter env = A" and "n + 6 * D + 1 < 2 ^ 64 - 1"
    and "\<And>snapshot. b = DesiredChanged (Some snapshot) \<Longrightarrow> finite snapshot \<and> card snapshot \<le> D"
  shows "avoids (sinv u D n) (conn_step env io b) (\<lambda>_. sinv u D (n + (6 * D + 1)) :: ('s, 'ch) world \<Rightarrow> bool)"
proof -
  have up: "avoids (sinv u D n) m (\<lambda>_. sinv u D (n + (6 * D + 1)) :: ('s, 'ch) world \<Rightarrow> bool)"
    if "avoids (sinv u D n) m (\<lambda>_. sinv u D k)" "k \<le> n + (6 * D + 1)" for m :: "(('s, 'ch) world, unit) handler" and k
    using that(1) by (rule avoids_conseq) (use session_inv_mono that(2) in blast)+
  have keep: "avoids (sinv u D n) m (\<lambda>_. sinv u D (n + (6 * D + 1)) :: ('s, 'ch) world \<Rightarrow> bool)"
    if "preserves (sinv u D n) m" for m :: "(('s, 'ch) world, unit) handler"
    using that up [of m n] by (simp add: preserves_def)
  have others: "preserves (sinv u D n :: ('s, 'ch) world \<Rightarrow> bool) (conn_step env io b)"
    if "b \<noteq> HeartbeatTick" "\<forall>c. b \<noteq> DesiredChanged c"
    using that
    by (cases b) (auto intro: preserves_command_tick preserves_handle_frame [OF assms(1)] preserves_close preserves_stop)
  show ?thesis
  proof (cases b)
    case HeartbeatTick
    then show ?thesis using up [OF avoids_heartbeat [OF assms(1)]] by simp
  next
    case (DesiredChanged changed)
    have "avoids (sinv u D n) (handle_desired_changed env io changed) (\<lambda>_. sinv u D (n + 6 * D) :: ('s, 'ch) world \<Rightarrow> bool)"
      using assms DesiredChanged by (intro avoids_desired_changed) auto
    with up show ?thesis by (simp add: DesiredChanged)
  qed (rule keep [OF others]; simp)+
qed

lemma avoids_run_loop:
  assumes "env_adapter env = A" and "n + length turns * (6 * D + 1) < 2 ^ 64 - 1"
    and "\<And>io snapshot. (io, DesiredChanged (Some snapshot)) \<in> set turns \<Longrightarrow> finite snapshot \<and> card snapshot \<le> D"
  shows "avoids (sinv u D n) (run_loop env turns)
    (\<lambda>_. sinv u D (n + length turns * (6 * D + 1)) :: ('s, 'ch) world \<Rightarrow> bool)"
  using assms(2,3)
proof (induction turns arbitrary: n)
  case Nil
  then show ?case by (simp add: avoids_def)
next
  case (Cons turn turns)
  obtain io b where turn: "turn = (io, b)" by force
  have eq: "run_loop env (turn # turns) = bind (conn_step env io b) (\<lambda>_. run_loop env turns)"
    by (rule ext) (simp add: turn bind_def split: prod.splits sum.splits)
  have len: "n + length (turn # turns) * (6 * D + 1) = n + (6 * D + 1) + length turns * (6 * D + 1)" by simp
  have "avoids (sinv u D n) (conn_step env io b) (\<lambda>_. sinv u D (n + (6 * D + 1)) :: ('s, 'ch) world \<Rightarrow> bool)"
    using Cons.prems unfolding len by (intro avoids_conn_step assms(1)) (auto simp: turn)
  then show ?case
    unfolding eq len using Cons.prems unfolding len by (intro avoids_bind [OF _ Cons.IH]) auto
qed

lemma avoids_start:
  assumes "env_adapter env = A" and "3 * card desired < 2 ^ 64 - 1" and "finite desired" and "card desired \<le> D"
  shows "avoids (\<lambda>_. True) (start_connection env outcome io desired)
    (\<lambda>_. sinv (env_epoch env) D (3 * card desired) :: ('s, 'ch) world \<Rightarrow> bool)"
proof (cases outcome)
  case Connected
  have rest: "preserves (sinv u D n :: ('s, 'ch) world \<Rightarrow> bool)
      (bind (modify_world (\<lambda>w. w\<lparr>w_metrics := (w_metrics w)\<lparr>mx_upstream_connections :=
        (mx_upstream_connections (w_metrics w))(env_labels env := 1)\<rparr>\<rparr>)) (\<lambda>_.
      bind (update_health env (\<lambda>h. h\<lparr>eh_state := Connecting, eh_connection_epoch := Some (env_epoch env),
        eh_connected_at_ms := Some (io_unix_ms io), eh_last_event_at_ms := None,
        eh_last_error := None\<rparr>)) (\<lambda>_.
      with_world (\<lambda>w. run_if (readiness_complete (w_commands w))
        (bind (mark_live env) (\<lambda>_. modify_world (\<lambda>w. w\<lparr>w_live := True\<rparr>)))))))" for u n
    unfolding mark_live_def by (rule preserves_base | simp)+
  have queue: "avoids (sinv (env_epoch env) D 0) (queue_subscription_diff env Subscribe (sorted_list_of_set desired))
      (\<lambda>_. sinv (env_epoch env) D (3 * card desired) :: ('s, 'ch) world \<Rightarrow> bool)"
    using avoids_queue_diff [OF assms(1), of 0 "sorted_list_of_set desired"] assms(2) by simp
  have start: "sinv (env_epoch env) D 0 (w\<lparr>w_session := ad_session (env_adapter env) (env_endpoint env) (env_epoch env),
      w_commands := default_commands, w_desired := desired, w_last_market_event := io_now io,
      w_ack_deadline := None, w_live := False, w_idle_after_commands := False, w_sent := []\<rparr>)" for w :: "('s, 'ch) world"
    using assms(1,3,4) new_id new_epoch by (simp add: session_inv_def) (simp add: default_commands_def)
  show ?thesis
    unfolding avoids_def [of "\<lambda>_. True"] start_connection_def Connected connect_outcome.case
    by (intro allI impI avoids_apply [OF avoids_bind [OF queue rest [unfolded preserves_def]]] start)
qed (simp_all add: avoids_def start_connection_def)

lemma run_connection_avoids:
  assumes "env_adapter env = A" and "finite desired" and "card desired \<le> D"
    and "\<And>io snapshot. (io, DesiredChanged (Some snapshot)) \<in> set (it_turns it) \<Longrightarrow> finite snapshot \<and> card snapshot \<le> D"
    and "(length (it_turns it) + 1) * (6 * D + 1) < 2 ^ 64 - 1"
  shows "avoids (\<lambda>_. True) (run_connection env it desired)
    (\<lambda>_. sinv (it_epoch it) D ((length (it_turns it) + 1) * (6 * D + 1)) :: ('s, 'ch) world \<Rightarrow> bool)"
proof (cases "it_target it")
  case (Inl e)
  then show ?thesis by (simp add: run_connection_def avoids_def stop_with_def)
next
  case (Inr target)
  let ?env = "connection_env env it target"
  have n: "3 * card desired + length (it_turns it) * (6 * D + 1) \<le> (length (it_turns it) + 1) * (6 * D + 1)"
    using assms(3) by (simp add: algebra_simps)
  then have fits: "3 * card desired + length (it_turns it) * (6 * D + 1) < 2 ^ 64 - 1" using assms(5) by linarith
  have "avoids (\<lambda>_. True) (start_connection ?env (it_connect it) (it_io it) desired)
      (\<lambda>_. sinv (it_epoch it) D (3 * card desired) :: ('s, 'ch) world \<Rightarrow> bool)"
    using avoids_start [of ?env desired D "it_connect it" "it_io it"] assms(1-3) fits by simp
  moreover have "avoids (sinv (it_epoch it) D (3 * card desired)) (run_loop ?env (it_turns it))
      (\<lambda>_. sinv (it_epoch it) D (3 * card desired + length (it_turns it) * (6 * D + 1)) :: ('s, 'ch) world \<Rightarrow> bool)"
    using assms(1,4) fits by (intro avoids_run_loop) auto
  ultimately have "avoids (\<lambda>_. True) (run_connection env it desired)
      (\<lambda>_. sinv (it_epoch it) D (3 * card desired + length (it_turns it) * (6 * D + 1)) :: ('s, 'ch) world \<Rightarrow> bool)"
    unfolding run_connection_def Inr sum.case by (rule avoids_bind)
  then show ?thesis by (rule avoids_conseq) (use session_inv_mono n in blast)+
qed

text \<open>A connection never ends because of a request id, and keeps its session's epoch.\<close>

lemma run_connection_ids:
  assumes "env_adapter env = A" and "finite desired" and "card desired \<le> D"
    and "\<And>io snapshot. (io, DesiredChanged (Some snapshot)) \<in> set (it_turns it) \<Longrightarrow> finite snapshot \<and> card snapshot \<le> D"
    and "(length (it_turns it) + 1) * (6 * D + 1) < 2 ^ 64 - 1"
  shows "case run_connection env it desired (w :: ('s, 'ch) world) of
      (w', Inl s) \<Rightarrow> \<not> id_failure s
    | (w', Inr _) \<Rightarrow> \<forall>t now. frame_stamped (it_epoch it) (ad_provider A) now (snd (as_parse A (w_session w') t now))"
proof (cases "run_connection env it desired w")
  case (Pair w' r)
  note avoids = run_connection_avoids [OF assms]
  show ?thesis
  proof (cases r)
    case (Inl s)
    with avoidsD(2) [OF avoids] Pair show ?thesis by simp
  next
    case (Inr x)
    with avoidsD(1) [OF avoids] Pair have "epoch_of (w_session w') = it_epoch it" by (simp add: session_inv_def)
    then show ?thesis using parse_stamped [of "w_session w'"] by (simp add: Pair Inr)
  qed
qed

end

lemma collect_results_all:
  "collect_results f xs = Inr ys \<Longrightarrow> (\<And>x y. f x = Inr y \<Longrightarrow> P y) \<Longrightarrow> list_all P ys"
  by (induction xs arbitrary: ys) (auto simp: result_simps split: sum.splits)

lemma collect_results_concat:
  assumes "\<And>x y. f x = Inr y \<Longrightarrow> y \<noteq> [] \<and> length y \<le> b"
  shows "collect_results f xs = Inr ys \<Longrightarrow> length (concat ys) \<le> b * length xs \<and> (xs \<noteq> [] \<longrightarrow> concat ys \<noteq> [])"
proof (induction xs arbitrary: ys)
  case (Cons x xs)
  then obtain y ys' where "f x = Inr y" "collect_results f xs = Inr ys'" "ys = y # ys'"
    by (auto split: sum.splits)
  with Cons.IH [of ys'] assms [of x y] show ?case by auto
qed simp

text \<open>The request ids are decimal numbers, in some adapters after a fixed prefix.\<close>

lemma prefixed_id_inj: "p @ show_nat (unat m) = p @ show_nat (unat n) \<Longrightarrow> m = (n :: u64)"
  by (metis append_same_eq same_append_eq show_nat_inj word_unat_eq_iff)

lemma plain_id_inj: "show_nat (unat m) = show_nat (unat n) \<Longrightarrow> m = (n :: u64)"
  by (rule prefixed_id_inj [of "[]"]) simp

end
