(* ===== verification/Bybit.thy ===== *)
theory Bybit
  imports Contract
begin

text \<open>
  The Bybit adapter (\<^verbatim>\<open>src/src/providers/bybit.rs\<close>): connection parameters, batching of
  subscription topics into commands, acknowledgements and rejections, and the merging of ticker
  snapshots and deltas into normalized events.
\<close>

section \<open>Constants\<close>

definition BYBIT_COMMAND_INTERVAL :: duration where
  "BYBIT_COMMAND_INTERVAL = 150 * 10 ^ 6"

definition BYBIT_SUBSCRIPTION_ACK_TIMEOUT :: duration where
  "BYBIT_SUBSCRIPTION_ACK_TIMEOUT = 15 * 10 ^ 9"

definition BYBIT_HEARTBEAT_INTERVAL :: duration where
  "BYBIT_HEARTBEAT_INTERVAL = 20 * 10 ^ 9"

definition BYBIT_STALE_AFTER :: duration where
  "BYBIT_STALE_AFTER = 45 * 10 ^ 9"

definition BYBIT_MAX_MESSAGE_BYTES :: usize where
  "BYBIT_MAX_MESSAGE_BYTES = 1024 * 1024"

definition BYBIT_MAX_TOPIC_CHARS_PER_COMMAND :: usize where
  "BYBIT_MAX_TOPIC_CHARS_PER_COMMAND = 20000"

definition BYBIT_MAX_TOPICS_PER_COMMAND :: usize where
  "BYBIT_MAX_TOPICS_PER_COMMAND = 100"

definition bybit_connection_target :: "string \<Rightarrow> endpoint_kind \<Rightarrow> adapter_error + connection_target" where
  "bybit_connection_target url endpoint =
     (if endpoint \<noteq> Primary then Inl (UnsupportedEndpoint Bybit endpoint)
      else Inr \<lparr>ct_url = url, ct_command_interval = BYBIT_COMMAND_INTERVAL,
             ct_subscription_ack_timeout = BYBIT_SUBSCRIPTION_ACK_TIMEOUT,
             ct_heartbeat_interval = BYBIT_HEARTBEAT_INTERVAL, ct_stale_after = BYBIT_STALE_AFTER,
             ct_max_message_bytes = BYBIT_MAX_MESSAGE_BYTES, ct_rotate_after = None\<rparr>)"

section \<open>Session\<close>

record bybit_session =
  by_connection_epoch :: uuid
  by_next_request_id :: u64
  by_tickers :: "string \<rightharpoonup> ticker"

definition bybit_new :: "uuid \<Rightarrow> bybit_session" where
  "bybit_new epoch = \<lparr>by_connection_epoch = epoch, by_next_request_id = 1, by_tickers = Map.empty\<rparr>"

definition bybit_invalid :: "string \<Rightarrow> adapter_error" where
  "bybit_invalid message = InvalidPayload Bybit message"

definition bybit_rejected :: "string \<Rightarrow> adapter_error" where
  "bybit_rejected message = CommandRejected Bybit message"

section \<open>Commands\<close>

definition bybit_request_id :: "bybit_session \<Rightarrow> bybit_session \<times> string" where
  "bybit_request_id s =
     (s\<lparr>by_next_request_id := (case checked_add (by_next_request_id s) 1 of Some n \<Rightarrow> n | None \<Rightarrow> 1)\<rparr>,
      ''gateway-'' @ show_nat (unat (by_next_request_id s)))"

definition bybit_command ::
  "json_lib \<Rightarrow> bybit_session \<Rightarrow> string \<Rightarrow> string list \<Rightarrow> bybit_session \<times> outbound_command" where
  "bybit_command J s operation topics =
     (case bybit_request_id s of (s', request_id) \<Rightarrow>
        (s', \<lparr>oc_request_id = request_id,
              oc_text = js_to_string J (JObject [(''args'', JArray (map JString topics)),
                (''op'', JString operation), (''req_id'', JString request_id)]),
              oc_expected_acknowledgements = 1\<rparr>))"

fun bybit_operation :: "subscription_action \<Rightarrow> string" where
  "bybit_operation Subscribe = ''subscribe''"
| "bybit_operation Unsubscribe = ''unsubscribe''"

fun bybit_batch ::
  "json_lib \<Rightarrow> string \<Rightarrow> string list \<Rightarrow> bybit_session \<Rightarrow> outbound_command list \<Rightarrow> string list \<Rightarrow> usize
     \<Rightarrow> bybit_session \<times> outbound_command list" where
  "bybit_batch J operation [] s messages batch batch_chars =
     (if batch \<noteq> []
      then case bybit_command J s operation batch of (s', c) \<Rightarrow> (s', messages @ [c])
      else (s, messages))"
| "bybit_batch J operation (topic # topics) s messages batch batch_chars =
     (if batch \<noteq> [] \<and> (length batch = BYBIT_MAX_TOPICS_PER_COMMAND
          \<or> batch_chars + length topic > BYBIT_MAX_TOPIC_CHARS_PER_COMMAND)
      then case bybit_command J s operation batch of (s', c) \<Rightarrow>
          bybit_batch J operation topics s' (messages @ [c]) [topic] (length topic)
      else bybit_batch J operation topics s messages (batch @ [topic]) (batch_chars + length topic))"

definition bybit_command_messages ::
  "json_lib \<Rightarrow> bybit_session \<Rightarrow> subscription_action \<Rightarrow> string list \<Rightarrow> bybit_session \<times> outbound_command list" where
  "bybit_command_messages J s action topics = bybit_batch J (bybit_operation action) topics s [] [] 0"

definition bybit_topic :: "sub_key \<Rightarrow> string" where
  "bybit_topic k = (case key_channel k of
     Ticker \<Rightarrow> ''tickers.'' @ key_symbol k
   | Candle1m \<Rightarrow> ''kline.1.'' @ key_symbol k)"

fun bybit_topics :: "subscription_action \<Rightarrow> sub_key list \<Rightarrow> string set \<Rightarrow> (string \<rightharpoonup> ticker)
     \<Rightarrow> string list \<times> (string \<rightharpoonup> ticker)" where
  "bybit_topics action [] seen tickers = ([], tickers)"
| "bybit_topics action (k # ks) seen tickers =
     (let topic = bybit_topic k;
          tickers' = (if action = Unsubscribe \<and> key_channel k = Ticker
                      then tickers(key_symbol k := None) else tickers);
          (topics, rest) = bybit_topics action ks (insert topic seen) tickers'
      in (if topic \<in> seen then topics else topic # topics, rest))"

definition bybit_subscription_messages ::
  "json_lib \<Rightarrow> bybit_session \<Rightarrow> subscription_action \<Rightarrow> sub_key list
     \<Rightarrow> bybit_session \<times> (adapter_error + outbound_command list)" where
  "bybit_subscription_messages J s action subs =
     (case validate_subscriptions Bybit subs of
        Inl e \<Rightarrow> (s, Inl e)
      | Inr _ \<Rightarrow>
          (case bybit_topics action subs {} (by_tickers s) of (topics, tickers) \<Rightarrow>
             (case bybit_command_messages J (s\<lparr>by_tickers := tickers\<rparr>) action topics of
                (s', messages) \<Rightarrow> (s', Inr messages))))"

definition bybit_heartbeat :: "json_lib \<Rightarrow> bybit_session \<Rightarrow> bybit_session \<times> heartbeat" where
  "bybit_heartbeat J s = (s, HeartbeatText (js_to_string J (JObject [(''op'', JString ''ping'')])))"

section \<open>Control frames\<close>

definition bybit_control_error_message :: "json \<Rightarrow> string" where
  "bybit_control_error_message v =
     (let found = or_else (or_else (js_get v ''ret_msg'') (js_get v ''retMsg'')) (js_get v ''message'');
          message = (case Option.bind found js_as_str of Some m \<Rightarrow> m | None \<Rightarrow> ''unknown command error'');
          code = Option.bind (or_else (js_get v ''ret_code'') (js_get v ''retCode'')) js_as_i64
      in case code of None \<Rightarrow> message | Some c \<Rightarrow> ''code '' @ show_int c @ '': '' @ message)"

definition bybit_control_acknowledgement :: "json \<Rightarrow> adapter_error + parsed_frame" where
  "bybit_control_acknowledgement v =
     (case Option.bind (or_else (js_get v ''req_id'') (js_get v ''reqId'')) js_as_str of
        Some request_id \<Rightarrow>
          if request_id \<noteq> [] \<and> length request_id \<le> 36 then Inr (Acknowledgement request_id)
          else Inl (bybit_invalid ''command response is missing a valid request id'')
      | None \<Rightarrow> Inl (bybit_invalid ''command response is missing a valid request id''))"

definition bybit_parse_control :: "json_lib \<Rightarrow> json \<Rightarrow> (adapter_error + parsed_frame) option" where
  "bybit_parse_control J v =
     (case js_as_object v of
        None \<Rightarrow> None
      | Some _ \<Rightarrow>
          if get_str v ''type'' = Some ''COMMAND_RESP''
          then Some (case Option.bind (Option.bind (Option.bind (js_get v ''data'') js_as_object)
                 (\<lambda>d. js_get d ''failTopics'')) js_as_array of
               Some topics \<Rightarrow>
                 if topics \<noteq> []
                 then Inl (bybit_rejected (''topics rejected: '' @ js_to_string J (JArray topics)))
                 else bybit_control_acknowledgement v
             | None \<Rightarrow> Inl (bybit_invalid ''COMMAND_RESP is missing data.failTopics''))
          else
            (case js_get v ''op'' of
               None \<Rightarrow>
                 if get_bool v ''success'' = Some False
                 then Some (Inl (bybit_rejected (bybit_control_error_message v))) else None
             | Some (JString operation) \<Rightarrow>
                 if get_bool v ''success'' = Some False
                 then Some (Inl (bybit_rejected (bybit_control_error_message v)))
                 else if operation = ''ping'' \<or> operation = ''pong'' then Some (Inr Pong)
                 else if operation = ''subscribe'' \<or> operation = ''unsubscribe''
                 then Some (case js_get v ''success'' of
                      Some (JBool True) \<Rightarrow> bybit_control_acknowledgement v
                    | Some _ \<Rightarrow> Inl (bybit_invalid ''control field success must be a boolean'')
                    | None \<Rightarrow> Inl (bybit_invalid (operation @ '' response is missing success'')))
                 else Some (Inr Ignored)
             | Some _ \<Rightarrow> Some (Inl (bybit_invalid ''control field op must be a string''))))"

section \<open>Tickers\<close>

record bybit_ticker_envelope =
  bte_topic :: string
  bte_message_type :: string
  bte_ts :: u64
  bte_cs :: u64
  bte_data :: json

definition decode_bybit_ticker_envelope :: "json \<Rightarrow> bybit_ticker_envelope option" where
  "decode_bybit_ticker_envelope v0 =
     Option.bind (as_struct [''topic'', ''type'', ''ts'', ''cs'', ''data''] v0) (\<lambda>v.
     Option.bind (field_str v ''topic'') (\<lambda>topic.
     Option.bind (field_str v ''type'') (\<lambda>ty.
     Option.bind (field_u64 v ''ts'') (\<lambda>ts.
     Option.bind (field_u64 v ''cs'') (\<lambda>cs.
     Option.bind (js_get v ''data'') (\<lambda>data.
       Some \<lparr>bte_topic = topic, bte_message_type = ty, bte_ts = ts, bte_cs = cs, bte_data = data\<rparr>))))))"

record bybit_ticker_data =
  btd_symbol :: string
  btd_last_price :: "string option"
  btd_mark_price :: "string option"
  btd_index_price :: "string option"
  btd_bid1_price :: "string option"
  btd_ask1_price :: "string option"
  btd_funding_rate :: "string option"
  btd_next_funding_time :: "string option"

definition decode_bybit_ticker_data :: "json \<Rightarrow> bybit_ticker_data option" where
  "decode_bybit_ticker_data v0 =
     Option.bind (as_struct [''symbol'', ''lastPrice'', ''markPrice'', ''indexPrice'', ''bid1Price'',
       ''ask1Price'', ''fundingRate'', ''nextFundingTime''] v0) (\<lambda>v.
     Option.bind (field_str v ''symbol'') (\<lambda>symbol.
     Option.bind (field_opt_str v ''lastPrice'') (\<lambda>last_price.
     Option.bind (field_opt_str v ''markPrice'') (\<lambda>mark.
     Option.bind (field_opt_str v ''indexPrice'') (\<lambda>idx.
     Option.bind (field_opt_str v ''bid1Price'') (\<lambda>bid.
     Option.bind (field_opt_str v ''ask1Price'') (\<lambda>ask.
     Option.bind (field_opt_str v ''fundingRate'') (\<lambda>funding.
     Option.bind (field_opt_str v ''nextFundingTime'') (\<lambda>next_time.
       Some \<lparr>btd_symbol = symbol, btd_last_price = last_price, btd_mark_price = mark,
             btd_index_price = idx, btd_bid1_price = bid, btd_ask1_price = ask,
             btd_funding_rate = funding, btd_next_funding_time = next_time\<rparr>)))))))))"

text \<open>The provider-specific helpers below take the constructor of the error they report.\<close>

definition set_observation ::
  "ext \<Rightarrow> json_lib \<Rightarrow> (string \<Rightarrow> adapter_error) \<Rightarrow> observed_decimal option \<Rightarrow> string option \<Rightarrow> u64 \<Rightarrow> string
     \<Rightarrow> adapter_error + observed_decimal option" where
  "set_observation E J invalid target v observed_at_ms field =
     (case v of
        None \<Rightarrow> Inr target
      | Some s \<Rightarrow>
          if s = [] then Inr target
          else case new_observed_decimal E s observed_at_ms of
              Inl e \<Rightarrow> Inl (invalid (''invalid '' @ field @ '' '' @ fmt_debug J s @ '': '' @ domain_error_text e))
            | Inr d \<Rightarrow> Inr (Some d))"

definition bybit_apply_ticker_update ::
  "ext \<Rightarrow> json_lib \<Rightarrow> ticker \<Rightarrow> bybit_ticker_data \<Rightarrow> u64 \<Rightarrow> adapter_error + ticker" where
  "bybit_apply_ticker_update E J t u observed_at_ms =
     and_then (set_observation E J bybit_invalid (tk_last t) (btd_last_price u) observed_at_ms ''lastPrice'') (\<lambda>l.
     and_then (set_observation E J bybit_invalid (tk_mark t) (btd_mark_price u) observed_at_ms ''markPrice'') (\<lambda>m.
     and_then (set_observation E J bybit_invalid (tk_index t) (btd_index_price u) observed_at_ms ''indexPrice'') (\<lambda>i.
     and_then (set_observation E J bybit_invalid (tk_bid t) (btd_bid1_price u) observed_at_ms ''bid1Price'') (\<lambda>b.
     and_then (set_observation E J bybit_invalid (tk_ask t) (btd_ask1_price u) observed_at_ms ''ask1Price'') (\<lambda>a.
     and_then (set_observation E J bybit_invalid (tk_funding_rate t) (btd_funding_rate u) observed_at_ms ''fundingRate'') (\<lambda>f.
     and_then
       (case btd_next_funding_time u of
          None \<Rightarrow> Inr (tk_next_funding_time_ms t)
        | Some s \<Rightarrow>
            if s = [] then Inr (tk_next_funding_time_ms t)
            else case parse_u64 s of
                None \<Rightarrow> Inl (bybit_invalid (''invalid nextFundingTime '' @ fmt_debug J s @ '': '' @ parse_u64_error s))
              | Some n \<Rightarrow> Inr (Some n)) (\<lambda>n.
       Inr \<lparr>tk_last = l, tk_mark = m, tk_index = i, tk_bid = b, tk_ask = a, tk_funding_rate = f,
            tk_next_funding_time_ms = n\<rparr>)))))))"

definition one_or_many ::
  "json_lib \<Rightarrow> (string \<Rightarrow> adapter_error) \<Rightarrow> (json \<Rightarrow> 'a option) \<Rightarrow> json \<Rightarrow> string \<Rightarrow> adapter_error + 'a list" where
  "one_or_many J invalid decode v name =
     (case v of
        JObject _ \<Rightarrow> (case decode v of
            Some x \<Rightarrow> Inr [x] | None \<Rightarrow> Inl (invalid (''invalid '' @ name @ '': '' @ js_error J v)))
      | JArray vs \<Rightarrow> (case decode_all decode vs of
            Some xs \<Rightarrow> Inr xs | None \<Rightarrow> Inl (invalid (''invalid '' @ name @ '': '' @ js_error J v)))
      | _ \<Rightarrow> Inl (invalid (name @ '' must be an object or array'')))"

definition bybit_normalized_symbol :: "ext \<Rightarrow> json_lib \<Rightarrow> string \<Rightarrow> adapter_error + string" where
  "bybit_normalized_symbol E J = adapter_symbol E J bybit_invalid"

definition bybit_ticker_topic_symbol :: "ext \<Rightarrow> json_lib \<Rightarrow> string \<Rightarrow> adapter_error + string" where
  "bybit_ticker_topic_symbol E J topic =
     and_then (ok_or (bybit_invalid (''invalid ticker topic '' @ fmt_debug J topic))
       (strip_prefix ''tickers.'' topic)) (bybit_normalized_symbol E J)"

definition bybit_kline_topic_symbol :: "ext \<Rightarrow> json_lib \<Rightarrow> string \<Rightarrow> adapter_error + string" where
  "bybit_kline_topic_symbol E J topic =
     and_then (ok_or (bybit_invalid (''invalid 1m kline topic '' @ fmt_debug J topic))
       (strip_prefix ''kline.1.'' topic)) (bybit_normalized_symbol E J)"

definition bybit_ticker_event :: "bybit_session \<Rightarrow> bybit_ticker_envelope \<Rightarrow> u64 \<Rightarrow> string \<Rightarrow> ticker \<Rightarrow> provider_event" where
  "bybit_ticker_event s env received_at_ms symbol t =
     \<lparr>pe_connection_epoch = by_connection_epoch s, pe_provider = Bybit, pe_market = LinearPerpetual,
      pe_symbol = symbol, pe_exchange_time_ms = Some (bte_ts env),
      pe_gateway_received_time_ms = received_at_ms,
      pe_source_sequence = Some \<lparr>sq_first = None, sq_last = Some (show_nat (unat (bte_cs env))), sq_previous = None\<rparr>,
      pe_payload = TickerPayload t\<rparr>"

fun bybit_ticker_updates ::
  "ext \<Rightarrow> json_lib \<Rightarrow> bybit_session \<Rightarrow> bybit_ticker_envelope \<Rightarrow> u64 \<Rightarrow> string \<Rightarrow> bool \<Rightarrow> bybit_ticker_data list
     \<Rightarrow> (string \<rightharpoonup> ticker) \<Rightarrow> adapter_error + (string \<rightharpoonup> ticker) \<times> provider_event list" where
  "bybit_ticker_updates E J s env received_at_ms topic_symbol is_snapshot [] pending = Inr (pending, [])"
| "bybit_ticker_updates E J s env received_at_ms topic_symbol is_snapshot (u # us) pending =
     and_then (bybit_normalized_symbol E J (btd_symbol u)) (\<lambda>symbol.
       if symbol \<noteq> topic_symbol
       then Inl (bybit_invalid (''ticker topic symbol '' @ topic_symbol @
              '' does not match payload symbol '' @ symbol))
       else
         and_then (bybit_apply_ticker_update E J
           (if is_snapshot then default_ticker
            else case or_else (pending symbol) (by_tickers s symbol) of Some t \<Rightarrow> t | None \<Rightarrow> default_ticker)
           u (bte_ts env)) (\<lambda>t.
         and_then (bybit_ticker_updates E J s env received_at_ms topic_symbol is_snapshot us
           (pending(symbol \<mapsto> t))) (\<lambda>(pending', events).
           Inr (pending', bybit_ticker_event s env received_at_ms symbol t # events))))"

definition bybit_parse_tickers ::
  "ext \<Rightarrow> json_lib \<Rightarrow> bybit_session \<Rightarrow> json \<Rightarrow> u64 \<Rightarrow> bybit_session \<times> (adapter_error + parsed_frame)" where
  "bybit_parse_tickers E J s v received_at_ms =
     (case
        and_then (ok_or (bybit_invalid (''invalid ticker message: '' @ js_error J v))
          (decode_bybit_ticker_envelope v)) (\<lambda>env.
        and_then (bybit_ticker_topic_symbol E J (bte_topic env)) (\<lambda>topic_symbol.
        and_then
          (if bte_message_type env = ''snapshot'' then Inr True
           else if bte_message_type env = ''delta'' then Inr False
           else Inl (bybit_invalid (''unsupported ticker message type '' @ bte_message_type env))) (\<lambda>is_snapshot.
        and_then (one_or_many J bybit_invalid decode_bybit_ticker_data (bte_data env) ''ticker data'') (\<lambda>updates.
          if updates = [] then Inl (bybit_invalid ''ticker data must not be empty'')
          else bybit_ticker_updates E J s env received_at_ms topic_symbol is_snapshot updates Map.empty)))) of
        Inl e \<Rightarrow> (s, Inl e)
      | Inr (pending, events) \<Rightarrow> (s\<lparr>by_tickers := by_tickers s ++ pending\<rparr>, Inr (Events events)))"

section \<open>Candles\<close>

record bybit_kline_data =
  bkd_start :: u64
  bkd_end :: u64
  bkd_interval :: string
  bkd_open :: string
  bkd_high :: string
  bkd_low :: string
  bkd_close :: string
  bkd_volume :: string
  bkd_turnover :: string
  bkd_confirm :: bool

definition decode_bybit_kline_data :: "json \<Rightarrow> bybit_kline_data option" where
  "decode_bybit_kline_data v0 =
     Option.bind (as_struct [''start'', ''end'', ''interval'', ''open'', ''high'', ''low'', ''close'',
       ''volume'', ''turnover'', ''confirm'', ''timestamp''] v0) (\<lambda>v.
     Option.bind (field_u64 v ''start'') (\<lambda>start.
     Option.bind (field_u64 v ''end'') (\<lambda>end_ms.
     Option.bind (field_str v ''interval'') (\<lambda>interval.
     Option.bind (field_str v ''open'') (\<lambda>op.
     Option.bind (field_str v ''high'') (\<lambda>hi.
     Option.bind (field_str v ''low'') (\<lambda>lo.
     Option.bind (field_str v ''close'') (\<lambda>cl.
     Option.bind (field_str v ''volume'') (\<lambda>volume.
     Option.bind (field_str v ''turnover'') (\<lambda>turnover.
     Option.bind (field_bool v ''confirm'') (\<lambda>confirm.
     Option.bind (field_u64 v ''timestamp'') (\<lambda>_.
       Some \<lparr>bkd_start = start, bkd_end = end_ms, bkd_interval = interval, bkd_open = op,
             bkd_high = hi, bkd_low = lo, bkd_close = cl, bkd_volume = volume,
             bkd_turnover = turnover, bkd_confirm = confirm\<rparr>))))))))))))"

record bybit_kline_envelope =
  bke_topic :: string
  bke_message_type :: string
  bke_ts :: u64
  bke_data :: "bybit_kline_data list"

definition decode_bybit_kline_envelope :: "json \<Rightarrow> bybit_kline_envelope option" where
  "decode_bybit_kline_envelope v0 =
     Option.bind (as_struct [''topic'', ''type'', ''ts'', ''data''] v0) (\<lambda>v.
     Option.bind (field_str v ''topic'') (\<lambda>topic.
     Option.bind (field_str v ''type'') (\<lambda>ty.
     Option.bind (field_u64 v ''ts'') (\<lambda>ts.
     Option.bind (Option.bind (js_get v ''data'') js_as_array) (\<lambda>items.
     Option.bind (decode_all decode_bybit_kline_data items) (\<lambda>data.
       Some \<lparr>bke_topic = topic, bke_message_type = ty, bke_ts = ts, bke_data = data\<rparr>))))))"

definition bybit_decimal :: "ext \<Rightarrow> json_lib \<Rightarrow> string \<Rightarrow> string \<Rightarrow> adapter_error + decimal_value" where
  "bybit_decimal E J = adapter_decimal E J bybit_invalid"

definition bybit_normalize_kline :: "ext \<Rightarrow> json_lib \<Rightarrow> bybit_kline_data \<Rightarrow> adapter_error + candle" where
  "bybit_normalize_kline E J item =
     (if bkd_interval item \<noteq> ''1''
      then Inl (bybit_invalid (''expected 1m kline interval, got '' @ bkd_interval item))
      else
        and_then (ok_or (bybit_invalid ''kline end time cannot be normalized to exclusive'')
          (checked_add (bkd_end item) 1)) (\<lambda>end_time_ms.
        and_then (bybit_decimal E J (bkd_open item) ''open'') (\<lambda>op.
        and_then (bybit_decimal E J (bkd_high item) ''high'') (\<lambda>hi.
        and_then (bybit_decimal E J (bkd_low item) ''low'') (\<lambda>lo.
        and_then (bybit_decimal E J (bkd_close item) ''close'') (\<lambda>cl.
        and_then (bybit_decimal E J (bkd_volume item) ''volume'') (\<lambda>base.
        and_then (bybit_decimal E J (bkd_turnover item) ''turnover'') (\<lambda>quote.
          Inr \<lparr>cd_interval = ''1m'', cd_start_time_ms = bkd_start item, cd_end_time_ms = end_time_ms,
               cd_open = op, cd_high = hi, cd_low = lo, cd_close = cl,
               cd_base_volume = Some base, cd_quote_volume = Some quote, cd_contract_volume = None,
               cd_finality = (if bkd_confirm item then candle_finality.Closed else candle_finality.Open),
               cd_data_quality = []\<rparr>))))))))"

definition bybit_kline_event ::
  "ext \<Rightarrow> json_lib \<Rightarrow> bybit_session \<Rightarrow> string \<Rightarrow> u64 \<Rightarrow> u64 \<Rightarrow> bybit_kline_data \<Rightarrow> adapter_error + provider_event" where
  "bybit_kline_event E J s symbol ts received_at_ms item =
     and_then (bybit_normalize_kline E J item) (\<lambda>c.
       Inr \<lparr>pe_connection_epoch = by_connection_epoch s, pe_provider = Bybit,
            pe_market = LinearPerpetual, pe_symbol = symbol, pe_exchange_time_ms = Some ts,
            pe_gateway_received_time_ms = received_at_ms, pe_source_sequence = None,
            pe_payload = CandlePayload c\<rparr>)"

definition bybit_parse_klines ::
  "ext \<Rightarrow> json_lib \<Rightarrow> bybit_session \<Rightarrow> json \<Rightarrow> u64 \<Rightarrow> adapter_error + parsed_frame" where
  "bybit_parse_klines E J s v received_at_ms =
     and_then (ok_or (bybit_invalid (''invalid kline message: '' @ js_error J v))
       (decode_bybit_kline_envelope v)) (\<lambda>env.
     if bke_message_type env \<noteq> ''snapshot''
     then Inl (bybit_invalid (''unsupported kline message type '' @ bke_message_type env))
     else
       and_then (bybit_kline_topic_symbol E J (bke_topic env)) (\<lambda>symbol.
       and_then (collect_results (bybit_kline_event E J s symbol (bke_ts env) received_at_ms) (bke_data env)) (\<lambda>events.
         Inr (Events events))))"

section \<open>Frames\<close>

definition bybit_parse ::
  "ext \<Rightarrow> json_lib \<Rightarrow> bybit_session \<Rightarrow> string \<Rightarrow> u64 \<Rightarrow> bybit_session \<times> (adapter_error + parsed_frame)" where
  "bybit_parse E J s text received_at_ms =
     (case js_from_str J text of
        Inl e \<Rightarrow> (s, Inl (bybit_invalid (''invalid JSON: '' @ e)))
      | Inr v \<Rightarrow>
          if \<not> is_object v then (s, Inl (bybit_invalid ''top-level payload must be an object''))
          else case bybit_parse_control J v of
              Some result \<Rightarrow> (s, result)
            | None \<Rightarrow>
                (case js_get v ''topic'' of
                   Some (JString topic) \<Rightarrow>
                     if starts_with ''tickers.'' topic then bybit_parse_tickers E J s v received_at_ms
                     else if starts_with ''kline.'' topic then (s, bybit_parse_klines E J s v received_at_ms)
                     else (s, Inr Ignored)
                 | Some _ \<Rightarrow> (s, Inl (bybit_invalid ''event field topic must be a string''))
                 | None \<Rightarrow> (s, Inr Ignored)))"

definition bybit_adapter :: "ext \<Rightarrow> json_lib \<Rightarrow> bybit_session adapter" where
  "bybit_adapter E J =
     \<lparr>ad_provider = Bybit, ad_endpoints = [Primary], ad_endpoint_for = (\<lambda>_. Primary),
      ad_max_subscriptions = DEFAULT_MAX_PROVIDER_SUBSCRIPTIONS,
      ad_session = (\<lambda>_ epoch. bybit_new epoch),
      as_subscription_messages = bybit_subscription_messages J,
      as_heartbeat = bybit_heartbeat J,
      as_parse = bybit_parse E J\<rparr>"

section \<open>Batches\<close>

text \<open>
  The groups the batching loop cuts its topics into, as a function on lists: a group is closed
  when it has a hundred topics or the next one would exceed the character budget.
\<close>

fun bybit_groups :: "string list \<Rightarrow> string list \<Rightarrow> nat \<Rightarrow> string list list" where
  "bybit_groups [] batch n = (if batch \<noteq> [] then [batch] else [])"
| "bybit_groups (topic # topics) batch n =
     (if batch \<noteq> [] \<and> (length batch = BYBIT_MAX_TOPICS_PER_COMMAND \<or>
          n + length topic > BYBIT_MAX_TOPIC_CHARS_PER_COMMAND)
      then batch # bybit_groups topics [topic] (length topic)
      else bybit_groups topics (batch @ [topic]) (n + length topic))"

lemma bybit_batch_groups:
  "bybit_batch J op topics s messages batch n =
     (case map_state (\<lambda>s. bybit_command J s op) s (bybit_groups topics batch n) of
        (s', cs) \<Rightarrow> (s', messages @ cs))"
  by (induction topics arbitrary: s messages batch n) (auto split: prod.splits)

lemma concat_bybit_groups: "concat (bybit_groups topics batch n) = batch @ topics"
  by (induction topics batch n rule: bybit_groups.induct) auto

definition bybit_group_fits :: "string list \<Rightarrow> bool" where
  "bybit_group_fits g \<longleftrightarrow> g \<noteq> [] \<and> length g \<le> BYBIT_MAX_TOPICS_PER_COMMAND \<and>
     (length g = 1 \<or> sum_list (map length g) \<le> BYBIT_MAX_TOPIC_CHARS_PER_COMMAND)"

lemma bybit_groups_fit:
  "(batch = [] \<or> bybit_group_fits batch) \<Longrightarrow> n = sum_list (map length batch) \<Longrightarrow>
    list_all bybit_group_fits (bybit_groups topics batch n)"
proof (induction topics batch n rule: bybit_groups.induct)
  case (2 topic topics batch n)
  show ?case
  proof (cases "batch \<noteq> [] \<and> (length batch = BYBIT_MAX_TOPICS_PER_COMMAND \<or> n + length topic > BYBIT_MAX_TOPIC_CHARS_PER_COMMAND)")
    case True
    have "bybit_group_fits [topic]" by (simp add: bybit_group_fits_def BYBIT_MAX_TOPICS_PER_COMMAND_def)
    then have "list_all bybit_group_fits (bybit_groups topics [topic] (length topic))" using 2(1) [OF True] by simp
    moreover have "bybit_group_fits batch" using 2(3) True by blast
    ultimately show ?thesis unfolding bybit_groups.simps(2) if_P [OF True] by simp
  next
    case False
    then have "bybit_group_fits (batch @ [topic])"
      using 2(3,4) by (cases "batch = []") (auto simp: bybit_group_fits_def BYBIT_MAX_TOPICS_PER_COMMAND_def)
    then have "list_all bybit_group_fits (bybit_groups topics (batch @ [topic]) (n + length topic))"
      using 2(2) [OF False] 2(4) by simp
    then show ?thesis unfolding bybit_groups.simps(2) if_not_P [OF False] .
  qed
qed (auto simp: list_all_iff)

lemma bybit_groups_Nil_iff: "bybit_groups topics [] 0 = [] \<longleftrightarrow> topics = []"
  using concat_bybit_groups [of topics "[]" 0] by (cases topics) auto

lemma bybit_topics_spec:
  "fst (bybit_topics action subs seen tickers) = first_occurrences seen (map bybit_topic subs)"
  by (induction subs arbitrary: seen tickers) (simp_all add: Let_def case_prod_beta insert_absorb)

lemma bybit_subscription_messages_ok:
  assumes "bybit_subscription_messages J s action subs = (s', Inr cmds)"
  obtains t where "map_state (\<lambda>s. bybit_command J s (bybit_operation action)) (s\<lparr>by_tickers := t\<rparr>)
      (bybit_groups (first_occurrences {} (map bybit_topic subs)) [] 0) = (s', cmds)"
proof -
  obtain topics t where t: "bybit_topics action subs {} (by_tickers s) = (topics, t)" by force
  then have "topics = first_occurrences {} (map bybit_topic subs)" using bybit_topics_spec by (metis fst_conv)
  with t assms that [of t] show ?thesis
    by (auto simp: bybit_subscription_messages_def bybit_command_messages_def bybit_batch_groups split: sum.splits prod.splits)
qed

section \<open>The session contract\<close>

abbreviation bybit_render :: "u64 \<Rightarrow> string" where
  "bybit_render n \<equiv> ''gateway-'' @ show_nat (unat n)"

lemma bybit_command_ids:
  "oc_request_id (snd (bybit_command J s op b)) = bybit_render (by_next_request_id s) \<and>
   by_next_request_id (fst (bybit_command J s op b)) = succ_id (by_next_request_id s)"
  by (simp add: bybit_command_def bybit_request_id_def)

lemma bybit_command_epoch: "by_connection_epoch (fst (bybit_command J s op b)) = by_connection_epoch s"
  by (simp add: bybit_command_def bybit_request_id_def)

lemma bybit_issued:
  assumes "bybit_subscription_messages J s action subs = (s', Inr cmds)"
  shows "issued by_next_request_id bybit_render s s' (map oc_request_id cmds) \<and> length cmds \<le> 3 * length subs \<and>
    (subs \<noteq> [] \<longrightarrow> cmds \<noteq> [])"
proof -
  let ?topics = "first_occurrences {} (map bybit_topic subs)"
  obtain t where m: "map_state (\<lambda>s. bybit_command J s (bybit_operation action)) (s\<lparr>by_tickers := t\<rparr>) (bybit_groups ?topics [] 0) = (s', cmds)"
    by (rule bybit_subscription_messages_ok [OF assms])
  note ids = map_state_issued [OF bybit_command_ids m]
  have "length (bybit_groups ?topics [] 0) \<le> length ?topics"
    using length_le_concat [of "bybit_groups ?topics [] 0"] bybit_groups_fit [of "[]" 0 ?topics]
    by (auto simp: concat_bybit_groups list_all_iff bybit_group_fits_def)
  moreover have "length ?topics \<le> length subs" using length_first_occurrences [of "{}" "map bybit_topic subs"] by simp
  moreover have "cmds \<noteq> []" if "subs \<noteq> []"
    using ids that bybit_groups_Nil_iff [of ?topics] first_occurrences_Nil_iff [of "map bybit_topic subs"] by force
  ultimately show ?thesis using ids by (simp add: issued_def)
qed

lemma bybit_messages_epoch:
  "by_connection_epoch (fst (bybit_subscription_messages J s action subs)) = by_connection_epoch s"
proof -
  have "by_connection_epoch (fst (map_state (\<lambda>s. bybit_command J s op) s' gs)) = by_connection_epoch s'" for op s' gs
    by (rule map_state_keeps) (rule bybit_command_epoch)
  then show ?thesis
    by (simp add: bybit_subscription_messages_def bybit_command_messages_def bybit_batch_groups case_prod_beta split: sum.split)
qed

lemma bybit_parse_frame:
  "by_next_request_id (fst (bybit_parse E J s t now)) = by_next_request_id s \<and>
   by_connection_epoch (fst (bybit_parse E J s t now)) = by_connection_epoch s"
  by (simp add: bybit_parse_def bybit_parse_tickers_def split: sum.split option.split json.split)

lemma bybit_ticker_updates_stamped:
  "bybit_ticker_updates E J s env now symbol snap us pending = Inr (p, es) \<Longrightarrow>
    list_all (stamped (by_connection_epoch s) Bybit now) es"
  by (induction us arbitrary: pending p es)
    (auto simp: result_simps bybit_ticker_event_def stamped_def split: if_splits)

lemma bybit_control_no_events: "bybit_parse_control J v \<noteq> Some (Inr (Events es))"
  by (simp add: bybit_parse_control_def bybit_control_acknowledgement_def
      split: option.split json.split bool.split)

lemma bybit_control_stamped: "bybit_parse_control J v = Some r \<Longrightarrow> frame_stamped u p now r"
  by (metis bybit_control_no_events frame_stamped_def)

lemma bybit_kline_event_stamped:
  "bybit_kline_event E J s symbol ts now k = Inr e \<Longrightarrow> stamped (by_connection_epoch s) Bybit now e"
  by (auto simp: bybit_kline_event_def stamped_def and_then_Inr)

lemma bybit_parse_stamped: "frame_stamped (by_connection_epoch s) Bybit now (snd (bybit_parse E J s t now))"
proof -
  have "frame_stamped (by_connection_epoch s) Bybit now (snd (bybit_parse_tickers E J s v now))" for v
    by (auto simp: bybit_parse_tickers_def result_simps split: sum.split prod.split if_splits
        dest: bybit_ticker_updates_stamped)
  moreover have "frame_stamped (by_connection_epoch s) Bybit now (bybit_parse_klines E J s v now)" for v
    unfolding bybit_parse_klines_def
    by (auto intro!: frame_stamped_and_then elim!: collect_results_all bybit_kline_event_stamped)
  ultimately show ?thesis
    using bybit_control_stamped by (simp add: bybit_parse_def split: sum.split option.split json.split)
qed

interpretation bys: prompt_session "bybit_adapter E J" by_next_request_id bybit_render by_connection_epoch for E J
  by unfold_locales
    (auto simp: bybit_adapter_def bybit_new_def bybit_heartbeat_def bybit_messages_epoch bybit_parse_frame bybit_parse_stamped
      intro: prefixed_id_inj dest: bybit_issued)

section \<open>Ticker accumulation\<close>

text \<open>
  The merge the venue documents: a field that an update gives replaces the observation and takes the
  message's time, a field that is missing or empty stays what it was.
\<close>

definition field_merged :: "ext \<Rightarrow> u64 \<Rightarrow> string option \<Rightarrow> observed_decimal option \<Rightarrow> observed_decimal option \<Rightarrow> bool" where
  "field_merged E ts v old new \<longleftrightarrow>
     (case v of None \<Rightarrow> new = old
      | Some s \<Rightarrow> if s = [] then new = old else \<exists>d. new_observed_decimal E s ts = Inr d \<and> new = Some d)"

definition ticker_merged :: "ext \<Rightarrow> u64 \<Rightarrow> bybit_ticker_data \<Rightarrow> ticker \<Rightarrow> ticker \<Rightarrow> bool" where
  "ticker_merged E ts u t t' \<longleftrightarrow>
     field_merged E ts (btd_last_price u) (tk_last t) (tk_last t') \<and>
     field_merged E ts (btd_mark_price u) (tk_mark t) (tk_mark t') \<and>
     field_merged E ts (btd_index_price u) (tk_index t) (tk_index t') \<and>
     field_merged E ts (btd_bid1_price u) (tk_bid t) (tk_bid t') \<and>
     field_merged E ts (btd_ask1_price u) (tk_ask t) (tk_ask t') \<and>
     field_merged E ts (btd_funding_rate u) (tk_funding_rate t) (tk_funding_rate t') \<and>
     tk_next_funding_time_ms t' = (case btd_next_funding_time u of None \<Rightarrow> tk_next_funding_time_ms t
       | Some s \<Rightarrow> if s = [] then tk_next_funding_time_ms t else parse_u64 s)"

fun ticker_chain :: "ext \<Rightarrow> u64 \<Rightarrow> bool \<Rightarrow> ticker \<Rightarrow> bybit_ticker_data list \<Rightarrow> ticker list \<Rightarrow> bool" where
  "ticker_chain E ts snapshot t [] tickers \<longleftrightarrow> tickers = []"
| "ticker_chain E ts snapshot t (u # us) tickers \<longleftrightarrow> (\<exists>t' rest. tickers = t' # rest \<and>
     ticker_merged E ts u (if snapshot then default_ticker else t) t' \<and> ticker_chain E ts snapshot t' us rest)"

lemma set_observation_merged: "set_observation E J invalid old v ts name = Inr new \<Longrightarrow> field_merged E ts v old new"
  by (auto simp: set_observation_def field_merged_def split: option.splits if_splits sum.splits)

lemma apply_update_merged: "bybit_apply_ticker_update E J t u ts = Inr t' \<Longrightarrow> ticker_merged E ts u t t'"
  unfolding bybit_apply_ticker_update_def ticker_merged_def
  by (auto simp: and_then_Inr dest!: set_observation_merged split: option.splits if_splits)

lemma ticker_updates_chain:
  "bybit_ticker_updates E J s env now symbol snapshot us pending = Inr (pending', events) \<Longrightarrow>
   \<exists>tickers. events = map (bybit_ticker_event s env now symbol) tickers \<and>
     ticker_chain E (bte_ts env) snapshot
       (case or_else (pending symbol) (by_tickers s symbol) of Some t \<Rightarrow> t | None \<Rightarrow> default_ticker) us tickers \<and>
     pending' = (if tickers = [] then pending else pending(symbol \<mapsto> last tickers))"
proof (induction us arbitrary: pending pending' events)
  case Nil
  then show ?case by simp
next
  case (Cons u us)
  let ?old = "case or_else (pending symbol) (by_tickers s symbol) of Some t \<Rightarrow> t | None \<Rightarrow> default_ticker"
  from Cons.prems obtain t rest where t: "bybit_apply_ticker_update E J (if snapshot then default_ticker else ?old) u (bte_ts env) = Inr t"
    and rest: "bybit_ticker_updates E J s env now symbol snapshot us (pending(symbol \<mapsto> t)) = Inr (pending', rest)"
    and ev: "events = bybit_ticker_event s env now symbol t # rest"
    by (auto simp: and_then_Inr split: if_split_asm)
  from Cons.IH [OF rest] obtain tickers where "rest = map (bybit_ticker_event s env now symbol) tickers"
    "ticker_chain E (bte_ts env) snapshot t us tickers"
    "pending' = (if tickers = [] then pending(symbol \<mapsto> t) else pending(symbol \<mapsto> last tickers))"
    by (cases "or_else ((pending(symbol \<mapsto> t)) symbol) (by_tickers s symbol)")
      (simp_all add: or_else_def fun_upd_upd, metis fun_upd_upd)
  with apply_update_merged [OF t] ev show ?case by (intro exI [of _ "t # tickers"]) auto
qed

section \<open>Properties\<close>

text \<open>
  (C17) Bybit subscription commands say exactly what was asked. The topics of the commands, read in
  order, are the distinct topics of the requested keys; each command carries its own request
  identifier, announces one acknowledgement, has at least one and at most 100 topics, and stays
  within the venue's character budget unless it is a single topic. Only a key of another provider is
  refused, and then the session is unchanged.
\<close>

theorem bybit_commands_exact:
  "case bybit_subscription_messages J s action subs of
     (s', Inl e) \<Rightarrow> s' = s \<and> \<not> list_all (\<lambda>k. key_provider k = Bybit) subs
   | (s', Inr cmds) \<Rightarrow> list_all (\<lambda>k. key_provider k = Bybit) subs \<and>
       (\<exists>groups. concat groups = first_occurrences {} (map bybit_topic subs) \<and> list_all bybit_group_fits groups \<and>
         list_all2 (\<lambda>topics c. oc_expected_acknowledgements c = 1 \<and>
           oc_text c = js_to_string J (JObject [(''args'', JArray (map JString topics)),
             (''op'', JString (bybit_operation action)), (''req_id'', JString (oc_request_id c))])) groups cmds)"
proof (cases "validate_subscriptions Bybit subs")
  case (Inl e)
  then have "\<not> list_all (\<lambda>k. key_provider k = Bybit) subs"
    by (auto simp: validate_subscriptions_def list_all_iff dest!: find_SomeD split: option.splits)
  with Inl show ?thesis by (simp add: bybit_subscription_messages_def)
next
  case (Inr u)
  then have ks: "list_all (\<lambda>k. key_provider k = Bybit) subs"
    by (auto simp: validate_subscriptions_def list_all_iff find_None_iff split: option.splits)
  obtain s' r where r: "bybit_subscription_messages J s action subs = (s', r)" by force
  then obtain cmds where c: "r = Inr cmds"
    using Inr by (auto simp: bybit_subscription_messages_def split: prod.splits)
  let ?groups = "bybit_groups (first_occurrences {} (map bybit_topic subs)) [] 0"
  obtain t where m: "map_state (\<lambda>s. bybit_command J s (bybit_operation action)) (s\<lparr>by_tickers := t\<rparr>) ?groups = (s', cmds)"
    by (rule bybit_subscription_messages_ok [OF r [unfolded c]])
  have "list_all2 (\<lambda>topics c. oc_expected_acknowledgements c = 1 \<and>
           oc_text c = js_to_string J (JObject [(''args'', JArray (map JString topics)),
             (''op'', JString (bybit_operation action)), (''req_id'', JString (oc_request_id c))])) ?groups cmds"
    by (rule map_state_list_all2 [OF _ m]) (simp add: bybit_command_def split: prod.split)
  moreover have "list_all bybit_group_fits ?groups" by (rule bybit_groups_fit) simp_all
  ultimately show ?thesis using r c ks concat_bybit_groups [of _ "[]" 0] by auto
qed

text \<open>
  (C18) A Bybit ticker frame is applied as a whole or not at all. When it is refused the session is
  unchanged; otherwise each of its updates is merged into the ticker accumulated so far (or, in a
  snapshot, into an empty one), the merged tickers are published in order under the topic's symbol, and
  the last of them is what the session remembers for that symbol and nothing else.
\<close>

theorem bybit_tickers_accumulate:
  "case bybit_parse_tickers E J s v now of
     (s', Inl e) \<Rightarrow> s' = s
   | (s', Inr f) \<Rightarrow> \<exists>env symbol updates tickers.
       decode_bybit_ticker_envelope v = Some env \<and> bybit_ticker_topic_symbol E J (bte_topic env) = Inr symbol \<and>
       one_or_many J bybit_invalid decode_bybit_ticker_data (bte_data env) ''ticker data'' = Inr updates \<and>
       ticker_chain E (bte_ts env) (bte_message_type env = ''snapshot'')
         (case by_tickers s symbol of Some t \<Rightarrow> t | None \<Rightarrow> default_ticker) updates tickers \<and>
       tickers \<noteq> [] \<and> f = Events (map (bybit_ticker_event s env now symbol) tickers) \<and>
       s' = s\<lparr>by_tickers := (by_tickers s)(symbol \<mapsto> last tickers)\<rparr>"
proof (cases "bybit_parse_tickers E J s v now")
  case (Pair s' r)
  show ?thesis
  proof (cases r)
    case (Inl e)
    with Pair show ?thesis by (auto simp: bybit_parse_tickers_def split: sum.splits)
  next
    case (Inr f)
    with Pair obtain env symbol snapshot updates pending events where
      p: "decode_bybit_ticker_envelope v = Some env" "bybit_ticker_topic_symbol E J (bte_topic env) = Inr symbol"
      "snapshot = (bte_message_type env = ''snapshot'')"
      "one_or_many J bybit_invalid decode_bybit_ticker_data (bte_data env) ''ticker data'' = Inr updates" "updates \<noteq> []"
      "bybit_ticker_updates E J s env now symbol snapshot updates Map.empty = Inr (pending, events)"
      "s' = s\<lparr>by_tickers := by_tickers s ++ pending\<rparr>" "f = Events events"
      by (auto simp: bybit_parse_tickers_def and_then_Inr ok_or_Inr split: sum.splits if_split_asm)
    from ticker_updates_chain [OF p(6)] obtain tickers where
      t: "events = map (bybit_ticker_event s env now symbol) tickers"
      "ticker_chain E (bte_ts env) snapshot (case by_tickers s symbol of Some t \<Rightarrow> t | None \<Rightarrow> default_ticker) updates tickers"
      "pending = (if tickers = [] then Map.empty else [symbol \<mapsto> last tickers])"
      by (auto simp: or_else_def)
    with p(5) have "tickers \<noteq> []" by (cases updates) auto
    with t p Pair Inr show ?thesis by auto
  qed
qed

end
