(* ===== verification/Binance.thy ===== *)
theory Binance
  imports Contract
begin

text \<open>
  The Binance adapter (\<^verbatim>\<open>src/src/providers/binance.rs\<close>): stream names in lower case, commands
  of at most two hundred streams, control responses, and tickers merged from the 24-hour ticker
  and the mark-price stream.
\<close>

section \<open>Connection\<close>

definition BINANCE_COMMAND_INTERVAL :: duration where
  "BINANCE_COMMAND_INTERVAL = 125 * 10 ^ 6"

definition BINANCE_SUBSCRIPTION_ACK_TIMEOUT :: duration where
  "BINANCE_SUBSCRIPTION_ACK_TIMEOUT = 15 * 10 ^ 9"

definition BINANCE_HEARTBEAT_INTERVAL :: duration where
  "BINANCE_HEARTBEAT_INTERVAL = 3 * 60 * 10 ^ 9"

definition BINANCE_STALE_AFTER :: duration where
  "BINANCE_STALE_AFTER = 10 * 60 * 10 ^ 9"

definition BINANCE_ROTATE_AFTER :: duration where
  "BINANCE_ROTATE_AFTER = (23 * 60 + 55) * 60 * 10 ^ 9"

definition BINANCE_MAX_MESSAGE_BYTES :: usize where
  "BINANCE_MAX_MESSAGE_BYTES = 1024 * 1024"

definition BINANCE_MAX_STREAMS_PER_COMMAND :: usize where
  "BINANCE_MAX_STREAMS_PER_COMMAND = 200"

definition binance_connection_target :: "string \<Rightarrow> endpoint_kind \<Rightarrow> adapter_error + connection_target" where
  "binance_connection_target url endpoint =
     (if endpoint \<noteq> Primary then Inl (UnsupportedEndpoint Binance endpoint)
      else Inr \<lparr>ct_url = url, ct_command_interval = BINANCE_COMMAND_INTERVAL,
             ct_subscription_ack_timeout = BINANCE_SUBSCRIPTION_ACK_TIMEOUT,
             ct_heartbeat_interval = BINANCE_HEARTBEAT_INTERVAL, ct_stale_after = BINANCE_STALE_AFTER,
             ct_max_message_bytes = BINANCE_MAX_MESSAGE_BYTES, ct_rotate_after = Some BINANCE_ROTATE_AFTER\<rparr>)"

section \<open>Session\<close>

record binance_session =
  bn_connection_epoch :: uuid
  bn_next_request_id :: u64
  bn_tickers :: "string \<rightharpoonup> ticker"

definition binance_new :: "uuid \<Rightarrow> binance_session" where
  "binance_new epoch = \<lparr>bn_connection_epoch = epoch, bn_next_request_id = 1, bn_tickers = Map.empty\<rparr>"

definition binance_invalid :: "string \<Rightarrow> adapter_error" where
  "binance_invalid message = InvalidPayload Binance message"

definition binance_rejected :: "string \<Rightarrow> adapter_error" where
  "binance_rejected message = CommandRejected Binance message"

section \<open>Commands\<close>

definition binance_request_id :: "binance_session \<Rightarrow> binance_session \<times> u64" where
  "binance_request_id s =
     (s\<lparr>bn_next_request_id := (case checked_add (bn_next_request_id s) 1 of Some n \<Rightarrow> n | None \<Rightarrow> 1)\<rparr>,
      bn_next_request_id s)"

fun binance_method :: "subscription_action \<Rightarrow> string" where
  "binance_method Subscribe = ''SUBSCRIBE''"
| "binance_method Unsubscribe = ''UNSUBSCRIBE''"

definition binance_command ::
  "json_lib \<Rightarrow> string \<Rightarrow> binance_session \<Rightarrow> string list \<Rightarrow> binance_session \<times> outbound_command" where
  "binance_command J method s batch =
     (case binance_request_id s of (s', n) \<Rightarrow>
        (s', \<lparr>oc_request_id = show_nat (unat n),
              oc_text = js_to_string J (JObject [(''id'', JInt (uint n)), (''method'', JString method),
                (''params'', JArray (map JString batch))]),
              oc_expected_acknowledgements = 1\<rparr>))"

definition binance_command_messages ::
  "json_lib \<Rightarrow> binance_session \<Rightarrow> subscription_action \<Rightarrow> string list \<Rightarrow> binance_session \<times> outbound_command list" where
  "binance_command_messages J s action streams =
     map_state (binance_command J (binance_method action)) s (chunks BINANCE_MAX_STREAMS_PER_COMMAND streams)"

definition binance_streams :: "sub_key \<Rightarrow> string list" where
  "binance_streams k =
     (let symbol = to_ascii_lowercase (key_symbol k)
      in case key_channel k of
           Ticker \<Rightarrow> [symbol @ ''@ticker'', symbol @ ''@markPrice@1s'']
         | Candle1m \<Rightarrow> [symbol @ ''@kline_1m''])"

definition binance_subscription_messages ::
  "json_lib \<Rightarrow> binance_session \<Rightarrow> subscription_action \<Rightarrow> sub_key list
     \<Rightarrow> binance_session \<times> (adapter_error + outbound_command list)" where
  "binance_subscription_messages J s action subs =
     (case validate_subscriptions Binance subs of
        Inl e \<Rightarrow> (s, Inl e)
      | Inr _ \<Rightarrow>
          (case binance_command_messages J (s\<lparr>bn_tickers := forget_tickers action subs (bn_tickers s)\<rparr>)
               action (first_occurrences {} (concat (map binance_streams subs))) of
             (s', messages) \<Rightarrow> (s', Inr messages)))"

definition binance_heartbeat :: "binance_session \<Rightarrow> binance_session \<times> heartbeat" where
  "binance_heartbeat s = (s, WebSocketPing [])"

section \<open>Control frames\<close>

definition binance_error_message :: "json \<Rightarrow> string" where
  "binance_error_message v =
     (let message = (case Option.bind (or_else (js_get v ''msg'') (js_get v ''message'')) js_as_str of
            Some m \<Rightarrow> m | None \<Rightarrow> ''unknown command error'')
      in case Option.bind (js_get v ''code'') js_as_i64 of
           None \<Rightarrow> message
         | Some c \<Rightarrow> ''code '' @ show_int c @ '': '' @ message)"

definition binance_response_id :: "json option \<Rightarrow> adapter_error + string" where
  "binance_response_id v =
     (let bad = Inl (binance_invalid ''command response id must be an unsigned integer or short string'')
      in case v of
           None \<Rightarrow> Inl (binance_invalid ''command response is missing id'')
         | Some (JInt n) \<Rightarrow> if js_as_u64 (JInt n) \<noteq> None then Inr (show_int n) else bad
         | Some (JString r) \<Rightarrow> if r \<noteq> [] \<and> length r \<le> 36 then Inr r else bad
         | Some _ \<Rightarrow> bad)"

definition binance_parse_control :: "json \<Rightarrow> (adapter_error + parsed_frame) option" where
  "binance_parse_control v =
     (if js_get v ''code'' \<noteq> None then Some (Inl (binance_rejected (binance_error_message v)))
      else case js_get v ''error'' of
          Some e \<Rightarrow> Some (Inl (binance_rejected
            (case Option.bind (or_else (js_get e ''msg'') (js_get e ''message'')) js_as_str of
               Some m \<Rightarrow> m | None \<Rightarrow> ''unknown command error'')))
        | None \<Rightarrow>
            (case js_get v ''result'' of
               Some result \<Rightarrow> Some (and_then (binance_response_id (js_get v ''id'')) (\<lambda>request_id.
                   Inr (if is_null result then Acknowledgement request_id else Ignored)))
             | None \<Rightarrow> None))"

section \<open>Messages\<close>

record binance_ticker =
  bnt_event_time :: u64
  bnt_symbol :: string
  bnt_last :: string
  bnt_bid :: "string option"
  bnt_ask :: "string option"
  bnt_first_trade_id :: "int option"
  bnt_last_trade_id :: "int option"
  bnt_symbol_type :: "nat option"

definition decode_binance_ticker :: "json \<Rightarrow> binance_ticker option" where
  "decode_binance_ticker v0 =
     Option.bind (as_struct [''E'', ''s'', ''c'', ''b'', ''a'', ''F'', ''L'', ''st''] v0) (\<lambda>v.
     Option.bind (field_u64 v ''E'') (\<lambda>event_time.
     Option.bind (field_str v ''s'') (\<lambda>symbol.
     Option.bind (field_str v ''c'') (\<lambda>last_price.
     Option.bind (field_opt_str v ''b'') (\<lambda>bid.
     Option.bind (field_opt_str v ''a'') (\<lambda>ask.
     Option.bind (field_opt js_as_i64 v ''F'') (\<lambda>first_trade.
     Option.bind (field_opt js_as_i64 v ''L'') (\<lambda>last_trade.
     Option.bind (field_opt js_as_u8 v ''st'') (\<lambda>st.
       Some \<lparr>bnt_event_time = event_time, bnt_symbol = symbol, bnt_last = last_price, bnt_bid = bid,
             bnt_ask = ask, bnt_first_trade_id = first_trade, bnt_last_trade_id = last_trade,
             bnt_symbol_type = st\<rparr>)))))))))"

record binance_mark_price =
  bnm_event_time :: u64
  bnm_symbol :: string
  bnm_mark_price :: string
  bnm_index_price :: string
  bnm_funding_rate :: string
  bnm_next_funding_time :: u64
  bnm_symbol_type :: "nat option"

definition decode_binance_mark_price :: "json \<Rightarrow> binance_mark_price option" where
  "decode_binance_mark_price v0 =
     Option.bind (as_struct [''E'', ''s'', ''p'', ''i'', ''r'', ''T'', ''st''] v0) (\<lambda>v.
     Option.bind (field_u64 v ''E'') (\<lambda>event_time.
     Option.bind (field_str v ''s'') (\<lambda>symbol.
     Option.bind (field_str v ''p'') (\<lambda>mark.
     Option.bind (field_str v ''i'') (\<lambda>idx.
     Option.bind (field_str v ''r'') (\<lambda>rate.
     Option.bind (field_u64 v ''T'') (\<lambda>next_time.
     Option.bind (field_opt js_as_u8 v ''st'') (\<lambda>st.
       Some \<lparr>bnm_event_time = event_time, bnm_symbol = symbol, bnm_mark_price = mark, bnm_index_price = idx,
             bnm_funding_rate = rate, bnm_next_funding_time = next_time, bnm_symbol_type = st\<rparr>))))))))"

record binance_kline =
  bnk_start_time :: u64
  bnk_close_time :: u64
  bnk_symbol :: string
  bnk_interval :: string
  bnk_first_trade_id :: int
  bnk_last_trade_id :: int
  bnk_open :: string
  bnk_close :: string
  bnk_high :: string
  bnk_low :: string
  bnk_base_volume :: string
  bnk_quote_volume :: string
  bnk_closed :: bool

definition decode_binance_kline :: "json \<Rightarrow> binance_kline option" where
  "decode_binance_kline v0 =
     Option.bind (as_struct [''t'', ''T'', ''s'', ''i'', ''f'', ''L'', ''o'', ''c'', ''h'', ''l'', ''v'', ''q'', ''x''] v0) (\<lambda>v.
     Option.bind (field_u64 v ''t'') (\<lambda>start_time.
     Option.bind (field_u64 v ''T'') (\<lambda>close_time.
     Option.bind (field_str v ''s'') (\<lambda>symbol.
     Option.bind (field_str v ''i'') (\<lambda>interval.
     Option.bind (field_i64 v ''f'') (\<lambda>first_trade.
     Option.bind (field_i64 v ''L'') (\<lambda>last_trade.
     Option.bind (field_str v ''o'') (\<lambda>op.
     Option.bind (field_str v ''c'') (\<lambda>cl.
     Option.bind (field_str v ''h'') (\<lambda>hi.
     Option.bind (field_str v ''l'') (\<lambda>lo.
     Option.bind (field_str v ''v'') (\<lambda>base.
     Option.bind (field_str v ''q'') (\<lambda>quote.
     Option.bind (field_bool v ''x'') (\<lambda>closed.
       Some \<lparr>bnk_start_time = start_time, bnk_close_time = close_time, bnk_symbol = symbol,
             bnk_interval = interval, bnk_first_trade_id = first_trade, bnk_last_trade_id = last_trade,
             bnk_open = op, bnk_close = cl, bnk_high = hi, bnk_low = lo, bnk_base_volume = base,
             bnk_quote_volume = quote, bnk_closed = closed\<rparr>))))))))))))))"

record binance_kline_envelope =
  bne_event_time :: u64
  bne_symbol :: string
  bne_kline :: binance_kline
  bne_symbol_type :: "nat option"

definition decode_binance_kline_envelope :: "json \<Rightarrow> binance_kline_envelope option" where
  "decode_binance_kline_envelope v0 =
     Option.bind (as_struct [''E'', ''s'', ''k'', ''st''] v0) (\<lambda>v.
     Option.bind (field_u64 v ''E'') (\<lambda>event_time.
     Option.bind (field_str v ''s'') (\<lambda>symbol.
     Option.bind (Option.bind (js_get v ''k'') decode_binance_kline) (\<lambda>kline.
     Option.bind (field_opt js_as_u8 v ''st'') (\<lambda>st.
       Some \<lparr>bne_event_time = event_time, bne_symbol = symbol, bne_kline = kline, bne_symbol_type = st\<rparr>)))))"

section \<open>Normalization\<close>

definition binance_observation :: "ext \<Rightarrow> json_lib \<Rightarrow> string \<Rightarrow> u64 \<Rightarrow> string \<Rightarrow> adapter_error + observed_decimal" where
  "binance_observation E J = adapter_observation E J binance_invalid"

definition binance_optional_observation ::
  "ext \<Rightarrow> json_lib \<Rightarrow> string option \<Rightarrow> u64 \<Rightarrow> string \<Rightarrow> adapter_error + observed_decimal option" where
  "binance_optional_observation E J v observed_at_ms field =
     transpose_opt (\<lambda>s. binance_observation E J s observed_at_ms field) (if v = Some [] then None else v)"

definition binance_decimal :: "ext \<Rightarrow> json_lib \<Rightarrow> string \<Rightarrow> string \<Rightarrow> adapter_error + decimal_value" where
  "binance_decimal E J = adapter_decimal E J binance_invalid"

definition binance_normalized_symbol :: "ext \<Rightarrow> json_lib \<Rightarrow> string \<Rightarrow> adapter_error + string" where
  "binance_normalized_symbol E J = adapter_symbol E J binance_invalid"

definition ensure_usdm :: "nat option \<Rightarrow> adapter_error + unit" where
  "ensure_usdm symbol_type =
     (case symbol_type of
        None \<Rightarrow> Inr ()
      | Some n \<Rightarrow>
          if n = 2 then Inl (binance_invalid ''received a COIN-M payload on the USD-M adapter'')
          else if n \<noteq> 1 then Inl (binance_invalid (''unsupported Binance symbol type '' @ show_nat n))
          else Inr ())"

definition validate_stream_symbol ::
  "json_lib \<Rightarrow> string option \<Rightarrow> string \<Rightarrow> string \<Rightarrow> adapter_error + unit" where
  "validate_stream_symbol J stream_name symbol expected_suffix =
     (case stream_name of
        None \<Rightarrow> Inr ()
      | Some name \<Rightarrow>
          let name_lower = to_ascii_lowercase name;
              expected = to_ascii_lowercase symbol @ to_ascii_lowercase expected_suffix;
              matches = (if expected_suffix = ''@markPrice''
                         then name_lower = expected \<or> name_lower = expected @ ''@1s''
                         else name_lower = expected)
          in if \<not> matches
             then Inl (binance_invalid (''combined stream '' @ fmt_debug J name @ '' does not match '' @
                    symbol @ '' '' @ expected_suffix))
             else Inr ())"

definition binance_event ::
  "binance_session \<Rightarrow> string \<Rightarrow> u64 \<Rightarrow> u64 \<Rightarrow> source_sequence option \<Rightarrow> market_payload \<Rightarrow> provider_event" where
  "binance_event s symbol event_time received_at_ms sq payload =
     \<lparr>pe_connection_epoch = bn_connection_epoch s, pe_provider = Binance, pe_market = LinearPerpetual,
      pe_symbol = symbol, pe_exchange_time_ms = Some event_time,
      pe_gateway_received_time_ms = received_at_ms, pe_source_sequence = sq, pe_payload = payload\<rparr>"

text \<open>The cached ticker is replaced only after every field of the message has been read.\<close>

definition binance_store ::
  "binance_session \<Rightarrow> adapter_error + string \<times> ticker \<times> provider_event \<Rightarrow>
     binance_session \<times> (adapter_error + parsed_frame)" where
  "binance_store s r =
     (case r of
        Inl e \<Rightarrow> (s, Inl e)
      | Inr (symbol, t, event) \<Rightarrow> (s\<lparr>bn_tickers := (bn_tickers s)(symbol \<mapsto> t)\<rparr>, Inr (Events [event])))"

definition binance_trade_sequence :: "int option \<Rightarrow> int option \<Rightarrow> source_sequence option" where
  "binance_trade_sequence first_trade last_trade =
     (if first_trade = None \<and> last_trade = None then None
      else Some \<lparr>sq_first = map_option show_int first_trade, sq_last = map_option show_int last_trade,
                 sq_previous = None\<rparr>)"

definition binance_parse_ticker ::
  "ext \<Rightarrow> json_lib \<Rightarrow> binance_session \<Rightarrow> json \<Rightarrow> u64 \<Rightarrow> string option
     \<Rightarrow> binance_session \<times> (adapter_error + parsed_frame)" where
  "binance_parse_ticker E J s v received_at_ms stream_name = binance_store s
     (and_then (ok_or (binance_invalid (''invalid ticker message: '' @ js_error J v)) (decode_binance_ticker v)) (\<lambda>u.
      and_then (ensure_usdm (bnt_symbol_type u)) (\<lambda>_.
      and_then (binance_normalized_symbol E J (bnt_symbol u)) (\<lambda>symbol.
      and_then (validate_stream_symbol J stream_name symbol ''@ticker'') (\<lambda>_.
      and_then (binance_observation E J (bnt_last u) (bnt_event_time u) ''last price'') (\<lambda>l.
      and_then (binance_optional_observation E J (bnt_bid u) (bnt_event_time u) ''bid price'') (\<lambda>b.
      and_then (binance_optional_observation E J (bnt_ask u) (bnt_event_time u) ''ask price'') (\<lambda>a.
        let t = (cached_ticker (bn_tickers s) symbol)\<lparr>tk_last := Some l, tk_bid := b, tk_ask := a\<rparr>
        in Inr (symbol, t, binance_event s symbol (bnt_event_time u) received_at_ms
             (binance_trade_sequence (bnt_first_trade_id u) (bnt_last_trade_id u)) (TickerPayload t))))))))))"

definition binance_parse_mark_price ::
  "ext \<Rightarrow> json_lib \<Rightarrow> binance_session \<Rightarrow> json \<Rightarrow> u64 \<Rightarrow> string option
     \<Rightarrow> binance_session \<times> (adapter_error + parsed_frame)" where
  "binance_parse_mark_price E J s v received_at_ms stream_name = binance_store s
     (and_then (ok_or (binance_invalid (''invalid mark-price message: '' @ js_error J v)) (decode_binance_mark_price v)) (\<lambda>u.
      and_then (ensure_usdm (bnm_symbol_type u)) (\<lambda>_.
      and_then (binance_normalized_symbol E J (bnm_symbol u)) (\<lambda>symbol.
      and_then (validate_stream_symbol J stream_name symbol ''@markPrice'') (\<lambda>_.
      and_then (binance_observation E J (bnm_mark_price u) (bnm_event_time u) ''mark price'') (\<lambda>m.
      and_then (binance_observation E J (bnm_index_price u) (bnm_event_time u) ''index price'') (\<lambda>i.
      and_then (binance_observation E J (bnm_funding_rate u) (bnm_event_time u) ''funding rate'') (\<lambda>r.
        let t = (cached_ticker (bn_tickers s) symbol)\<lparr>tk_mark := Some m, tk_index := Some i,
              tk_funding_rate := Some r, tk_next_funding_time_ms := Some (bnm_next_funding_time u)\<rparr>
        in Inr (symbol, t, binance_event s symbol (bnm_event_time u) received_at_ms None (TickerPayload t))))))))))"

definition binance_candle :: "ext \<Rightarrow> json_lib \<Rightarrow> binance_kline \<Rightarrow> adapter_error + candle" where
  "binance_candle E J k =
     and_then (ok_or (binance_invalid ''kline close time cannot be normalized to exclusive'')
       (checked_add (bnk_close_time k) 1)) (\<lambda>end_time_ms.
     and_then (binance_decimal E J (bnk_open k) ''open'') (\<lambda>op.
     and_then (binance_decimal E J (bnk_high k) ''high'') (\<lambda>hi.
     and_then (binance_decimal E J (bnk_low k) ''low'') (\<lambda>lo.
     and_then (binance_decimal E J (bnk_close k) ''close'') (\<lambda>cl.
     and_then (binance_decimal E J (bnk_base_volume k) ''base volume'') (\<lambda>base.
     and_then (binance_decimal E J (bnk_quote_volume k) ''quote volume'') (\<lambda>quote.
       Inr \<lparr>cd_interval = ''1m'', cd_start_time_ms = bnk_start_time k, cd_end_time_ms = end_time_ms,
            cd_open = op, cd_high = hi, cd_low = lo, cd_close = cl, cd_base_volume = Some base,
            cd_quote_volume = Some quote, cd_contract_volume = None,
            cd_finality = (if bnk_closed k then candle_finality.Closed else candle_finality.Open),
            cd_data_quality = []\<rparr>)))))))"

definition binance_parse_kline ::
  "ext \<Rightarrow> json_lib \<Rightarrow> binance_session \<Rightarrow> json \<Rightarrow> u64 \<Rightarrow> string option \<Rightarrow> adapter_error + parsed_frame" where
  "binance_parse_kline E J s v received_at_ms stream_name =
     and_then (ok_or (binance_invalid (''invalid kline message: '' @ js_error J v)) (decode_binance_kline_envelope v)) (\<lambda>u.
     and_then (ensure_usdm (bne_symbol_type u)) (\<lambda>_.
     and_then (binance_normalized_symbol E J (bne_symbol u)) (\<lambda>outer_symbol.
     and_then (binance_normalized_symbol E J (bnk_symbol (bne_kline u))) (\<lambda>symbol.
     if outer_symbol \<noteq> symbol
     then Inl (binance_invalid (''outer kline symbol '' @ outer_symbol @ '' does not match inner symbol '' @ symbol))
     else
       and_then (validate_stream_symbol J stream_name symbol ''@kline_1m'') (\<lambda>_.
       if bnk_interval (bne_kline u) \<noteq> ''1m''
       then Inl (binance_invalid (''expected 1m kline interval, got '' @ bnk_interval (bne_kline u)))
       else
         and_then (binance_candle E J (bne_kline u)) (\<lambda>c.
           Inr (Events [binance_event s symbol (bne_event_time u) received_at_ms
             (Some \<lparr>sq_first = Some (show_int (bnk_first_trade_id (bne_kline u))),
                    sq_last = Some (show_int (bnk_last_trade_id (bne_kline u))), sq_previous = None\<rparr>)
             (CandlePayload c)])))))))"

section \<open>Frames\<close>

text \<open>The name of a combined stream and the payload it wraps, or the frame itself.\<close>

definition binance_unwrap :: "json \<Rightarrow> adapter_error + string option \<times> json" where
  "binance_unwrap v =
     (case js_get v ''stream'' of
        None \<Rightarrow> Inr (None, v)
      | Some stream \<Rightarrow>
          and_then (ok_or (binance_invalid ''combined stream name must be a string'') (js_as_str stream)) (\<lambda>name.
          and_then (ok_or (binance_invalid ''combined stream payload is missing data'') (js_get v ''data'')) (\<lambda>data.
            Inr (Some name, data))))"

definition binance_parse ::
  "ext \<Rightarrow> json_lib \<Rightarrow> binance_session \<Rightarrow> string \<Rightarrow> u64 \<Rightarrow> binance_session \<times> (adapter_error + parsed_frame)" where
  "binance_parse E J s frame received_at_ms =
     (case js_from_str J frame of
        Inl e \<Rightarrow> (s, Inl (binance_invalid (''invalid JSON: '' @ e)))
      | Inr whole \<Rightarrow>
          if \<not> is_object whole then (s, Inl (binance_invalid ''top-level payload must be an object''))
          else case binance_parse_control whole of
              Some result \<Rightarrow> (s, result)
            | None \<Rightarrow>
                (case binance_unwrap whole of
                   Inl e \<Rightarrow> (s, Inl e)
                 | Inr (stream_name, v) \<Rightarrow>
                     (case js_get v ''e'' of
                        Some (JString event_type) \<Rightarrow>
                          if event_type = ''24hrTicker'' then binance_parse_ticker E J s v received_at_ms stream_name
                          else if event_type = ''markPriceUpdate''
                          then binance_parse_mark_price E J s v received_at_ms stream_name
                          else if event_type = ''kline'' then (s, binance_parse_kline E J s v received_at_ms stream_name)
                          else (s, Inr Ignored)
                      | Some _ \<Rightarrow> (s, Inl (binance_invalid ''event field e must be a string''))
                      | None \<Rightarrow> (s, Inr Ignored))))"

definition binance_adapter :: "ext \<Rightarrow> json_lib \<Rightarrow> binance_session adapter" where
  "binance_adapter E J =
     \<lparr>ad_provider = Binance, ad_endpoints = [Primary], ad_endpoint_for = (\<lambda>_. Primary),
      ad_max_subscriptions = BINANCE_MAX_STREAMS_PER_COMMAND,
      ad_session = (\<lambda>_ epoch. binance_new epoch),
      as_subscription_messages = binance_subscription_messages J,
      as_heartbeat = binance_heartbeat, as_parse = binance_parse E J\<rparr>"

section \<open>The session contract\<close>

abbreviation binance_render :: "u64 \<Rightarrow> string" where
  "binance_render n \<equiv> show_nat (unat n)"

lemma binance_command_ids:
  "oc_request_id (snd (binance_command J m s c)) = binance_render (bn_next_request_id s) \<and>
   bn_next_request_id (fst (binance_command J m s c)) = succ_id (bn_next_request_id s)"
  by (simp add: binance_command_def binance_request_id_def)

lemma binance_command_epoch: "bn_connection_epoch (fst (binance_command J m s c)) = bn_connection_epoch s"
  by (simp add: binance_command_def binance_request_id_def)

lemma binance_limit_pos: "0 < BINANCE_MAX_STREAMS_PER_COMMAND"
  by (simp add: BINANCE_MAX_STREAMS_PER_COMMAND_def)

lemma binance_streams_size: "binance_streams k \<noteq> [] \<and> length (binance_streams k) \<le> 2"
  by (simp add: binance_streams_def Let_def split: channel.split)

lemma binance_issued:
  assumes "binance_subscription_messages J s action subs = (s', Inr cmds)"
  shows "issued bn_next_request_id binance_render s s' (map oc_request_id cmds) \<and> length cmds \<le> 3 * length subs \<and>
    (subs \<noteq> [] \<longrightarrow> cmds \<noteq> [])"
proof -
  let ?streams = "first_occurrences {} (concat (map binance_streams subs))"
  obtain t where m: "map_state (binance_command J (binance_method action)) (s\<lparr>bn_tickers := t\<rparr>)
      (chunks BINANCE_MAX_STREAMS_PER_COMMAND ?streams) = (s', cmds)"
    using assms by (auto simp: binance_subscription_messages_def binance_command_messages_def split: sum.splits prod.splits)
  note ids = map_state_issued [OF binance_command_ids m]
  have "length ?streams \<le> 2 * length subs"
    using length_first_occurrences [of "{}" "concat (map binance_streams subs)"]
      length_concat_le [of subs binance_streams 2] binance_streams_size by (meson le_trans)
  then have "length cmds \<le> 3 * length subs"
    using ids length_chunks [OF binance_limit_pos, of ?streams] by linarith
  moreover have "cmds \<noteq> []" if "subs \<noteq> []"
  proof -
    from that have "concat (map binance_streams subs) \<noteq> []" using binance_streams_size by (cases subs) auto
    then have "chunks BINANCE_MAX_STREAMS_PER_COMMAND ?streams \<noteq> []"
      unfolding chunks_Nil_iff [OF binance_limit_pos] first_occurrences_Nil_iff .
    then show ?thesis using ids by (metis length_0_conv)
  qed
  ultimately show ?thesis using ids by (simp add: issued_def)
qed

lemma binance_messages_epoch:
  "bn_connection_epoch (fst (binance_subscription_messages J s action subs)) = bn_connection_epoch s"
proof -
  have "bn_connection_epoch (fst (map_state (binance_command J m) s' cs)) = bn_connection_epoch s'" for m s' cs
    by (rule map_state_keeps) (rule binance_command_epoch)
  then show ?thesis
    by (simp add: binance_subscription_messages_def binance_command_messages_def case_prod_beta split: sum.split)
qed

lemma binance_store_frame:
  "bn_next_request_id (fst (binance_store s r)) = bn_next_request_id s \<and>
   bn_connection_epoch (fst (binance_store s r)) = bn_connection_epoch s"
  by (simp add: binance_store_def case_prod_beta split: sum.split)

lemma binance_parse_frame:
  "bn_next_request_id (fst (binance_parse E J s t now)) = bn_next_request_id s \<and>
   bn_connection_epoch (fst (binance_parse E J s t now)) = bn_connection_epoch s"
proof -
  have t: "bn_next_request_id (fst (binance_parse_ticker E J s v now n)) = bn_next_request_id s \<and>
      bn_connection_epoch (fst (binance_parse_ticker E J s v now n)) = bn_connection_epoch s" for v n
    unfolding binance_parse_ticker_def by (rule binance_store_frame)
  have m: "bn_next_request_id (fst (binance_parse_mark_price E J s v now n)) = bn_next_request_id s \<and>
      bn_connection_epoch (fst (binance_parse_mark_price E J s v now n)) = bn_connection_epoch s" for v n
    unfolding binance_parse_mark_price_def by (rule binance_store_frame)
  show ?thesis
    by (simp add: binance_parse_def t m case_prod_beta split: sum.split option.split json.split)
qed

lemma binance_event_stamped: "stamped (bn_connection_epoch s) Binance now (binance_event s symbol ts now sq payload)"
  by (simp add: binance_event_def stamped_def)

lemma binance_store_stamped:
  "(\<And>symbol t e. r = Inr (symbol, t, e) \<Longrightarrow> stamped u Binance now e) \<Longrightarrow> frame_stamped u Binance now (snd (binance_store s r))"
  by (auto simp: binance_store_def split: sum.split)

lemma binance_parse_stamped: "frame_stamped (bn_connection_epoch s) Binance now (snd (binance_parse E J s t now))"
proof -
  have ticker: "frame_stamped (bn_connection_epoch s) Binance now (snd (binance_parse_ticker E J s v now n))" for v n
    unfolding binance_parse_ticker_def
    by (rule binance_store_stamped) (auto simp: and_then_Inr Let_def binance_event_stamped)
  have mark: "frame_stamped (bn_connection_epoch s) Binance now (snd (binance_parse_mark_price E J s v now n))" for v n
    unfolding binance_parse_mark_price_def
    by (rule binance_store_stamped) (auto simp: and_then_Inr Let_def binance_event_stamped)
  have kline: "frame_stamped (bn_connection_epoch s) Binance now (binance_parse_kline E J s v now n)" for v n
    unfolding binance_parse_kline_def by (auto intro!: frame_stamped_and_then simp: binance_event_stamped)
  have control: "frame_stamped u p now r" if "binance_parse_control v = Some r" for u p v r
    using that unfolding binance_parse_control_def
    by (auto intro!: frame_stamped_and_then split: if_splits option.splits)
  show ?thesis
    using control by (simp add: binance_parse_def ticker mark kline case_prod_beta split: sum.split option.split json.split)
qed

interpretation bns: prompt_session "binance_adapter E J" bn_next_request_id binance_render bn_connection_epoch for E J
  by unfold_locales
    (auto simp: binance_adapter_def binance_new_def binance_heartbeat_def binance_messages_epoch binance_parse_frame
      binance_parse_stamped dest: binance_issued plain_id_inj)

end
