(* ===== verification/Okx.thy ===== *)
theory Okx
  imports Contract
begin

text \<open>
  The OKX adapter (\<^verbatim>\<open>src/src/providers/okx.rs\<close>): two endpoints, commands of at most one
  hundred arguments that are each acknowledged on their own, and tickers merged from three
  channels.
\<close>

section \<open>Connection\<close>

definition OKX_COMMAND_INTERVAL :: duration where
  "OKX_COMMAND_INTERVAL = 400 * 10 ^ 6"

definition OKX_SUBSCRIPTION_ACK_TIMEOUT :: duration where
  "OKX_SUBSCRIPTION_ACK_TIMEOUT = 15 * 10 ^ 9"

definition OKX_COMMAND_ARGS_LIMIT :: usize where
  "OKX_COMMAND_ARGS_LIMIT = 100"

definition OKX_MAX_MESSAGE_BYTES :: usize where
  "OKX_MAX_MESSAGE_BYTES = 4 * 1024 * 1024"

fun okx_endpoint_for :: "channel \<Rightarrow> endpoint_kind" where
  "okx_endpoint_for Ticker = Public"
| "okx_endpoint_for Candle1m = Business"

definition okx_connection_target ::
  "string \<Rightarrow> string \<Rightarrow> endpoint_kind \<Rightarrow> adapter_error + connection_target" where
  "okx_connection_target public_url business_url endpoint =
     and_then (case endpoint of
         Public \<Rightarrow> Inr public_url
       | Business \<Rightarrow> Inr business_url
       | Primary \<Rightarrow> Inl (UnsupportedEndpoint Okx endpoint)) (\<lambda>url.
     Inr \<lparr>ct_url = url, ct_command_interval = OKX_COMMAND_INTERVAL,
          ct_subscription_ack_timeout = OKX_SUBSCRIPTION_ACK_TIMEOUT,
          ct_heartbeat_interval = 20 * 10 ^ 9, ct_stale_after = 45 * 10 ^ 9,
          ct_max_message_bytes = OKX_MAX_MESSAGE_BYTES, ct_rotate_after = None\<rparr>)"

section \<open>Session\<close>

record okx_session =
  ok_endpoint :: endpoint_kind
  ok_connection_epoch :: uuid
  ok_next_command_id :: u64
  ok_tickers :: "string \<rightharpoonup> ticker"

definition okx_new :: "endpoint_kind \<Rightarrow> uuid \<Rightarrow> okx_session" where
  "okx_new endpoint epoch = \<lparr>ok_endpoint = endpoint, ok_connection_epoch = epoch,
     ok_next_command_id = 1, ok_tickers = Map.empty\<rparr>"

record okx_subscription_arg =
  oa_channel :: string
  oa_inst_id :: string

definition okx_arg_json :: "okx_subscription_arg \<Rightarrow> json" where
  "okx_arg_json a = JObject [(''channel'', JString (oa_channel a)), (''instId'', JString (oa_inst_id a))]"

definition okx_command_json :: "string \<Rightarrow> string \<Rightarrow> okx_subscription_arg list \<Rightarrow> json" where
  "okx_command_json request_id operation args = JObject [(''id'', JString request_id), (''op'', JString operation),
     (''args'', JArray (map okx_arg_json args))]"

definition okx_invalid :: "string \<Rightarrow> adapter_error" where
  "okx_invalid message = InvalidPayload Okx message"

definition okx_take_command_id :: "okx_session \<Rightarrow> okx_session \<times> string" where
  "okx_take_command_id s =
     (s\<lparr>ok_next_command_id := max (ok_next_command_id s + 1) 1\<rparr>, show_nat (unat (ok_next_command_id s)))"

definition validate_okx_symbol :: "string \<Rightarrow> string + unit" where
  "validate_okx_symbol symbol =
     (if ends_with ''-USDT-SWAP'' symbol \<or> ends_with ''-USDC-SWAP'' symbol then Inr ()
      else Inl (symbol @ '' is not an OKX USDT/USDC linear perpetual symbol''))"

section \<open>Commands\<close>

definition okx_channels :: "endpoint_kind \<Rightarrow> channel \<Rightarrow> adapter_error + string list" where
  "okx_channels endpoint ch =
     (case (endpoint, ch) of
        (Public, Ticker) \<Rightarrow> Inr [''tickers'', ''mark-price'', ''funding-rate'']
      | (Business, Candle1m) \<Rightarrow> Inr [''candle1m'']
      | (_, _) \<Rightarrow> Inl (InvalidSubscription Okx
          (channel_name ch @ '' does not belong on the '' @ endpoint_name endpoint @ '' endpoint'')))"

text \<open>The arguments of one subscription, before duplicates are dropped.\<close>

definition okx_key_args :: "okx_session \<Rightarrow> sub_key \<Rightarrow> adapter_error + okx_subscription_arg list" where
  "okx_key_args s k =
     and_then (map_err (InvalidSubscription Okx) (validate_okx_symbol (key_symbol k))) (\<lambda>_.
     and_then (okx_channels (ok_endpoint s) (key_channel k)) (\<lambda>channels.
       Inr (map (\<lambda>c. \<lparr>oa_channel = c, oa_inst_id = key_symbol k\<rparr>) channels)))"

definition okx_subscription_args ::
  "okx_session \<Rightarrow> sub_key list \<Rightarrow> adapter_error + okx_subscription_arg list" where
  "okx_subscription_args s subs =
     and_then (collect_results (okx_key_args s) subs) (\<lambda>args.
       Inr (first_occurrences {} (concat args)))"

fun okx_operation :: "subscription_action \<Rightarrow> string" where
  "okx_operation Subscribe = ''subscribe''"
| "okx_operation Unsubscribe = ''unsubscribe''"

definition okx_command ::
  "json_lib \<Rightarrow> string \<Rightarrow> okx_session \<Rightarrow> okx_subscription_arg list \<Rightarrow> okx_session \<times> outbound_command" where
  "okx_command J operation s chunk =
     (case okx_take_command_id s of (s', request_id) \<Rightarrow>
        (s', \<lparr>oc_request_id = request_id, oc_text = js_to_string J (okx_command_json request_id operation chunk),
              oc_expected_acknowledgements = length chunk\<rparr>))"

definition okx_subscription_messages ::
  "json_lib \<Rightarrow> okx_session \<Rightarrow> subscription_action \<Rightarrow> sub_key list
     \<Rightarrow> okx_session \<times> (adapter_error + outbound_command list)" where
  "okx_subscription_messages J s action subs =
     (case and_then (validate_subscriptions Okx subs) (\<lambda>_. okx_subscription_args s subs) of
        Inl e \<Rightarrow> (s, Inl e)
      | Inr args \<Rightarrow>
          (case map_state (okx_command J (okx_operation action))
               (s\<lparr>ok_tickers := forget_tickers action subs (ok_tickers s)\<rparr>)
               (chunks OKX_COMMAND_ARGS_LIMIT args) of
             (s', messages) \<Rightarrow> (s', Inr messages)))"

definition okx_heartbeat :: "okx_session \<Rightarrow> okx_session \<times> heartbeat" where
  "okx_heartbeat s = (s, HeartbeatText ''ping'')"

section \<open>Fields\<close>

definition okx_required_object :: "json \<Rightarrow> string \<Rightarrow> adapter_error + json" where
  "okx_required_object = required_object okx_invalid"

definition okx_required_string :: "json \<Rightarrow> string \<Rightarrow> adapter_error + string" where
  "okx_required_string = required_string okx_invalid"

definition okx_required_scalar :: "json \<Rightarrow> string \<Rightarrow> adapter_error + string" where
  "okx_required_scalar v field =
     ok_or (okx_invalid (field @ '' must be a non-empty string'')) (non_empty_str v)"

definition okx_parse_timestamp :: "json \<Rightarrow> string \<Rightarrow> adapter_error + u64" where
  "okx_parse_timestamp v field =
     and_then (okx_required_scalar v field) (\<lambda>s.
       ok_or (okx_invalid (field @ '' must be an unsigned integer'')) (parse_u64 s))"

definition okx_required_timestamp :: "json \<Rightarrow> string \<Rightarrow> adapter_error + u64" where
  "okx_required_timestamp item field =
     and_then (required_value okx_invalid item field) (\<lambda>v. okx_parse_timestamp v field)"

text \<open>\<open>None\<close>, \<open>null\<close> and the empty string are all an absent field.\<close>

definition absent :: "json option \<Rightarrow> bool" where
  "absent v \<longleftrightarrow> v = None \<or> v = Some JNull \<or> v = Some (JString [])"

definition okx_optional_timestamp :: "json \<Rightarrow> string \<Rightarrow> adapter_error + u64 option" where
  "okx_optional_timestamp item field =
     (if absent (js_get item field) then Inr None
      else transpose_opt (\<lambda>v. okx_parse_timestamp v field) (js_get item field))"

definition okx_observation :: "ext \<Rightarrow> string \<Rightarrow> u64 \<Rightarrow> json \<Rightarrow> adapter_error + observed_decimal" where
  "okx_observation E field observed_at_ms v =
     and_then (okx_required_scalar v field) (\<lambda>s.
       map_err (\<lambda>e. okx_invalid (domain_error_text e)) (new_observed_decimal E s observed_at_ms))"

definition okx_required_observation ::
  "ext \<Rightarrow> json \<Rightarrow> string \<Rightarrow> u64 \<Rightarrow> adapter_error + observed_decimal" where
  "okx_required_observation E item field observed_at_ms =
     and_then (required_value okx_invalid item field) (okx_observation E field observed_at_ms)"

definition okx_optional_observation ::
  "ext \<Rightarrow> json \<Rightarrow> string \<Rightarrow> u64 \<Rightarrow> adapter_error + observed_decimal option" where
  "okx_optional_observation E item field observed_at_ms =
     (if absent (js_get item field) then Inr None
      else transpose_opt (okx_observation E field observed_at_ms) (js_get item field))"

definition okx_decimal :: "ext \<Rightarrow> json \<Rightarrow> string \<Rightarrow> adapter_error + decimal_value" where
  "okx_decimal E v field =
     and_then (okx_required_scalar v field) (\<lambda>s.
       map_err (\<lambda>e. okx_invalid (domain_error_text e)) (new_decimal_value E s))"

definition okx_optional_decimal_value :: "ext \<Rightarrow> json \<Rightarrow> string \<Rightarrow> adapter_error + decimal_value option" where
  "okx_optional_decimal_value E v field =
     (if is_null v \<or> js_as_str v = Some [] then Inr None
      else and_then (okx_decimal E v field) (\<lambda>d. Inr (Some d)))"

definition okx_parse_item_identity :: "json \<Rightarrow> string \<Rightarrow> adapter_error + string \<times> u64" where
  "okx_parse_item_identity item expected_symbol =
     and_then (okx_required_string item ''instId'') (\<lambda>symbol.
     if symbol \<noteq> expected_symbol
     then Inl (okx_invalid (''payload symbol '' @ symbol @ '' does not match topic symbol '' @ expected_symbol))
     else case get_str item ''instType'' of
       Some instrument_type \<Rightarrow>
         if instrument_type \<noteq> ''SWAP''
         then Inl (okx_invalid (''expected SWAP instrument, got '' @ instrument_type))
         else and_then (okx_required_timestamp item ''ts'') (\<lambda>ts. Inr (symbol, ts))
     | None \<Rightarrow> and_then (okx_required_timestamp item ''ts'') (\<lambda>ts. Inr (symbol, ts)))"

section \<open>Market data\<close>

definition okx_event :: "okx_session \<Rightarrow> string \<Rightarrow> u64 option \<Rightarrow> u64 \<Rightarrow> market_payload \<Rightarrow> provider_event" where
  "okx_event s symbol exchange_time_ms received_at_ms payload =
     \<lparr>pe_connection_epoch = ok_connection_epoch s, pe_provider = Okx, pe_market = LinearPerpetual,
      pe_symbol = symbol, pe_exchange_time_ms = exchange_time_ms,
      pe_gateway_received_time_ms = received_at_ms, pe_source_sequence = None, pe_payload = payload\<rparr>"

text \<open>
  The three ticker loops differ in how an item updates the cached ticker; each stores the result
  and emits it before it reads the next item.
\<close>

fun okx_ticker_items ::
  "(json \<Rightarrow> u64 \<Rightarrow> adapter_error + (ticker \<Rightarrow> ticker)) \<Rightarrow> string \<Rightarrow> okx_session \<Rightarrow> json list \<Rightarrow> string \<Rightarrow> u64
     \<Rightarrow> okx_session \<times> (adapter_error + provider_event list)" where
  "okx_ticker_items upd name s [] expected_symbol received_at_ms = (s, Inr [])"
| "okx_ticker_items upd name s (item0 # items) expected_symbol received_at_ms =
     (case and_then (ok_or (okx_invalid (name @ '' item must be an object'')) (js_as_object item0)) (\<lambda>item.
           and_then (okx_parse_item_identity item expected_symbol) (\<lambda>(symbol, observed_at_ms).
           and_then (upd item observed_at_ms) (\<lambda>f. Inr (symbol, observed_at_ms, f)))) of
        Inl e \<Rightarrow> (s, Inl e)
      | Inr (symbol, observed_at_ms, f) \<Rightarrow>
          let t = f (cached_ticker (ok_tickers s) symbol);
              s' = s\<lparr>ok_tickers := (ok_tickers s)(symbol \<mapsto> t)\<rparr>;
              event = okx_event s' symbol (Some observed_at_ms) received_at_ms (TickerPayload t)
          in case okx_ticker_items upd name s' items expected_symbol received_at_ms of
               (s'', Inl e) \<Rightarrow> (s'', Inl e)
             | (s'', Inr events) \<Rightarrow> (s'', Inr (event # events)))"

definition okx_ticker_update :: "ext \<Rightarrow> json \<Rightarrow> u64 \<Rightarrow> adapter_error + (ticker \<Rightarrow> ticker)" where
  "okx_ticker_update E item observed_at_ms =
     and_then (okx_optional_observation E item ''last'' observed_at_ms) (\<lambda>l.
     and_then (okx_optional_observation E item ''bidPx'' observed_at_ms) (\<lambda>b.
     and_then (okx_optional_observation E item ''askPx'' observed_at_ms) (\<lambda>a.
       if l = None \<and> b = None \<and> a = None
       then Inl (okx_invalid ''ticker item contains no usable price'')
       else Inr (\<lambda>t. t\<lparr>tk_last := or_else l (tk_last t), tk_bid := or_else b (tk_bid t),
                       tk_ask := or_else a (tk_ask t)\<rparr>))))"

definition okx_parse_tickers ::
  "ext \<Rightarrow> okx_session \<Rightarrow> json list \<Rightarrow> string \<Rightarrow> u64 \<Rightarrow> okx_session \<times> (adapter_error + provider_event list)" where
  "okx_parse_tickers E = okx_ticker_items (okx_ticker_update E) ''ticker''"

definition okx_mark_update :: "ext \<Rightarrow> json \<Rightarrow> u64 \<Rightarrow> adapter_error + (ticker \<Rightarrow> ticker)" where
  "okx_mark_update E item observed_at_ms =
     and_then (okx_required_observation E item ''markPx'' observed_at_ms) (\<lambda>m.
       Inr (\<lambda>t. t\<lparr>tk_mark := Some m\<rparr>))"

definition okx_parse_mark_prices ::
  "ext \<Rightarrow> okx_session \<Rightarrow> json list \<Rightarrow> string \<Rightarrow> u64 \<Rightarrow> okx_session \<times> (adapter_error + provider_event list)" where
  "okx_parse_mark_prices E = okx_ticker_items (okx_mark_update E) ''mark-price''"

text \<open>Both times are read before \<open>or\<close> chooses: an unreadable second one is an error too.\<close>

definition okx_funding_update :: "ext \<Rightarrow> json \<Rightarrow> u64 \<Rightarrow> adapter_error + (ticker \<Rightarrow> ticker)" where
  "okx_funding_update E item observed_at_ms =
     and_then (okx_required_observation E item ''fundingRate'' observed_at_ms) (\<lambda>r.
     and_then (okx_optional_timestamp item ''fundingTime'') (\<lambda>ft.
     and_then (okx_optional_timestamp item ''nextFundingTime'') (\<lambda>nt.
       Inr (\<lambda>t. t\<lparr>tk_funding_rate := Some r, tk_next_funding_time_ms := or_else ft nt\<rparr>))))"

definition okx_parse_funding_rates ::
  "ext \<Rightarrow> okx_session \<Rightarrow> json list \<Rightarrow> string \<Rightarrow> u64 \<Rightarrow> okx_session \<times> (adapter_error + provider_event list)" where
  "okx_parse_funding_rates E = okx_ticker_items (okx_funding_update E) ''funding-rate''"

definition okx_candle_finality :: "json \<Rightarrow> adapter_error + candle_finality" where
  "okx_candle_finality v =
     and_then (okx_required_scalar v ''candle confirmation'') (\<lambda>s.
       if s = ''0'' then Inr candle_finality.Open
       else if s = ''1'' then Inr candle_finality.Closed
       else Inl (okx_invalid (''invalid candle confirmation: '' @ s)))"

definition okx_candle ::
  "ext \<Rightarrow> okx_session \<Rightarrow> string \<Rightarrow> u64 \<Rightarrow> json \<Rightarrow> adapter_error + provider_event" where
  "okx_candle E s symbol received_at_ms item =
     and_then (ok_or (okx_invalid ''candle item must be an array'') (js_as_array item)) (\<lambda>vs.
     if length vs \<noteq> 9
     then Inl (okx_invalid (''candle item must contain 9 fields, got '' @ show_nat (length vs)))
     else
       and_then (okx_parse_timestamp (vs ! 0) ''candle start time'') (\<lambda>start_time_ms.
       and_then (ok_or (okx_invalid ''candle end time overflow'') (checked_add start_time_ms 60000)) (\<lambda>end_time_ms.
       and_then (okx_candle_finality (vs ! 8)) (\<lambda>finality.
       and_then (okx_decimal E (vs ! 1) ''candle open'') (\<lambda>op.
       and_then (okx_decimal E (vs ! 2) ''candle high'') (\<lambda>hi.
       and_then (okx_decimal E (vs ! 3) ''candle low'') (\<lambda>lo.
       and_then (okx_decimal E (vs ! 4) ''candle close'') (\<lambda>cl.
       and_then (okx_optional_decimal_value E (vs ! 5) ''contract volume'') (\<lambda>contract.
       and_then (okx_optional_decimal_value E (vs ! 6) ''base volume'') (\<lambda>base.
       and_then (okx_optional_decimal_value E (vs ! 7) ''quote volume'') (\<lambda>quote.
         Inr (okx_event s symbol (Some start_time_ms) received_at_ms (CandlePayload
           \<lparr>cd_interval = ''1m'', cd_start_time_ms = start_time_ms, cd_end_time_ms = end_time_ms,
            cd_open = op, cd_high = hi, cd_low = lo, cd_close = cl, cd_base_volume = base,
            cd_quote_volume = quote, cd_contract_volume = contract, cd_finality = finality,
            cd_data_quality = []\<rparr>)))))))))))))"

definition okx_parse_candles ::
  "ext \<Rightarrow> okx_session \<Rightarrow> json list \<Rightarrow> string \<Rightarrow> u64 \<Rightarrow> adapter_error + provider_event list" where
  "okx_parse_candles E s data symbol received_at_ms =
     collect_results (okx_candle E s symbol received_at_ms) data"

section \<open>Frames\<close>

definition okx_parse_command_response :: "json \<Rightarrow> json \<Rightarrow> adapter_error + parsed_frame" where
  "okx_parse_command_response event v =
     and_then (ok_or (okx_invalid ''event must be a string'') (js_as_str event)) (\<lambda>name.
     if name = ''subscribe'' \<or> name = ''unsubscribe''
     then (case get_str v ''id'' of
         Some request_id \<Rightarrow>
           if request_id \<noteq> [] \<and> length request_id \<le> 32 then Inr (Acknowledgement request_id)
           else Inl (okx_invalid ''command response is missing a valid id'')
       | None \<Rightarrow> Inl (okx_invalid ''command response is missing a valid id''))
     else if name = ''error''
     then Inl (CommandRejected Okx
       (''code '' @ (case get_str v ''code'' of Some c \<Rightarrow> c | None \<Rightarrow> ''unknown'') @ '': '' @
        (case get_str v ''msg'' of Some m \<Rightarrow> m | None \<Rightarrow> ''unknown error'')))
     else Inr Ignored)"

definition okx_events ::
  "okx_session \<times> (adapter_error + provider_event list) \<Rightarrow> okx_session \<times> (adapter_error + parsed_frame)" where
  "okx_events r = (fst r, and_then (snd r) (\<lambda>es. Inr (Events es)))"

definition okx_parse_data_message ::
  "ext \<Rightarrow> okx_session \<Rightarrow> json \<Rightarrow> u64 \<Rightarrow> okx_session \<times> (adapter_error + parsed_frame)" where
  "okx_parse_data_message E s v received_at_ms =
     (case
        and_then (okx_required_object v ''arg'') (\<lambda>argument.
        and_then (okx_required_string argument ''channel'') (\<lambda>ch.
        and_then (okx_required_string argument ''instId'') (\<lambda>symbol.
        and_then (map_err okx_invalid (validate_okx_symbol symbol)) (\<lambda>_.
        and_then (ok_or (okx_invalid ''data must be an array'') (Option.bind (js_get v ''data'') js_as_array)) (\<lambda>data.
          Inr (ch, symbol, data)))))) of
        Inl e \<Rightarrow> (s, Inl e)
      | Inr (ch, symbol, data) \<Rightarrow>
          if data = [] then (s, Inr (Events []))
          else if ch = ''tickers'' then okx_events (okx_parse_tickers E s data symbol received_at_ms)
          else if ch = ''mark-price'' then okx_events (okx_parse_mark_prices E s data symbol received_at_ms)
          else if ch = ''funding-rate'' then okx_events (okx_parse_funding_rates E s data symbol received_at_ms)
          else if ch = ''candle1m'' then okx_events (s, okx_parse_candles E s data symbol received_at_ms)
          else (s, Inr Ignored))"

definition okx_parse ::
  "ext \<Rightarrow> json_lib \<Rightarrow> okx_session \<Rightarrow> string \<Rightarrow> u64 \<Rightarrow> okx_session \<times> (adapter_error + parsed_frame)" where
  "okx_parse E J s frame received_at_ms =
     (if trim frame = ''pong'' then (s, Inr Pong)
      else case js_from_str J frame of
          Inl e \<Rightarrow> (s, Inl (okx_invalid (''invalid JSON: '' @ e)))
        | Inr v \<Rightarrow>
            if \<not> is_object v then (s, Inl (okx_invalid ''message must be a JSON object''))
            else case js_get v ''event'' of
                Some event \<Rightarrow> (s, okx_parse_command_response event v)
              | None \<Rightarrow> okx_parse_data_message E s v received_at_ms)"

definition okx_adapter :: "ext \<Rightarrow> json_lib \<Rightarrow> okx_session adapter" where
  "okx_adapter E J =
     \<lparr>ad_provider = Okx, ad_endpoints = [Public, Business], ad_endpoint_for = okx_endpoint_for,
      ad_max_subscriptions = DEFAULT_MAX_PROVIDER_SUBSCRIPTIONS,
      ad_session = okx_new, as_subscription_messages = okx_subscription_messages J,
      as_heartbeat = okx_heartbeat, as_parse = okx_parse E J\<rparr>"

section \<open>The session contract\<close>

abbreviation okx_render :: "u64 \<Rightarrow> string" where
  "okx_render n \<equiv> show_nat (unat n)"

lemma okx_command_ids:
  "oc_request_id (snd (okx_command J op s c)) = okx_render (ok_next_command_id s) \<and>
   ok_next_command_id (fst (okx_command J op s c)) = succ_id (ok_next_command_id s)"
  by (simp add: okx_command_def okx_take_command_id_def)

lemma okx_command_epoch: "ok_connection_epoch (fst (okx_command J op s c)) = ok_connection_epoch s"
  by (simp add: okx_command_def okx_take_command_id_def)

lemma okx_key_args_size: "okx_key_args s k = Inr args \<Longrightarrow> args \<noteq> [] \<and> length args \<le> 3"
  by (auto simp: okx_key_args_def okx_channels_def result_simps split: endpoint_kind.splits channel.splits)

lemma okx_args_size:
  assumes "okx_subscription_args s subs = Inr args"
  shows "length args \<le> 3 * length subs \<and> (subs \<noteq> [] \<longrightarrow> args \<noteq> []) \<and> distinct args"
proof -
  from assms obtain ys where ys: "collect_results (okx_key_args s) subs = Inr ys" "args = first_occurrences {} (concat ys)"
    by (auto simp: okx_subscription_args_def and_then_Inr)
  have size: "length (concat ys) \<le> 3 * length subs \<and> (subs \<noteq> [] \<longrightarrow> concat ys \<noteq> [])"
    by (rule collect_results_concat [OF _ ys(1)]) (rule okx_key_args_size)
  then show ?thesis
    using length_first_occurrences [of "{}" "concat ys"] first_occurrences_Nil_iff [of "concat ys"] distinct_first_occurrences [of "{}" "concat ys"]
    unfolding ys(2) by (meson le_trans)
qed

lemma okx_messages_ok:
  assumes "okx_subscription_messages J s action subs = (s', Inr cmds)"
  obtains args t where "okx_subscription_args s subs = Inr args"
    "map_state (okx_command J (okx_operation action)) (s\<lparr>ok_tickers := t\<rparr>) (chunks OKX_COMMAND_ARGS_LIMIT args) = (s', cmds)"
  using assms that by (auto simp: okx_subscription_messages_def and_then_Inr split: sum.splits prod.splits)

lemma okx_limit_pos: "0 < OKX_COMMAND_ARGS_LIMIT"
  by (simp add: OKX_COMMAND_ARGS_LIMIT_def)

lemma okx_issued:
  assumes "okx_subscription_messages J s action subs = (s', Inr cmds)"
  shows "issued ok_next_command_id okx_render s s' (map oc_request_id cmds) \<and> length cmds \<le> 3 * length subs \<and>
    (subs \<noteq> [] \<longrightarrow> cmds \<noteq> [])"
proof -
  obtain args t where a: "okx_subscription_args s subs = Inr args"
    and m: "map_state (okx_command J (okx_operation action)) (s\<lparr>ok_tickers := t\<rparr>) (chunks OKX_COMMAND_ARGS_LIMIT args) = (s', cmds)"
    by (rule okx_messages_ok [OF assms])
  note ids = map_state_issued [OF okx_command_ids m]
  show ?thesis
    using ids okx_args_size [OF a] length_chunks [OF okx_limit_pos, of args] chunks_Nil_iff [OF okx_limit_pos, of args]
    by (auto simp: issued_def)
qed

lemma okx_messages_epoch:
  "ok_connection_epoch (fst (okx_subscription_messages J s action subs)) = ok_connection_epoch s"
proof -
  have "ok_connection_epoch (fst (map_state (okx_command J op) s' cs)) = ok_connection_epoch s'" for op s' cs
    by (rule map_state_keeps) (rule okx_command_epoch)
  then show ?thesis by (simp add: okx_subscription_messages_def case_prod_beta split: sum.split)
qed

lemma okx_ticker_items_session:
  "okx_ticker_items upd name s items sy now = (s', r) \<Longrightarrow>
    ok_next_command_id s' = ok_next_command_id s \<and> ok_connection_epoch s' = ok_connection_epoch s"
proof (induction items arbitrary: s s' r)
  case (Cons item items)
  then show ?case by (auto simp: Let_def split: sum.splits prod.splits dest!: Cons.IH)
qed simp

lemma okx_ticker_items_frame:
  "ok_next_command_id (fst (okx_ticker_items upd name s items sy now)) = ok_next_command_id s \<and>
   ok_connection_epoch (fst (okx_ticker_items upd name s items sy now)) = ok_connection_epoch s"
  by (metis okx_ticker_items_session prod.collapse)

lemma okx_parse_frame:
  "ok_next_command_id (fst (okx_parse E J s t now)) = ok_next_command_id s \<and>
   ok_connection_epoch (fst (okx_parse E J s t now)) = ok_connection_epoch s"
  by (simp add: okx_parse_def okx_parse_data_message_def okx_events_def okx_parse_tickers_def okx_parse_mark_prices_def
      okx_parse_funding_rates_def okx_ticker_items_frame split: sum.split option.split)

lemma okx_ticker_items_stamped:
  "okx_ticker_items upd name s items sy now = (s', Inr es) \<Longrightarrow> list_all (stamped (ok_connection_epoch s) Okx now) es"
proof (induction items arbitrary: s s' es)
  case (Cons item items)
  then show ?case
    by (auto simp: Let_def okx_event_def stamped_def split: sum.splits prod.splits dest!: Cons.IH)
qed simp

lemma okx_candle_stamped: "okx_candle E s sy now item = Inr e \<Longrightarrow> stamped (ok_connection_epoch s) Okx now e"
  by (auto simp: okx_candle_def okx_event_def stamped_def and_then_Inr split: if_splits)

lemma okx_parse_stamped: "frame_stamped (ok_connection_epoch s) Okx now (snd (okx_parse E J s t now))"
proof -
  have items: "frame_stamped (ok_connection_epoch s) Okx now (snd (okx_events (okx_ticker_items upd name s items sy now)))"
    for upd name items sy
    using okx_ticker_items_stamped [of upd name s items sy now]
    by (auto simp: okx_events_def prod_eq_iff intro: frame_stamped_and_then)
  have candles: "frame_stamped (ok_connection_epoch s) Okx now (snd (okx_events (s, okx_parse_candles E s data sy now)))" for data sy
    by (auto simp: okx_events_def okx_parse_candles_def intro!: frame_stamped_and_then
        elim!: collect_results_all okx_candle_stamped)
  have response: "frame_stamped u p now (okx_parse_command_response ev v)" for u p ev v
    by (auto simp: okx_parse_command_response_def intro!: frame_stamped_and_then split: option.split)
  show ?thesis
    by (simp add: okx_parse_def okx_parse_data_message_def okx_parse_tickers_def okx_parse_mark_prices_def
        okx_parse_funding_rates_def response items candles split: sum.split option.split)
qed

interpretation oks: prompt_session "okx_adapter E J" ok_next_command_id okx_render ok_connection_epoch for E J
  by unfold_locales
    (auto simp: okx_adapter_def okx_new_def okx_heartbeat_def okx_messages_epoch okx_parse_frame okx_parse_stamped
      dest: okx_issued plain_id_inj)

end
