(* ===== verification/Kucoin.thy ===== *)
theory Kucoin
  imports Contract
begin

text \<open>
  The KuCoin adapter (\<^verbatim>\<open>src/src/providers/kucoin.rs\<close>): discovery of the websocket server
  and its heartbeat timing, one command per topic, numbered heartbeats, and tickers merged from
  three channels. What the HTTP request returned and the url crate's functions are parameters.
\<close>

section \<open>Connection\<close>

definition KUCOIN_COMMAND_INTERVAL :: duration where
  "KUCOIN_COMMAND_INTERVAL = 125 * 10 ^ 6"

definition KUCOIN_SUBSCRIPTION_ACK_TIMEOUT :: duration where
  "KUCOIN_SUBSCRIPTION_ACK_TIMEOUT = 15 * 10 ^ 9"

definition KUCOIN_TOPICS_PER_COMMAND :: usize where
  "KUCOIN_TOPICS_PER_COMMAND = 100"

definition KUCOIN_MAX_MESSAGE_BYTES :: usize where
  "KUCOIN_MAX_MESSAGE_BYTES = 4 * 1024 * 1024"

definition KUCOIN_ROTATE_AFTER :: duration where
  "KUCOIN_ROTATE_AFTER = 1410 * 60 * 10 ^ 9"

definition kucoin_invalid :: "string \<Rightarrow> adapter_error" where
  "kucoin_invalid message = InvalidPayload Kucoin message"

definition kucoin_discovery :: "string \<Rightarrow> adapter_error" where
  "kucoin_discovery message = Discovery Kucoin message"

record instance_server =
  is_endpoint :: string
  is_encrypt :: bool
  is_protocol :: string
  is_ping_interval :: u64
  is_ping_timeout :: u64

record bullet_data =
  bd_token :: string
  bd_instance_servers :: "instance_server list"

record bullet_response =
  br_code :: string
  br_data :: "bullet_data option"

record url_lib =
  ul_parse :: "string \<Rightarrow> string + string"
  ul_scheme :: "string \<Rightarrow> string"
  ul_join :: "string \<Rightarrow> string \<Rightarrow> string + string"
  ul_append_pair :: "string \<Rightarrow> string \<Rightarrow> string \<Rightarrow> string"

definition target_from_discovery ::
  "url_lib \<Rightarrow> bullet_response \<Rightarrow> string \<Rightarrow> adapter_error + connection_target" where
  "target_from_discovery U response connect_id =
     (if br_code response \<noteq> ''200000''
      then Inl (kucoin_discovery (''bullet-public returned code '' @ br_code response))
      else
        and_then (ok_or (kucoin_discovery ''bullet-public response is missing data'') (br_data response)) (\<lambda>data.
        if bd_token data = [] then Inl (kucoin_discovery ''bullet-public returned an empty token'')
        else
          and_then (ok_or (kucoin_discovery ''bullet-public returned no encrypted websocket server'')
            (find (\<lambda>s. is_encrypt s \<and> eq_ignore_ascii_case (is_protocol s) ''websocket'') (bd_instance_servers data))) (\<lambda>server.
          if is_ping_interval server = 0 \<or> is_ping_timeout server = 0
          then Inl (kucoin_discovery ''bullet-public returned invalid heartbeat timings'')
          else
            and_then (map_err (\<lambda>e. kucoin_discovery (''invalid websocket endpoint: '' @ e))
              (ul_parse U (is_endpoint server))) (\<lambda>url.
            if ul_scheme U url \<noteq> ''wss''
            then Inl (kucoin_discovery ''encrypted websocket endpoint must use wss'')
            else
              and_then (ok_or (kucoin_discovery ''heartbeat timing overflow'')
                (checked_add (is_ping_interval server) (is_ping_timeout server))) (\<lambda>stale_ms.
                Inr \<lparr>ct_url = ul_append_pair U (ul_append_pair U url ''token'' (bd_token data)) ''connectId'' connect_id,
                     ct_command_interval = KUCOIN_COMMAND_INTERVAL,
                     ct_subscription_ack_timeout = KUCOIN_SUBSCRIPTION_ACK_TIMEOUT,
                     ct_heartbeat_interval = from_millis (max (is_ping_interval server div 2) 1),
                     ct_stale_after = from_millis stale_ms,
                     ct_max_message_bytes = KUCOIN_MAX_MESSAGE_BYTES,
                     ct_rotate_after = Some KUCOIN_ROTATE_AFTER\<rparr>)))))"

text \<open>What the discovery request came to.\<close>

datatype bullet_outcome =
    BulletRequestFailed string
  | BulletHttpStatus string
  | BulletInvalidBody string
  | BulletBody bullet_response

definition kucoin_connection_target ::
  "url_lib \<Rightarrow> string \<Rightarrow> endpoint_kind \<Rightarrow> bullet_outcome \<Rightarrow> string \<Rightarrow> adapter_error + connection_target" where
  "kucoin_connection_target U futures_rest_url endpoint outcome connect_id =
     (if endpoint \<noteq> Primary then Inl (UnsupportedEndpoint Kucoin endpoint)
      else
        and_then (map_err (\<lambda>e. kucoin_discovery (''invalid Futures REST base URL: '' @ e))
          (ul_join U futures_rest_url ''/api/v1/bullet-public'')) (\<lambda>_.
        case outcome of
          BulletRequestFailed e \<Rightarrow> Inl (kucoin_discovery (''bullet-public request failed: '' @ e))
        | BulletHttpStatus status \<Rightarrow> Inl (kucoin_discovery (''bullet-public returned HTTP '' @ status))
        | BulletInvalidBody e \<Rightarrow> Inl (kucoin_discovery (''invalid bullet-public response: '' @ e))
        | BulletBody response \<Rightarrow> target_from_discovery U response connect_id))"

section \<open>Session\<close>

record kucoin_session =
  ku_endpoint :: endpoint_kind
  ku_connection_epoch :: uuid
  ku_next_request_id :: u64
  ku_tickers :: "string \<rightharpoonup> ticker"

definition kucoin_new :: "endpoint_kind \<Rightarrow> uuid \<Rightarrow> kucoin_session" where
  "kucoin_new endpoint epoch = \<lparr>ku_endpoint = endpoint, ku_connection_epoch = epoch,
     ku_next_request_id = 1, ku_tickers = Map.empty\<rparr>"

definition kucoin_take_request_id :: "kucoin_session \<Rightarrow> kucoin_session \<times> string" where
  "kucoin_take_request_id s =
     (s\<lparr>ku_next_request_id := max (ku_next_request_id s + 1) 1\<rparr>, show_nat (unat (ku_next_request_id s)))"

definition validate_kucoin_symbol :: "string \<Rightarrow> string + unit" where
  "validate_kucoin_symbol symbol =
     (if ends_with ''USDTM'' symbol \<or> ends_with ''USDCM'' symbol then Inr ()
      else Inl (symbol @ '' is not a KuCoin USDT/USDC linear perpetual symbol''))"

section \<open>Commands\<close>

text \<open>The symbols of one channel, each once, in the order of the subscriptions.\<close>

definition channel_symbols :: "channel \<Rightarrow> sub_key list \<Rightarrow> string list" where
  "channel_symbols ch subs = first_occurrences {} (map key_symbol (filter (\<lambda>k. key_channel k = ch) subs))"

definition kucoin_collect_symbols :: "sub_key list \<Rightarrow> adapter_error + string list \<times> string list" where
  "kucoin_collect_symbols subs =
     and_then (collect_results (\<lambda>k. map_err (InvalidSubscription Kucoin) (validate_kucoin_symbol (key_symbol k))) subs) (\<lambda>_.
       Inr (channel_symbols Ticker subs, channel_symbols Candle1m subs))"

definition kucoin_ticker_topics :: "string \<Rightarrow> string list" where
  "kucoin_ticker_topics symbol =
     [''/contractMarket/tickerV2:'' @ symbol, ''/contractMarket/execution:'' @ symbol, ''/contract/instrument:'' @ symbol]"

definition kucoin_candle_topic :: "string list \<Rightarrow> string" where
  "kucoin_candle_topic symbols =
     ''/contractMarket/limitCandle:'' @ join_with '','' (map (\<lambda>symbol. symbol @ ''_1min'') symbols)"

definition kucoin_build_topics :: "string list \<Rightarrow> string list \<Rightarrow> string list" where
  "kucoin_build_topics ticker_symbols candle_symbols =
     concat (map kucoin_ticker_topics ticker_symbols) @
     map kucoin_candle_topic (chunks KUCOIN_TOPICS_PER_COMMAND candle_symbols)"

fun kucoin_command_type :: "subscription_action \<Rightarrow> string" where
  "kucoin_command_type Subscribe = ''subscribe''"
| "kucoin_command_type Unsubscribe = ''unsubscribe''"

definition kucoin_command ::
  "json_lib \<Rightarrow> string \<Rightarrow> kucoin_session \<Rightarrow> string \<Rightarrow> kucoin_session \<times> outbound_command" where
  "kucoin_command J command_type s topic =
     (case kucoin_take_request_id s of (s', request_id) \<Rightarrow>
        (s', \<lparr>oc_request_id = request_id,
              oc_text = js_to_string J (JObject [(''id'', JString request_id), (''type'', JString command_type),
                (''topic'', JString topic), (''privateChannel'', JBool False), (''response'', JBool True)]),
              oc_expected_acknowledgements = 1\<rparr>))"

definition kucoin_subscription_messages ::
  "json_lib \<Rightarrow> kucoin_session \<Rightarrow> subscription_action \<Rightarrow> sub_key list
     \<Rightarrow> kucoin_session \<times> (adapter_error + outbound_command list)" where
  "kucoin_subscription_messages J s action subs =
     (case
        and_then (validate_subscriptions Kucoin subs) (\<lambda>_.
        if ku_endpoint s \<noteq> Primary
        then Inl (InvalidSubscription Kucoin
          (''subscriptions do not belong on the '' @ endpoint_name (ku_endpoint s) @ '' endpoint''))
        else kucoin_collect_symbols subs) of
        Inl e \<Rightarrow> (s, Inl e)
      | Inr (ticker_symbols, candle_symbols) \<Rightarrow>
          let tickers = (if action = Unsubscribe
                then fold (\<lambda>symbol m. m(symbol := None)) ticker_symbols (ku_tickers s) else ku_tickers s)
          in case map_state (kucoin_command J (kucoin_command_type action)) (s\<lparr>ku_tickers := tickers\<rparr>)
                 (kucoin_build_topics ticker_symbols candle_symbols) of
               (s', messages) \<Rightarrow> (s', Inr messages))"

definition kucoin_heartbeat :: "kucoin_session \<Rightarrow> kucoin_session \<times> heartbeat" where
  "kucoin_heartbeat s =
     (case kucoin_take_request_id s of (s', request_id) \<Rightarrow>
        (s', HeartbeatText (''{'' @ [CHR 0x22] @ ''id'' @ [CHR 0x22] @ '':'' @ [CHR 0x22] @ request_id @
           [CHR 0x22] @ '','' @ [CHR 0x22] @ ''type'' @ [CHR 0x22] @ '':'' @ [CHR 0x22] @ ''ping'' @
           [CHR 0x22] @ ''}'')))"

section \<open>Fields\<close>

definition kucoin_required_object :: "json \<Rightarrow> string \<Rightarrow> adapter_error + json" where
  "kucoin_required_object = required_object kucoin_invalid"

definition kucoin_required_string :: "json \<Rightarrow> string \<Rightarrow> adapter_error + string" where
  "kucoin_required_string = required_string kucoin_invalid"

definition kucoin_required_value :: "json \<Rightarrow> string \<Rightarrow> adapter_error + json" where
  "kucoin_required_value = required_value kucoin_invalid"

definition kucoin_required_linear_symbol :: "json \<Rightarrow> string \<Rightarrow> adapter_error + string" where
  "kucoin_required_linear_symbol v field =
     and_then (kucoin_required_string v field) (\<lambda>symbol.
     and_then (map_err kucoin_invalid (validate_kucoin_symbol symbol)) (\<lambda>_. Inr symbol))"

definition kucoin_decimal_string :: "json \<Rightarrow> string \<Rightarrow> string option \<Rightarrow> adapter_error + string" where
  "kucoin_decimal_string = decimal_string kucoin_invalid"

definition kucoin_observation_from_field ::
  "ext \<Rightarrow> json \<Rightarrow> string \<Rightarrow> u64 \<Rightarrow> string option \<Rightarrow> adapter_error + observed_decimal" where
  "kucoin_observation_from_field E v field observed_at_ms original_json =
     and_then (kucoin_required_value v field) (\<lambda>w.
     and_then (kucoin_decimal_string w field original_json) (\<lambda>s.
       map_err (\<lambda>e. kucoin_invalid (domain_error_text e)) (new_observed_decimal E s observed_at_ms)))"

definition kucoin_decimal_value :: "ext \<Rightarrow> json \<Rightarrow> string \<Rightarrow> adapter_error + decimal_value" where
  "kucoin_decimal_value E v field =
     and_then (kucoin_decimal_string v field None) (\<lambda>s.
       map_err (\<lambda>e. kucoin_invalid (domain_error_text e)) (new_decimal_value E s))"

definition kucoin_integer_string :: "json \<Rightarrow> string \<Rightarrow> adapter_error + string" where
  "kucoin_integer_string v field =
     and_then (ok_or (kucoin_invalid (field @ '' must be an integer'')) (or_else (js_as_str v) (number_text v))) (\<lambda>s.
       if s = [] \<or> \<not> all_digits s then Inl (kucoin_invalid (field @ '' must be an unsigned integer''))
       else Inr s)"

definition kucoin_parse_u64 :: "json \<Rightarrow> string \<Rightarrow> adapter_error + u64" where
  "kucoin_parse_u64 v field =
     and_then (kucoin_integer_string v field) (\<lambda>s.
       ok_or (kucoin_invalid (field @ '' must be an unsigned integer'')) (parse_u64 s))"

definition nanoseconds_to_milliseconds :: "json \<Rightarrow> string \<Rightarrow> adapter_error + u64" where
  "nanoseconds_to_milliseconds v field =
     and_then (kucoin_parse_u64 v field) (\<lambda>n. Inr (n div 1000000))"

definition kucoin_parse_sequence :: "json \<Rightarrow> json \<Rightarrow> adapter_error + source_sequence option" where
  "kucoin_parse_sequence v data =
     and_then (kucoin_required_value v ''sn'') (\<lambda>w.
     and_then (kucoin_integer_string w ''sn'') (\<lambda>envelope_sequence.
     and_then (kucoin_required_value data ''sequence'') (\<lambda>w.
     and_then (kucoin_integer_string w ''sequence'') (\<lambda>data_sequence.
       if envelope_sequence \<noteq> data_sequence
       then Inl (kucoin_invalid (''envelope sequence '' @ envelope_sequence @
              '' does not match data sequence '' @ data_sequence))
       else Inr (Some \<lparr>sq_first = None, sq_last = Some data_sequence, sq_previous = None\<rparr>)))))"

definition kucoin_instrument_topic_symbol :: "string \<Rightarrow> adapter_error + string" where
  "kucoin_instrument_topic_symbol topic =
     (case strip_prefix ''/contract/instrument:'' topic of
        Some symbol \<Rightarrow>
          if symbol \<noteq> [] \<and> CHR '','' \<notin> set symbol
          then and_then (map_err kucoin_invalid (validate_kucoin_symbol symbol)) (\<lambda>_. Inr symbol)
          else Inl (kucoin_invalid ''invalid instrument topic'')
      | None \<Rightarrow> Inl (kucoin_invalid ''invalid instrument topic''))"

definition kucoin_validate_topic_symbol ::
  "string \<Rightarrow> string \<Rightarrow> string \<Rightarrow> string \<Rightarrow> adapter_error + unit" where
  "kucoin_validate_topic_symbol topic topic_prefix symbol topic_suffix =
     and_then (ok_or (kucoin_invalid (''topic must start with '' @ topic_prefix)) (strip_prefix topic_prefix topic)) (\<lambda>topic_symbols.
       if list_ex (\<lambda>item. item = symbol @ topic_suffix) (split_on (CHR '','') topic_symbols) then Inr ()
       else Inl (kucoin_invalid (''payload symbol '' @ symbol @ '' does not match topic '' @ topic)))"

section \<open>Market data\<close>

definition kucoin_ticker_event ::
  "kucoin_session \<Rightarrow> string \<Rightarrow> u64 \<Rightarrow> u64 \<Rightarrow> source_sequence option \<Rightarrow> ticker \<Rightarrow> provider_event" where
  "kucoin_ticker_event s symbol exchange_time_ms received_at_ms sq t =
     \<lparr>pe_connection_epoch = ku_connection_epoch s, pe_provider = Kucoin, pe_market = LinearPerpetual,
      pe_symbol = symbol, pe_exchange_time_ms = Some exchange_time_ms,
      pe_gateway_received_time_ms = received_at_ms, pe_source_sequence = sq, pe_payload = TickerPayload t\<rparr>"

text \<open>
  The ticker messages cache the updated ticker first and read the sequence numbers afterwards, so
  a message that fails on its sequence has already changed the cache.
\<close>

definition kucoin_emit ::
  "kucoin_session \<Rightarrow> adapter_error + string \<times> u64 \<times> ticker \<Rightarrow> u64 \<Rightarrow> adapter_error + source_sequence option
     \<Rightarrow> kucoin_session \<times> (adapter_error + parsed_frame)" where
  "kucoin_emit s update received_at_ms sq =
     (case update of
        Inl e \<Rightarrow> (s, Inl e)
      | Inr (symbol, observed_at_ms, t) \<Rightarrow>
          let s' = s\<lparr>ku_tickers := (ku_tickers s)(symbol \<mapsto> t)\<rparr>
          in (s', and_then sq (\<lambda>q. Inr (Events [kucoin_ticker_event s' symbol observed_at_ms received_at_ms q t]))))"

definition kucoin_symbol_data :: "json \<Rightarrow> string \<Rightarrow> string \<Rightarrow> adapter_error + json \<times> string" where
  "kucoin_symbol_data v topic_prefix topic_suffix =
     and_then (kucoin_required_string v ''topic'') (\<lambda>topic.
     and_then (kucoin_required_object v ''data'') (\<lambda>data.
     and_then (kucoin_required_linear_symbol data ''symbol'') (\<lambda>symbol.
     and_then (kucoin_validate_topic_symbol topic topic_prefix symbol topic_suffix) (\<lambda>_. Inr (data, symbol)))))"

definition kucoin_data_time :: "json \<Rightarrow> adapter_error + u64" where
  "kucoin_data_time data =
     and_then (kucoin_required_value data ''ts'') (\<lambda>w. nanoseconds_to_milliseconds w ''ts'')"

definition kucoin_parse_ticker_v2 ::
  "ext \<Rightarrow> kucoin_session \<Rightarrow> json \<Rightarrow> u64 \<Rightarrow> kucoin_session \<times> (adapter_error + parsed_frame)" where
  "kucoin_parse_ticker_v2 E s v received_at_ms =
     (case kucoin_symbol_data v ''/contractMarket/tickerV2:'' [] of
        Inl e \<Rightarrow> (s, Inl e)
      | Inr (data, symbol) \<Rightarrow>
          kucoin_emit s
            (and_then (kucoin_data_time data) (\<lambda>observed_at_ms.
             and_then (kucoin_observation_from_field E data ''bestBidPrice'' observed_at_ms None) (\<lambda>b.
             and_then (kucoin_observation_from_field E data ''bestAskPrice'' observed_at_ms None) (\<lambda>a.
               Inr (symbol, observed_at_ms,
                 (cached_ticker (ku_tickers s) symbol)\<lparr>tk_bid := Some b, tk_ask := Some a\<rparr>)))))
            received_at_ms (kucoin_parse_sequence v data))"

definition kucoin_parse_execution ::
  "ext \<Rightarrow> kucoin_session \<Rightarrow> json \<Rightarrow> u64 \<Rightarrow> kucoin_session \<times> (adapter_error + parsed_frame)" where
  "kucoin_parse_execution E s v received_at_ms =
     (case kucoin_symbol_data v ''/contractMarket/execution:'' [] of
        Inl e \<Rightarrow> (s, Inl e)
      | Inr (data, symbol) \<Rightarrow>
          kucoin_emit s
            (and_then (kucoin_data_time data) (\<lambda>observed_at_ms.
             and_then (kucoin_observation_from_field E data ''price'' observed_at_ms None) (\<lambda>l.
               Inr (symbol, observed_at_ms, (cached_ticker (ku_tickers s) symbol)\<lparr>tk_last := Some l\<rparr>))))
            received_at_ms (kucoin_parse_sequence v data))"

definition kucoin_instrument_data :: "json \<Rightarrow> string \<Rightarrow> adapter_error + string \<times> json \<times> u64" where
  "kucoin_instrument_data v topic =
     and_then (kucoin_instrument_topic_symbol topic) (\<lambda>symbol.
     and_then (kucoin_required_object v ''data'') (\<lambda>data.
     and_then (kucoin_required_value data ''timestamp'') (\<lambda>w.
     and_then (kucoin_parse_u64 w ''timestamp'') (\<lambda>observed_at_ms. Inr (symbol, data, observed_at_ms)))))"

definition kucoin_parse_mark_index ::
  "ext \<Rightarrow> kucoin_session \<Rightarrow> json \<Rightarrow> string \<Rightarrow> string \<Rightarrow> u64 \<Rightarrow> kucoin_session \<times> (adapter_error + parsed_frame)" where
  "kucoin_parse_mark_index E s v topic frame received_at_ms =
     kucoin_emit s
       (and_then (kucoin_instrument_data v topic) (\<lambda>(symbol, data, observed_at_ms).
        and_then (kucoin_observation_from_field E data ''markPrice'' observed_at_ms (Some frame)) (\<lambda>m.
        and_then (kucoin_observation_from_field E data ''indexPrice'' observed_at_ms (Some frame)) (\<lambda>i.
          Inr (symbol, observed_at_ms,
            (cached_ticker (ku_tickers s) symbol)\<lparr>tk_mark := Some m, tk_index := Some i\<rparr>)))))
       received_at_ms (Inr None)"

definition kucoin_parse_funding ::
  "ext \<Rightarrow> kucoin_session \<Rightarrow> json \<Rightarrow> string \<Rightarrow> string \<Rightarrow> u64 \<Rightarrow> kucoin_session \<times> (adapter_error + parsed_frame)" where
  "kucoin_parse_funding E s v topic frame received_at_ms =
     kucoin_emit s
       (and_then (kucoin_instrument_data v topic) (\<lambda>(symbol, data, observed_at_ms).
        and_then (kucoin_observation_from_field E data ''fundingRate'' observed_at_ms (Some frame)) (\<lambda>r.
          Inr (symbol, observed_at_ms, (cached_ticker (ku_tickers s) symbol)\<lparr>tk_funding_rate := Some r\<rparr>))))
       received_at_ms (Inr None)"

definition kucoin_candle ::
  "ext \<Rightarrow> kucoin_session \<Rightarrow> json \<Rightarrow> string \<Rightarrow> json list \<Rightarrow> u64 \<Rightarrow> adapter_error + provider_event" where
  "kucoin_candle E s data symbol vs received_at_ms =
     and_then (kucoin_parse_u64 (vs ! 0) ''candle start time'') (\<lambda>start_s.
     and_then (ok_or (kucoin_invalid ''candle start time overflow'') (checked_mul start_s 1000)) (\<lambda>start_time_ms.
     and_then (ok_or (kucoin_invalid ''candle end time overflow'') (checked_add start_time_ms 60000)) (\<lambda>end_time_ms.
     and_then (kucoin_required_value data ''time'') (\<lambda>w.
     and_then (kucoin_parse_u64 w ''time'') (\<lambda>exchange_time_ms.
     and_then (kucoin_decimal_value E (vs ! 1) ''candle open'') (\<lambda>op.
     and_then (kucoin_decimal_value E (vs ! 2) ''candle close'') (\<lambda>cl.
     and_then (kucoin_decimal_value E (vs ! 3) ''candle high'') (\<lambda>hi.
     and_then (kucoin_decimal_value E (vs ! 4) ''candle low'') (\<lambda>lo.
       Inr \<lparr>pe_connection_epoch = ku_connection_epoch s, pe_provider = Kucoin, pe_market = LinearPerpetual,
            pe_symbol = symbol, pe_exchange_time_ms = Some exchange_time_ms,
            pe_gateway_received_time_ms = received_at_ms, pe_source_sequence = None,
            pe_payload = CandlePayload
              \<lparr>cd_interval = ''1m'', cd_start_time_ms = start_time_ms, cd_end_time_ms = end_time_ms,
               cd_open = op, cd_high = hi, cd_low = lo, cd_close = cl, cd_base_volume = None,
               cd_quote_volume = None, cd_contract_volume = None, cd_finality = Unknown,
               cd_data_quality = [ProviderVolumeUntrusted]\<rparr>\<rparr>)))))))))"

definition kucoin_parse_candle ::
  "ext \<Rightarrow> kucoin_session \<Rightarrow> json \<Rightarrow> u64 \<Rightarrow> adapter_error + parsed_frame" where
  "kucoin_parse_candle E s v received_at_ms =
     and_then (kucoin_symbol_data v ''/contractMarket/limitCandle:'' ''_1min'') (\<lambda>(data, symbol).
     and_then (ok_or (kucoin_invalid ''candles must be an array'') (Option.bind (js_get data ''candles'') js_as_array)) (\<lambda>vs.
     if length vs \<noteq> 7
     then Inl (kucoin_invalid (''candles must contain 7 fields, got '' @ show_nat (length vs)))
     else and_then (kucoin_candle E s data symbol vs received_at_ms) (\<lambda>event. Inr (Events [event]))))"

section \<open>Frames\<close>

definition kucoin_command_error :: "json_lib \<Rightarrow> json \<Rightarrow> adapter_error" where
  "kucoin_command_error J v =
     CommandRejected Kucoin
       (''code '' @ (case js_get v ''code'' of None \<Rightarrow> ''unknown'' | Some c \<Rightarrow> js_to_string J c) @ '': '' @
        (case Option.bind (or_else (js_get v ''msg'') (js_get v ''data'')) js_as_str of
           Some m \<Rightarrow> m | None \<Rightarrow> ''unknown error''))"

definition kucoin_parse_market_message ::
  "ext \<Rightarrow> kucoin_session \<Rightarrow> json \<Rightarrow> string \<Rightarrow> u64 \<Rightarrow> kucoin_session \<times> (adapter_error + parsed_frame)" where
  "kucoin_parse_market_message E s v frame received_at_ms =
     (case kucoin_required_string v ''topic'' of
        Inl e \<Rightarrow> (s, Inl e)
      | Inr topic \<Rightarrow>
          let subject = get_str v ''subject''
          in if subject = Some ''tickerV2'' \<or> starts_with ''/contractMarket/tickerV2:'' topic
             then kucoin_parse_ticker_v2 E s v received_at_ms
             else if subject = Some ''match'' \<or> starts_with ''/contractMarket/execution:'' topic
             then kucoin_parse_execution E s v received_at_ms
             else if subject = Some ''mark.index.price''
             then kucoin_parse_mark_index E s v topic frame received_at_ms
             else if subject = Some ''funding.rate''
             then kucoin_parse_funding E s v topic frame received_at_ms
             else if subject = Some ''candle.stick'' \<or> starts_with ''/contractMarket/limitCandle:'' topic
             then (s, kucoin_parse_candle E s v received_at_ms)
             else (s, Inr Ignored))"

definition kucoin_parse ::
  "ext \<Rightarrow> json_lib \<Rightarrow> kucoin_session \<Rightarrow> string \<Rightarrow> u64 \<Rightarrow> kucoin_session \<times> (adapter_error + parsed_frame)" where
  "kucoin_parse E J s frame received_at_ms =
     (case js_from_str J frame of
        Inl e \<Rightarrow> (s, Inl (kucoin_invalid (''invalid JSON: '' @ e)))
      | Inr v \<Rightarrow>
          if \<not> is_object v then (s, Inl (kucoin_invalid ''message must be a JSON object''))
          else case js_get v ''type'' of
              Some (JString message_type) \<Rightarrow>
                if message_type = ''ack''
                then (s, case get_str v ''id'' of
                    Some request_id \<Rightarrow>
                      if request_id \<noteq> [] \<and> length request_id \<le> 64 then Inr (Acknowledgement request_id)
                      else Inl (kucoin_invalid ''ack is missing a valid request id'')
                  | None \<Rightarrow> Inl (kucoin_invalid ''ack is missing a valid request id''))
                else if message_type = ''pong'' then (s, Inr Pong)
                else if message_type = ''error'' then (s, Inl (kucoin_command_error J v))
                else if message_type = ''message'' then kucoin_parse_market_message E s v frame received_at_ms
                else (s, Inr Ignored)
            | Some _ \<Rightarrow> (s, Inl (kucoin_invalid ''type must be a string''))
            | None \<Rightarrow>
                if js_get v ''topic'' \<noteq> None then kucoin_parse_market_message E s v frame received_at_ms
                else (s, Inr Ignored))"

definition kucoin_adapter :: "ext \<Rightarrow> json_lib \<Rightarrow> kucoin_session adapter" where
  "kucoin_adapter E J =
     \<lparr>ad_provider = Kucoin, ad_endpoints = [Primary], ad_endpoint_for = (\<lambda>_. Primary),
      ad_max_subscriptions = KUCOIN_TOPICS_PER_COMMAND,
      ad_session = kucoin_new, as_subscription_messages = kucoin_subscription_messages J,
      as_heartbeat = kucoin_heartbeat, as_parse = kucoin_parse E J\<rparr>"

section \<open>The session contract\<close>

abbreviation kucoin_render :: "u64 \<Rightarrow> string" where
  "kucoin_render n \<equiv> show_nat (unat n)"

lemma kucoin_command_ids:
  "oc_request_id (snd (kucoin_command J m s c)) = kucoin_render (ku_next_request_id s) \<and>
   ku_next_request_id (fst (kucoin_command J m s c)) = succ_id (ku_next_request_id s)"
  by (simp add: kucoin_command_def kucoin_take_request_id_def)

lemma kucoin_command_epoch: "ku_connection_epoch (fst (kucoin_command J m s c)) = ku_connection_epoch s"
  by (simp add: kucoin_command_def kucoin_take_request_id_def)

lemma kucoin_limit_pos: "0 < KUCOIN_TOPICS_PER_COMMAND"
  by (simp add: KUCOIN_TOPICS_PER_COMMAND_def)

lemma kucoin_topics_size:
  "length (kucoin_build_topics (channel_symbols Ticker subs) (channel_symbols Candle1m subs)) \<le> 3 * length subs \<and>
   (subs \<noteq> [] \<longrightarrow> kucoin_build_topics (channel_symbols Ticker subs) (channel_symbols Candle1m subs) \<noteq> [])"
proof -
  let ?n = "\<lambda>ch. length (filter (\<lambda>k. key_channel k = ch) subs)"
  have "length (channel_symbols ch subs) \<le> ?n ch" for ch
    unfolding channel_symbols_def using length_first_occurrences by (metis length_map)
  then have *: "length (channel_symbols Ticker subs) \<le> ?n Ticker" "length (channel_symbols Candle1m subs) \<le> ?n Candle1m" by blast+
  have sum: "?n Ticker + ?n Candle1m = length subs"
    by (induction subs) (auto split: if_splits intro: channel.exhaust)
  have "length (concat (map kucoin_ticker_topics xs)) = 3 * length xs" for xs
    by (induction xs) (simp_all add: kucoin_ticker_topics_def)
  then have "length (kucoin_build_topics (channel_symbols Ticker subs) (channel_symbols Candle1m subs)) \<le> 3 * length subs"
    using * sum length_chunks [OF kucoin_limit_pos, of "channel_symbols Candle1m subs"] by (simp add: kucoin_build_topics_def)
  moreover have "kucoin_build_topics (channel_symbols Ticker subs) (channel_symbols Candle1m subs) \<noteq> []" if ne: "subs \<noteq> []"
  proof -
    have "channel_symbols ch subs \<noteq> []" if "k \<in> set subs" "key_channel k = ch" for k ch
      unfolding channel_symbols_def first_occurrences_Nil_iff using that by (auto simp: filter_empty_conv)
    moreover obtain k where "k \<in> set subs" using ne by (cases subs) auto
    ultimately show ?thesis
      using chunks_Nil_iff [OF kucoin_limit_pos] by (cases "key_channel k") (auto simp: kucoin_build_topics_def kucoin_ticker_topics_def)
  qed
  ultimately show ?thesis by blast
qed

lemma kucoin_issued:
  assumes "kucoin_subscription_messages J s action subs = (s', Inr cmds)"
  shows "issued ku_next_request_id kucoin_render s s' (map oc_request_id cmds) \<and> length cmds \<le> 3 * length subs \<and>
    (subs \<noteq> [] \<longrightarrow> cmds \<noteq> [])"
proof -
  obtain t where m: "map_state (kucoin_command J (kucoin_command_type action)) (s\<lparr>ku_tickers := t\<rparr>)
      (kucoin_build_topics (channel_symbols Ticker subs) (channel_symbols Candle1m subs)) = (s', cmds)"
    using assms
    by (auto simp: kucoin_subscription_messages_def kucoin_collect_symbols_def and_then_Inr Let_def split: sum.splits prod.splits if_splits)
  note ids = map_state_issued [OF kucoin_command_ids m]
  with kucoin_topics_size [of subs] show ?thesis by (auto simp: issued_def)
qed

lemma kucoin_messages_epoch:
  "ku_connection_epoch (fst (kucoin_subscription_messages J s action subs)) = ku_connection_epoch s"
proof -
  have "ku_connection_epoch (fst (map_state (kucoin_command J m) s' cs)) = ku_connection_epoch s'" for m s' cs
    by (rule map_state_keeps) (rule kucoin_command_epoch)
  then show ?thesis by (simp add: kucoin_subscription_messages_def Let_def case_prod_beta split: sum.split)
qed

lemma kucoin_emit_frame:
  "ku_next_request_id (fst (kucoin_emit s r now q)) = ku_next_request_id s \<and>
   ku_connection_epoch (fst (kucoin_emit s r now q)) = ku_connection_epoch s"
  by (simp add: kucoin_emit_def Let_def case_prod_beta split: sum.split)

lemma kucoin_emit_stamped: "frame_stamped (ku_connection_epoch s) Kucoin now (snd (kucoin_emit s r now q))"
  by (auto simp: kucoin_emit_def Let_def kucoin_ticker_event_def stamped_def intro!: frame_stamped_and_then split: sum.split)

lemma kucoin_market_frame:
  "ku_next_request_id (fst (kucoin_parse_market_message E s v t now)) = ku_next_request_id s \<and>
   ku_connection_epoch (fst (kucoin_parse_market_message E s v t now)) = ku_connection_epoch s"
proof -
  have "ku_next_request_id (fst (kucoin_parse_ticker_v2 E s v now)) = ku_next_request_id s \<and>
      ku_connection_epoch (fst (kucoin_parse_ticker_v2 E s v now)) = ku_connection_epoch s"
    by (simp add: kucoin_parse_ticker_v2_def kucoin_emit_frame case_prod_beta split: sum.split)
  moreover have "ku_next_request_id (fst (kucoin_parse_execution E s v now)) = ku_next_request_id s \<and>
      ku_connection_epoch (fst (kucoin_parse_execution E s v now)) = ku_connection_epoch s"
    by (simp add: kucoin_parse_execution_def kucoin_emit_frame case_prod_beta split: sum.split)
  ultimately show ?thesis
    by (simp add: kucoin_parse_market_message_def kucoin_parse_mark_index_def kucoin_parse_funding_def kucoin_emit_frame
        Let_def split: sum.split)
qed

lemma kucoin_parse_frame:
  "ku_next_request_id (fst (kucoin_parse E J s t now)) = ku_next_request_id s \<and>
   ku_connection_epoch (fst (kucoin_parse E J s t now)) = ku_connection_epoch s"
  by (simp add: kucoin_parse_def kucoin_market_frame split: sum.split option.split json.split)

lemma kucoin_candle_stamped:
  "kucoin_candle E s data symbol vs now = Inr e \<Longrightarrow> stamped (ku_connection_epoch s) Kucoin now e"
  by (auto simp: kucoin_candle_def and_then_Inr stamped_def)

lemma kucoin_market_stamped:
  "frame_stamped (ku_connection_epoch s) Kucoin now (snd (kucoin_parse_market_message E s v t now))"
proof -
  have "frame_stamped (ku_connection_epoch s) Kucoin now (kucoin_parse_candle E s v now)"
    unfolding kucoin_parse_candle_def by (auto intro!: frame_stamped_and_then elim!: kucoin_candle_stamped)
  moreover have "frame_stamped (ku_connection_epoch s) Kucoin now (snd (kucoin_parse_ticker_v2 E s v now))"
    by (simp add: kucoin_parse_ticker_v2_def kucoin_emit_stamped case_prod_beta split: sum.split)
  moreover have "frame_stamped (ku_connection_epoch s) Kucoin now (snd (kucoin_parse_execution E s v now))"
    by (simp add: kucoin_parse_execution_def kucoin_emit_stamped case_prod_beta split: sum.split)
  ultimately show ?thesis
    by (simp add: kucoin_parse_market_message_def kucoin_parse_mark_index_def kucoin_parse_funding_def kucoin_emit_stamped
        Let_def split: sum.split)
qed

lemma kucoin_parse_stamped: "frame_stamped (ku_connection_epoch s) Kucoin now (snd (kucoin_parse E J s t now))"
  by (simp add: kucoin_parse_def kucoin_market_stamped split: sum.split option.split json.split)

interpretation kus: prompt_session "kucoin_adapter E J" ku_next_request_id kucoin_render ku_connection_epoch for E J
  by unfold_locales
    (auto simp: kucoin_adapter_def kucoin_new_def kucoin_heartbeat_def kucoin_take_request_id_def kucoin_messages_epoch
      kucoin_parse_frame kucoin_parse_stamped dest: kucoin_issued plain_id_inj)

end
