(* ===== verification/Mexc.thy ===== *)
theory Mexc
  imports Contract
begin

text \<open>
  The MEXC adapter (\<^verbatim>\<open>src/src/providers/mexc.rs\<close>): one command per native stream,
  acknowledgements that carry no request id and are matched in order, and tickers merged from the
  ticker and the funding stream.
\<close>

section \<open>Connection\<close>

definition MEXC_COMMAND_INTERVAL :: duration where
  "MEXC_COMMAND_INTERVAL = 250 * 10 ^ 6"

definition MEXC_SUBSCRIPTION_ACK_TIMEOUT :: duration where
  "MEXC_SUBSCRIPTION_ACK_TIMEOUT = 15 * 10 ^ 9"

definition MEXC_HEARTBEAT_INTERVAL :: duration where
  "MEXC_HEARTBEAT_INTERVAL = 15 * 10 ^ 9"

definition MEXC_STALE_AFTER :: duration where
  "MEXC_STALE_AFTER = 45 * 10 ^ 9"

definition MEXC_MAX_MESSAGE_BYTES :: usize where
  "MEXC_MAX_MESSAGE_BYTES = 1024 * 1024"

definition mexc_connection_target :: "string \<Rightarrow> endpoint_kind \<Rightarrow> adapter_error + connection_target" where
  "mexc_connection_target url endpoint =
     (if endpoint \<noteq> Primary then Inl (UnsupportedEndpoint Mexc endpoint)
      else Inr \<lparr>ct_url = url, ct_command_interval = MEXC_COMMAND_INTERVAL,
             ct_subscription_ack_timeout = MEXC_SUBSCRIPTION_ACK_TIMEOUT,
             ct_heartbeat_interval = MEXC_HEARTBEAT_INTERVAL, ct_stale_after = MEXC_STALE_AFTER,
             ct_max_message_bytes = MEXC_MAX_MESSAGE_BYTES, ct_rotate_after = None\<rparr>)"

section \<open>Session\<close>

record pending_acknowledgement =
  pa_response_channel :: string
  pa_request_id :: string

record native_subscription =
  ns_method :: string
  ns_symbol :: string
  ns_interval :: "string option"

record mexc_session =
  mx_endpoint :: endpoint_kind
  mx_connection_epoch :: uuid
  mx_next_request_id :: u64
  mx_pending_acknowledgements :: "pending_acknowledgement list"
  mx_tickers :: "string \<rightharpoonup> ticker"

definition mexc_new :: "endpoint_kind \<Rightarrow> uuid \<Rightarrow> mexc_session" where
  "mexc_new endpoint epoch = \<lparr>mx_endpoint = endpoint, mx_connection_epoch = epoch, mx_next_request_id = 1,
     mx_pending_acknowledgements = [], mx_tickers = Map.empty\<rparr>"

definition mexc_invalid :: "string \<Rightarrow> adapter_error" where
  "mexc_invalid message = InvalidPayload Mexc message"

definition mexc_take_request_id :: "mexc_session \<Rightarrow> mexc_session \<times> string" where
  "mexc_take_request_id s =
     (s\<lparr>mx_next_request_id := max (mx_next_request_id s + 1) 1\<rparr>,
      ''mexc-'' @ show_nat (unat (mx_next_request_id s)))"

definition validate_mexc_symbol :: "string \<Rightarrow> string + unit" where
  "validate_mexc_symbol symbol =
     (case strip_suffix ''_USDT'' symbol of
        None \<Rightarrow> Inl (symbol @ '' is not a MEXC USDT-margined perpetual symbol'')
      | Some base \<Rightarrow>
          if base = [] \<or> \<not> list_all (\<lambda>c. is_ascii_alphanumeric (of_char c)) base
          then Inl (symbol @ '' has invalid MEXC symbol syntax'')
          else Inr ())"

section \<open>Commands\<close>

fun mexc_methods :: "channel \<Rightarrow> (string \<times> string option) list" where
  "mexc_methods Ticker = [(''ticker'', None), (''funding.rate'', None)]"
| "mexc_methods Candle1m = [(''kline'', Some ''Min1'')]"

definition mexc_native :: "sub_key \<Rightarrow> native_subscription list" where
  "mexc_native k = map (\<lambda>(method, interval). \<lparr>ns_method = method, ns_symbol = key_symbol k, ns_interval = interval\<rparr>)
     (mexc_methods (key_channel k))"

text \<open>
  The loop over the subscriptions: a symbol that fails ends it, with the tickers of the
  subscriptions before it already forgotten.
\<close>

fun mexc_collect ::
  "subscription_action \<Rightarrow> sub_key list \<Rightarrow> native_subscription set \<Rightarrow> (string \<rightharpoonup> ticker)
     \<Rightarrow> (string \<rightharpoonup> ticker) \<times> (adapter_error + native_subscription list)" where
  "mexc_collect action [] seen tickers = (tickers, Inr [])"
| "mexc_collect action (k # ks) seen tickers =
     (case validate_mexc_symbol (key_symbol k) of
        Inl message \<Rightarrow> (tickers, Inl (InvalidSubscription Mexc message))
      | Inr _ \<Rightarrow>
          (case mexc_collect action ks (seen \<union> set (mexc_native k)) (forget_tickers action [k] tickers) of
             (tickers', rest) \<Rightarrow>
               (tickers', and_then rest (\<lambda>natives. Inr (first_occurrences seen (mexc_native k) @ natives)))))"

fun mexc_operation :: "subscription_action \<Rightarrow> string" where
  "mexc_operation Subscribe = ''sub''"
| "mexc_operation Unsubscribe = ''unsub''"

definition mexc_parameter :: "subscription_action \<Rightarrow> native_subscription \<Rightarrow> json" where
  "mexc_parameter action n =
     JObject ((case ns_interval n of
         Some interval \<Rightarrow> if action = Subscribe then [(''interval'', JString interval)] else []
       | None \<Rightarrow> []) @ [(''symbol'', JString (ns_symbol n))])"

definition mexc_command ::
  "json_lib \<Rightarrow> subscription_action \<Rightarrow> mexc_session \<Rightarrow> native_subscription \<Rightarrow> mexc_session \<times> outbound_command" where
  "mexc_command J action s n =
     (let method = mexc_operation action @ ''.'' @ ns_method n;
          response_channel = ''rs.'' @ method;
          (s', request_id) = mexc_take_request_id s;
          message = js_to_string J (JObject [(''gzip'', JBool False), (''method'', JString method),
            (''param'', mexc_parameter action n)]);
          expected = (if action = Subscribe then 1 else 0)
      in (if expected = 1
          then s'\<lparr>mx_pending_acknowledgements := mx_pending_acknowledgements s' @
                   [\<lparr>pa_response_channel = response_channel, pa_request_id = request_id\<rparr>]\<rparr>
          else s',
          \<lparr>oc_request_id = request_id, oc_text = message, oc_expected_acknowledgements = expected\<rparr>))"

definition mexc_subscription_messages ::
  "json_lib \<Rightarrow> mexc_session \<Rightarrow> subscription_action \<Rightarrow> sub_key list
     \<Rightarrow> mexc_session \<times> (adapter_error + outbound_command list)" where
  "mexc_subscription_messages J s action subs =
     (case validate_subscriptions Mexc subs of
        Inl e \<Rightarrow> (s, Inl e)
      | Inr _ \<Rightarrow>
          if mx_endpoint s \<noteq> Primary
          then (s, Inl (InvalidSubscription Mexc
            (''subscriptions do not belong on the '' @ endpoint_name (mx_endpoint s) @ '' endpoint'')))
          else case mexc_collect action subs {} (mx_tickers s) of
              (tickers, Inl e) \<Rightarrow> (s\<lparr>mx_tickers := tickers\<rparr>, Inl e)
            | (tickers, Inr natives) \<Rightarrow>
                (case map_state (mexc_command J action) (s\<lparr>mx_tickers := tickers\<rparr>) natives of
                   (s', messages) \<Rightarrow> (s', Inr messages)))"

definition mexc_heartbeat :: "json_lib \<Rightarrow> mexc_session \<Rightarrow> mexc_session \<times> heartbeat" where
  "mexc_heartbeat J s = (s, HeartbeatText (js_to_string J (JObject [(''method'', JString ''ping'')])))"

section \<open>Fields\<close>

definition mexc_required_object :: "json \<Rightarrow> string \<Rightarrow> adapter_error + json" where
  "mexc_required_object = required_object mexc_invalid"

definition mexc_required_string :: "json \<Rightarrow> string \<Rightarrow> adapter_error + string" where
  "mexc_required_string = required_string mexc_invalid"

definition mexc_required_value :: "json \<Rightarrow> string \<Rightarrow> adapter_error + json" where
  "mexc_required_value = required_value mexc_invalid"

definition mexc_required_u64 :: "json \<Rightarrow> string \<Rightarrow> adapter_error + u64" where
  "mexc_required_u64 v field =
     (let bad = mexc_invalid (field @ '' must be an unsigned integer'')
      in and_then (mexc_required_value v field) (\<lambda>w.
         case w of
           JInt _ \<Rightarrow> ok_or bad (js_as_u64 w)
         | JString s \<Rightarrow> if s \<noteq> [] \<and> all_digits s then ok_or bad (parse_u64 s) else Inl bad
         | _ \<Rightarrow> Inl bad))"

definition mexc_optional_u64 :: "json \<Rightarrow> string \<Rightarrow> adapter_error + u64 option" where
  "mexc_optional_u64 v field =
     (if js_get v field = None \<or> js_get v field = Some JNull then Inr None
      else and_then (mexc_required_u64 v field) (\<lambda>n. Inr (Some n)))"

definition mexc_decimal_string :: "json \<Rightarrow> string \<Rightarrow> string \<Rightarrow> adapter_error + string" where
  "mexc_decimal_string v field original_json = decimal_string mexc_invalid v field (Some original_json)"

definition mexc_decimal :: "ext \<Rightarrow> json \<Rightarrow> string \<Rightarrow> string \<Rightarrow> adapter_error + decimal_value" where
  "mexc_decimal E v field original_json =
     and_then (mexc_decimal_string v field original_json) (\<lambda>raw.
     and_then
       (if CHR ''e'' \<in> set raw \<or> CHR ''E'' \<in> set raw
        then ok_or (mexc_invalid (field @ '' is not a decimal''))
          (map_option (dec_to_string E) (dec_from_scientific E raw))
        else Inr raw) (\<lambda>normalized.
       map_err (\<lambda>e. mexc_invalid (domain_error_text e)) (new_decimal_value E normalized)))"

definition mexc_optional_decimal :: "ext \<Rightarrow> json \<Rightarrow> string \<Rightarrow> string \<Rightarrow> adapter_error + decimal_value option" where
  "mexc_optional_decimal E v field original_json =
     (case js_get v field of
        None \<Rightarrow> Inr None
      | Some w \<Rightarrow>
          if w = JNull \<or> w = JString [] then Inr None
          else and_then (mexc_decimal E w field original_json) (\<lambda>d. Inr (Some d)))"

definition mexc_observation :: "ext \<Rightarrow> json \<Rightarrow> string \<Rightarrow> u64 \<Rightarrow> string \<Rightarrow> adapter_error + observed_decimal" where
  "mexc_observation E v field observed_at_ms original_json =
     and_then (mexc_decimal_string v field original_json) (\<lambda>s.
       map_err (\<lambda>e. mexc_invalid (domain_error_text e)) (new_observed_decimal E s observed_at_ms))"

definition mexc_update_observation ::
  "ext \<Rightarrow> observed_decimal option \<Rightarrow> json \<Rightarrow> string \<Rightarrow> u64 \<Rightarrow> string \<Rightarrow> adapter_error + observed_decimal option" where
  "mexc_update_observation E target v field observed_at_ms original_json =
     (case js_get v field of
        None \<Rightarrow> Inr target
      | Some w \<Rightarrow>
          if is_null w \<or> js_as_str w = Some [] then Inr target
          else and_then (mexc_observation E w field observed_at_ms original_json) (\<lambda>d. Inr (Some d)))"

definition mexc_checked_payload_symbol :: "ext \<Rightarrow> json \<Rightarrow> string \<Rightarrow> adapter_error + string" where
  "mexc_checked_payload_symbol E data expected_symbol =
     and_then (map_err mexc_invalid (validate_mexc_symbol expected_symbol)) (\<lambda>_.
     and_then (mexc_required_string data ''symbol'') (\<lambda>symbol.
       if symbol \<noteq> expected_symbol
       then Inl (mexc_invalid (''payload symbol '' @ symbol @ '' does not match envelope symbol '' @ expected_symbol))
       else map_err (\<lambda>e. mexc_invalid (domain_error_text e)) (normalize_symbol E symbol)))"

section \<open>Market data\<close>

definition mexc_event :: "mexc_session \<Rightarrow> string \<Rightarrow> u64 option \<Rightarrow> u64 \<Rightarrow> market_payload \<Rightarrow> provider_event" where
  "mexc_event s symbol exchange_time_ms received_at_ms payload =
     \<lparr>pe_connection_epoch = mx_connection_epoch s, pe_provider = Mexc, pe_market = LinearPerpetual,
      pe_symbol = symbol, pe_exchange_time_ms = exchange_time_ms,
      pe_gateway_received_time_ms = received_at_ms, pe_source_sequence = None, pe_payload = payload\<rparr>"

definition mexc_payload :: "ext \<Rightarrow> json \<Rightarrow> adapter_error + json \<times> string" where
  "mexc_payload E v =
     and_then (mexc_required_string v ''symbol'') (\<lambda>outer_symbol.
     and_then (mexc_required_object v ''data'') (\<lambda>data.
     and_then (mexc_checked_payload_symbol E data outer_symbol) (\<lambda>symbol. Inr (data, symbol))))"

definition mexc_ticker_update :: "ext \<Rightarrow> ticker \<Rightarrow> json \<Rightarrow> u64 \<Rightarrow> string \<Rightarrow> adapter_error + ticker" where
  "mexc_ticker_update E t data observed_at_ms original_json =
     and_then (mexc_update_observation E (tk_last t) data ''lastPrice'' observed_at_ms original_json) (\<lambda>l.
     and_then (mexc_update_observation E (tk_mark t) data ''fairPrice'' observed_at_ms original_json) (\<lambda>m.
     and_then (mexc_update_observation E (tk_index t) data ''indexPrice'' observed_at_ms original_json) (\<lambda>i.
     and_then (mexc_update_observation E (tk_bid t) data ''bid1'' observed_at_ms original_json) (\<lambda>b.
     and_then (mexc_update_observation E (tk_ask t) data ''ask1'' observed_at_ms original_json) (\<lambda>a.
     and_then (mexc_update_observation E (tk_funding_rate t) data ''fundingRate'' observed_at_ms original_json) (\<lambda>r.
       Inr (t\<lparr>tk_last := l, tk_mark := m, tk_index := i, tk_bid := b, tk_ask := a, tk_funding_rate := r\<rparr>)))))))"

definition mexc_parse_ticker ::
  "ext \<Rightarrow> mexc_session \<Rightarrow> json \<Rightarrow> string \<Rightarrow> u64 \<Rightarrow> mexc_session \<times> (adapter_error + parsed_frame)" where
  "mexc_parse_ticker E s v original_json received_at_ms =
     (case
        and_then (mexc_payload E v) (\<lambda>(data, symbol).
        and_then (mexc_required_u64 data ''timestamp'') (\<lambda>observed_at_ms.
        and_then (mexc_ticker_update E (cached_ticker (mx_tickers s) symbol) data observed_at_ms original_json) (\<lambda>t.
          if \<not> has_price t then Inl (mexc_invalid ''ticker contains no usable price'')
          else Inr (symbol, observed_at_ms, t)))) of
        Inl e \<Rightarrow> (s, Inl e)
      | Inr (symbol, observed_at_ms, t) \<Rightarrow>
          (s\<lparr>mx_tickers := (mx_tickers s)(symbol \<mapsto> t)\<rparr>,
           Inr (Events [mexc_event s symbol (Some observed_at_ms) received_at_ms (TickerPayload t)])))"

definition mexc_rate_field :: "json \<Rightarrow> adapter_error + string \<times> json" where
  "mexc_rate_field data =
     ok_or (mexc_invalid ''missing rate or fundingRate'')
       (or_else (map_option (\<lambda>w. (''rate'', w)) (js_get data ''rate''))
                (map_option (\<lambda>w. (''fundingRate'', w)) (js_get data ''fundingRate'')))"

definition mexc_parse_funding ::
  "ext \<Rightarrow> mexc_session \<Rightarrow> json \<Rightarrow> string \<Rightarrow> u64 \<Rightarrow> mexc_session \<times> (adapter_error + parsed_frame)" where
  "mexc_parse_funding E s v original_json received_at_ms =
     (case
        and_then (mexc_payload E v) (\<lambda>(data, symbol).
        and_then (mexc_required_u64 v ''ts'') (\<lambda>observed_at_ms.
        and_then (mexc_rate_field data) (\<lambda>(rate_field, rate).
        and_then (mexc_observation E rate rate_field observed_at_ms original_json) (\<lambda>r.
        and_then (mexc_required_u64 data ''nextSettleTime'') (\<lambda>n.
          Inr (symbol, observed_at_ms,
            (cached_ticker (mx_tickers s) symbol)\<lparr>tk_funding_rate := Some r, tk_next_funding_time_ms := Some n\<rparr>)))))) of
        Inl e \<Rightarrow> (s, Inl e)
      | Inr (symbol, observed_at_ms, t) \<Rightarrow>
          (s\<lparr>mx_tickers := (mx_tickers s)(symbol \<mapsto> t)\<rparr>,
           Inr (Events (if \<not> has_price t then []
             else [mexc_event s symbol (Some observed_at_ms) received_at_ms (TickerPayload t)]))))"

definition mexc_candle ::
  "ext \<Rightarrow> json \<Rightarrow> string \<Rightarrow> u64 \<Rightarrow> u64 \<Rightarrow> adapter_error + candle" where
  "mexc_candle E data original_json start_time_ms end_time_ms =
     (let price = (\<lambda>field. and_then (mexc_required_value data field) (\<lambda>w. mexc_decimal E w field original_json))
      in and_then (price ''o'') (\<lambda>op.
         and_then (price ''h'') (\<lambda>hi.
         and_then (price ''l'') (\<lambda>lo.
         and_then (price ''c'') (\<lambda>cl.
         and_then (mexc_optional_decimal E data ''a'' original_json) (\<lambda>quote.
         and_then (mexc_optional_decimal E data ''q'' original_json) (\<lambda>contract.
           Inr \<lparr>cd_interval = ''1m'', cd_start_time_ms = start_time_ms, cd_end_time_ms = end_time_ms,
                cd_open = op, cd_high = hi, cd_low = lo, cd_close = cl, cd_base_volume = None,
                cd_quote_volume = quote, cd_contract_volume = contract, cd_finality = Unknown,
                cd_data_quality = []\<rparr>)))))))"

definition mexc_parse_candle ::
  "ext \<Rightarrow> mexc_session \<Rightarrow> json \<Rightarrow> string \<Rightarrow> u64 \<Rightarrow> adapter_error + parsed_frame" where
  "mexc_parse_candle E s v original_json received_at_ms =
     and_then (mexc_payload E v) (\<lambda>(data, symbol).
     and_then (mexc_required_string data ''interval'') (\<lambda>interval.
     if interval \<noteq> ''Min1'' then Inl (mexc_invalid ''expected Min1 candle interval'')
     else
       and_then (mexc_required_u64 data ''t'') (\<lambda>start_s.
       and_then (ok_or (mexc_invalid ''candle start time overflow'') (checked_mul start_s 1000)) (\<lambda>start_time_ms.
       and_then (ok_or (mexc_invalid ''candle end time overflow'') (checked_add start_time_ms 60000)) (\<lambda>end_time_ms.
       and_then (mexc_optional_u64 v ''ts'') (\<lambda>exchange_time_ms.
       and_then (mexc_candle E data original_json start_time_ms end_time_ms) (\<lambda>c.
         Inr (Events [mexc_event s symbol exchange_time_ms received_at_ms (CandlePayload c)]))))))))"

section \<open>Frames\<close>

definition mexc_display_value :: "json_lib \<Rightarrow> json \<Rightarrow> string" where
  "mexc_display_value J v = (case js_as_str v of Some s \<Rightarrow> s | None \<Rightarrow> js_to_string J v)"

definition mexc_pop_pending :: "mexc_session \<Rightarrow> mexc_session" where
  "mexc_pop_pending s = s\<lparr>mx_pending_acknowledgements := tl (mx_pending_acknowledgements s)\<rparr>"

definition mexc_parse_acknowledgement ::
  "mexc_session \<Rightarrow> string \<Rightarrow> json \<Rightarrow> mexc_session \<times> (adapter_error + parsed_frame)" where
  "mexc_parse_acknowledgement s ch v =
     (case mexc_required_string v ''data'' of
        Inl e \<Rightarrow> (s, Inl e)
      | Inr result \<Rightarrow>
          if result \<noteq> ''success''
          then (mexc_pop_pending s, Inl (CommandRejected Mexc (ch @ '': '' @ result)))
          else case mx_pending_acknowledgements s of
              [] \<Rightarrow> (s, Inl (mexc_invalid (''unexpected acknowledgement '' @ ch)))
            | pending # _ \<Rightarrow>
                (mexc_pop_pending s,
                 if pa_response_channel pending \<noteq> ch
                 then Inl (mexc_invalid (''expected acknowledgement '' @ pa_response_channel pending @ '', got '' @ ch))
                 else Inr (Acknowledgement (pa_request_id pending))))"

definition mexc_parse ::
  "ext \<Rightarrow> json_lib \<Rightarrow> mexc_session \<Rightarrow> string \<Rightarrow> u64 \<Rightarrow> mexc_session \<times> (adapter_error + parsed_frame)" where
  "mexc_parse E J s frame received_at_ms =
     (case js_from_str J frame of
        Inl e \<Rightarrow> (s, Inl (mexc_invalid (''invalid JSON: '' @ e)))
      | Inr v \<Rightarrow>
          if \<not> is_object v then (s, Inl (mexc_invalid ''message must be a JSON object''))
          else case mexc_required_string v ''channel'' of
              Inl e \<Rightarrow> (s, Inl e)
            | Inr ch \<Rightarrow>
                if ch = ''pong'' then (s, Inr Pong)
                else if ch = ''rs.error''
                then (mexc_pop_pending s, Inl (CommandRejected Mexc
                  (case js_get v ''data'' of None \<Rightarrow> ''unknown command error'' | Some d \<Rightarrow> mexc_display_value J d)))
                else if starts_with ''rs.sub.'' ch then mexc_parse_acknowledgement s ch v
                else if starts_with ''rs.unsub.'' ch then (s, Inr Ignored)
                else if ch = ''push.ticker'' then mexc_parse_ticker E s v frame received_at_ms
                else if ch = ''push.funding.rate'' then mexc_parse_funding E s v frame received_at_ms
                else if ch = ''push.kline'' then (s, mexc_parse_candle E s v frame received_at_ms)
                else (s, Inr Ignored))"

definition mexc_adapter :: "ext \<Rightarrow> json_lib \<Rightarrow> mexc_session adapter" where
  "mexc_adapter E J =
     \<lparr>ad_provider = Mexc, ad_endpoints = [Primary], ad_endpoint_for = (\<lambda>_. Primary),
      ad_max_subscriptions = DEFAULT_MAX_PROVIDER_SUBSCRIPTIONS,
      ad_session = mexc_new, as_subscription_messages = mexc_subscription_messages J,
      as_heartbeat = mexc_heartbeat J, as_parse = mexc_parse E J\<rparr>"

section \<open>The session contract\<close>

abbreviation mexc_render :: "u64 \<Rightarrow> string" where
  "mexc_render n \<equiv> ''mexc-'' @ show_nat (unat n)"

lemma mexc_command_ids:
  "oc_request_id (snd (mexc_command J action s n)) = mexc_render (mx_next_request_id s) \<and>
   mx_next_request_id (fst (mexc_command J action s n)) = succ_id (mx_next_request_id s)"
  by (simp add: mexc_command_def mexc_take_request_id_def Let_def)

lemma mexc_command_epoch: "mx_connection_epoch (fst (mexc_command J action s n)) = mx_connection_epoch s"
  by (simp add: mexc_command_def mexc_take_request_id_def Let_def)

lemma mexc_native_size: "mexc_native k \<noteq> [] \<and> length (mexc_native k) \<le> 2 \<and> distinct (mexc_native k)"
  by (cases "key_channel k") (simp_all add: mexc_native_def)

lemma mexc_collect_natives:
  "mexc_collect action subs seen tickers = (t, Inr natives) \<Longrightarrow>
    natives = first_occurrences seen (concat (map mexc_native subs))"
proof (induction subs arbitrary: seen tickers natives)
  case (Cons k ks)
  then show ?case
    by (auto simp: and_then_Inr first_occurrences_append split: sum.splits prod.splits dest!: Cons.IH)
qed simp

lemma mexc_messages_ok:
  assumes "mexc_subscription_messages J s action subs = (s', Inr cmds)"
  obtains t where "map_state (mexc_command J action) (s\<lparr>mx_tickers := t\<rparr>)
    (first_occurrences {} (concat (map mexc_native subs))) = (s', cmds)"
  using assms that mexc_collect_natives [of action subs "{}" "mx_tickers s"]
  by (auto simp: mexc_subscription_messages_def split: sum.splits prod.splits if_splits)

lemma mexc_issued:
  assumes "mexc_subscription_messages J s action subs = (s', Inr cmds)"
  shows "issued mx_next_request_id mexc_render s s' (map oc_request_id cmds) \<and> length cmds \<le> 3 * length subs \<and>
    (subs \<noteq> [] \<longrightarrow> cmds \<noteq> [])"
proof -
  let ?natives = "first_occurrences {} (concat (map mexc_native subs))"
  obtain t where m: "map_state (mexc_command J action) (s\<lparr>mx_tickers := t\<rparr>) ?natives = (s', cmds)"
    by (rule mexc_messages_ok [OF assms])
  note ids = map_state_issued [OF mexc_command_ids m]
  have "length ?natives \<le> 2 * length subs"
    using length_first_occurrences [of "{}" "concat (map mexc_native subs)"]
      length_concat_le [of subs mexc_native 2] mexc_native_size by (meson le_trans)
  then have "length cmds \<le> 3 * length subs" using ids by linarith
  moreover have "cmds \<noteq> []" if "subs \<noteq> []"
  proof -
    from that have "concat (map mexc_native subs) \<noteq> []" using mexc_native_size by (cases subs) auto
    then have "?natives \<noteq> []" unfolding first_occurrences_Nil_iff .
    then show ?thesis using ids by (metis length_0_conv)
  qed
  ultimately show ?thesis using ids by (simp add: issued_def)
qed

lemma mexc_messages_epoch:
  "mx_connection_epoch (fst (mexc_subscription_messages J s action subs)) = mx_connection_epoch s"
proof -
  have "mx_connection_epoch (fst (map_state (mexc_command J action) s' cs)) = mx_connection_epoch s'" for s' cs
    by (rule map_state_keeps) (rule mexc_command_epoch)
  then show ?thesis by (simp add: mexc_subscription_messages_def case_prod_beta split: sum.split)
qed

lemma mexc_ack_frame:
  "mx_next_request_id (fst (mexc_parse_acknowledgement s ch v)) = mx_next_request_id s \<and>
   mx_connection_epoch (fst (mexc_parse_acknowledgement s ch v)) = mx_connection_epoch s \<and>
   frame_stamped u p now (snd (mexc_parse_acknowledgement s ch v))"
  by (simp add: mexc_parse_acknowledgement_def mexc_pop_pending_def split: sum.split list.split)

lemma mexc_event_stamped: "stamped (mx_connection_epoch s) Mexc now (mexc_event s symbol ts now payload)"
  by (simp add: mexc_event_def stamped_def)

lemma mexc_ticker_frame:
  "mx_next_request_id (fst (mexc_parse_ticker E s v t now)) = mx_next_request_id s \<and>
   mx_connection_epoch (fst (mexc_parse_ticker E s v t now)) = mx_connection_epoch s \<and>
   frame_stamped (mx_connection_epoch s) Mexc now (snd (mexc_parse_ticker E s v t now))"
  by (simp add: mexc_parse_ticker_def mexc_event_stamped case_prod_beta split: sum.split)

lemma mexc_funding_frame:
  "mx_next_request_id (fst (mexc_parse_funding E s v t now)) = mx_next_request_id s \<and>
   mx_connection_epoch (fst (mexc_parse_funding E s v t now)) = mx_connection_epoch s \<and>
   frame_stamped (mx_connection_epoch s) Mexc now (snd (mexc_parse_funding E s v t now))"
  by (simp add: mexc_parse_funding_def mexc_event_stamped case_prod_beta split: sum.split)

lemma mexc_parse_frame:
  "mx_next_request_id (fst (mexc_parse E J s t now)) = mx_next_request_id s \<and>
   mx_connection_epoch (fst (mexc_parse E J s t now)) = mx_connection_epoch s \<and>
   frame_stamped (mx_connection_epoch s) Mexc now (snd (mexc_parse E J s t now))"
proof -
  have candle: "frame_stamped (mx_connection_epoch s) Mexc now (mexc_parse_candle E s v t now)" for v
    unfolding mexc_parse_candle_def by (auto intro!: frame_stamped_and_then simp: mexc_event_stamped)
  show ?thesis
    by (simp add: mexc_parse_def mexc_ack_frame mexc_ticker_frame mexc_funding_frame candle mexc_pop_pending_def split: sum.split)
qed

interpretation mxs: prompt_session "mexc_adapter E J" mx_next_request_id mexc_render mx_connection_epoch for E J
  by unfold_locales
    (auto simp: mexc_adapter_def mexc_new_def mexc_heartbeat_def mexc_messages_epoch mexc_parse_frame
      intro: prefixed_id_inj dest: mexc_issued)

end
