(* ===== verification/Bingx.thy ===== *)
theory Bingx
  imports Contract
begin

text \<open>
  The BingX adapter (\<^verbatim>\<open>src/src/providers/bingx.rs\<close>): one command per topic under the venue's
  ceiling of two hundred topics per connection, application-level pings, and tickers merged from
  three topics.
\<close>

section \<open>Connection\<close>

definition BINGX_COMMAND_INTERVAL :: duration where
  "BINGX_COMMAND_INTERVAL = 100 * 10 ^ 6"

definition BINGX_SUBSCRIPTION_ACK_TIMEOUT :: duration where
  "BINGX_SUBSCRIPTION_ACK_TIMEOUT = 15 * 10 ^ 9"

definition BINGX_HEARTBEAT_INTERVAL :: duration where
  "BINGX_HEARTBEAT_INTERVAL = 4 * 10 ^ 9"

definition BINGX_STALE_AFTER :: duration where
  "BINGX_STALE_AFTER = 20 * 10 ^ 9"

definition BINGX_MAX_MESSAGE_BYTES :: usize where
  "BINGX_MAX_MESSAGE_BYTES = 1024 * 1024"

definition BINGX_MAX_TOPICS_PER_CONNECTION :: usize where
  "BINGX_MAX_TOPICS_PER_CONNECTION = 200"

definition bingx_connection_target :: "string \<Rightarrow> endpoint_kind \<Rightarrow> adapter_error + connection_target" where
  "bingx_connection_target url endpoint =
     (if endpoint \<noteq> Primary then Inl (UnsupportedEndpoint Bingx endpoint)
      else Inr \<lparr>ct_url = url, ct_command_interval = BINGX_COMMAND_INTERVAL,
             ct_subscription_ack_timeout = BINGX_SUBSCRIPTION_ACK_TIMEOUT,
             ct_heartbeat_interval = BINGX_HEARTBEAT_INTERVAL, ct_stale_after = BINGX_STALE_AFTER,
             ct_max_message_bytes = BINGX_MAX_MESSAGE_BYTES, ct_rotate_after = None\<rparr>)"

section \<open>Session\<close>

record bingx_session =
  bx_connection_epoch :: uuid
  bx_next_request_id :: u64
  bx_active_topics :: "string set"
  bx_tickers :: "string \<rightharpoonup> ticker"

definition bingx_new :: "uuid \<Rightarrow> bingx_session" where
  "bingx_new epoch = \<lparr>bx_connection_epoch = epoch, bx_next_request_id = 1, bx_active_topics = {},
     bx_tickers = Map.empty\<rparr>"

definition bingx_invalid :: "string \<Rightarrow> adapter_error" where
  "bingx_invalid message = InvalidPayload Bingx message"

definition bingx_rejected :: "string \<Rightarrow> adapter_error" where
  "bingx_rejected message = CommandRejected Bingx message"

definition bingx_normalized_symbol :: "ext \<Rightarrow> json_lib \<Rightarrow> string \<Rightarrow> adapter_error + string" where
  "bingx_normalized_symbol E J = adapter_symbol E J bingx_invalid"

definition validate_bingx_symbol :: "ext \<Rightarrow> json_lib \<Rightarrow> string \<Rightarrow> adapter_error + unit" where
  "validate_bingx_symbol E J symbol =
     (let bad = (\<lambda>grammar. InvalidSubscription Bingx (''symbol '' @ fmt_debug J symbol @ '' must use '' @ grammar @ '' grammar''))
      in and_then (bingx_normalized_symbol E J symbol) (\<lambda>normalized.
         if normalized \<noteq> symbol \<or> length (filter (\<lambda>c. c = CHR ''-'') normalized) \<noteq> 1
         then Inl (bad ''uppercase BASE-QUOTE'')
         else
           and_then (ok_or (bad ''BASE-QUOTE'') (split_once (CHR ''-'') normalized)) (\<lambda>(base, quote).
           if base = [] \<or> quote = [] \<or>
              \<not> list_all (\<lambda>c. is_ascii_alphanumeric (code_point c)) (chars base) \<or>
              \<not> list_all (\<lambda>c. is_ascii_alphanumeric (code_point c)) (chars quote)
           then Inl (bad ''ASCII BASE-QUOTE'')
           else Inr ())))"

section \<open>Commands\<close>

definition bingx_request_id :: "bingx_session \<Rightarrow> bingx_session \<times> string" where
  "bingx_request_id s =
     (s\<lparr>bx_next_request_id := (case checked_add (bx_next_request_id s) 1 of Some n \<Rightarrow> n | None \<Rightarrow> 1)\<rparr>,
      ''gateway-'' @ show_nat (unat (bx_next_request_id s)))"

fun bingx_request_type :: "subscription_action \<Rightarrow> string" where
  "bingx_request_type Subscribe = ''sub''"
| "bingx_request_type Unsubscribe = ''unsub''"

definition bingx_command ::
  "json_lib \<Rightarrow> subscription_action \<Rightarrow> bingx_session \<Rightarrow> string \<Rightarrow> bingx_session \<times> outbound_command" where
  "bingx_command J action s topic =
     (case bingx_request_id s of (s', request_id) \<Rightarrow>
        (s', \<lparr>oc_request_id = request_id,
              oc_text = js_to_string J (JObject [(''dataType'', JString topic), (''id'', JString request_id),
                (''reqType'', JString (bingx_request_type action))]),
              oc_expected_acknowledgements = 1\<rparr>))"

definition bingx_topics :: "sub_key \<Rightarrow> string list" where
  "bingx_topics k = (case key_channel k of
     Ticker \<Rightarrow> [key_symbol k @ ''@ticker'', key_symbol k @ ''@markPrice'', key_symbol k @ ''@bookTicker'']
   | Candle1m \<Rightarrow> [key_symbol k @ ''@kline_1m''])"

text \<open>As for MEXC, tickers are forgotten up to a symbol that fails.\<close>

fun bingx_collect ::
  "ext \<Rightarrow> json_lib \<Rightarrow> subscription_action \<Rightarrow> sub_key list \<Rightarrow> string set \<Rightarrow> (string \<rightharpoonup> ticker)
     \<Rightarrow> (string \<rightharpoonup> ticker) \<times> (adapter_error + string list)" where
  "bingx_collect E J action [] seen tickers = (tickers, Inr [])"
| "bingx_collect E J action (k # ks) seen tickers =
     (case validate_bingx_symbol E J (key_symbol k) of
        Inl e \<Rightarrow> (tickers, Inl e)
      | Inr _ \<Rightarrow>
          (case bingx_collect E J action ks (seen \<union> set (bingx_topics k)) (forget_tickers action [k] tickers) of
             (tickers', rest) \<Rightarrow>
               (tickers', and_then rest (\<lambda>topics. Inr (first_occurrences seen (bingx_topics k) @ topics)))))"

text \<open>The topics to send for a request, with the active topics they leave.\<close>

definition bingx_activate ::
  "subscription_action \<Rightarrow> string set \<Rightarrow> string list \<Rightarrow> adapter_error + string set \<times> string list" where
  "bingx_activate action active requested =
     (case action of
        Subscribe \<Rightarrow>
          let new_topics = filter (\<lambda>topic. topic \<notin> active) requested
          in if card active + length new_topics > BINGX_MAX_TOPICS_PER_CONNECTION
             then Inl (InvalidSubscription Bingx
               (''subscription would exceed BingX'' @ [CHR 0x27] @ ''s '' @ show_nat BINGX_MAX_TOPICS_PER_CONNECTION @
                ''-topic connection limit''))
             else Inr (active \<union> set new_topics, new_topics)
      | Unsubscribe \<Rightarrow> Inr (active - set requested, filter (\<lambda>topic. topic \<in> active) requested))"

definition bingx_subscription_messages ::
  "ext \<Rightarrow> json_lib \<Rightarrow> bingx_session \<Rightarrow> subscription_action \<Rightarrow> sub_key list
     \<Rightarrow> bingx_session \<times> (adapter_error + outbound_command list)" where
  "bingx_subscription_messages E J s action subs =
     (case validate_subscriptions Bingx subs of
        Inl e \<Rightarrow> (s, Inl e)
      | Inr _ \<Rightarrow>
          (case bingx_collect E J action subs {} (bx_tickers s) of
             (tickers, Inl e) \<Rightarrow> (s\<lparr>bx_tickers := tickers\<rparr>, Inl e)
           | (tickers, Inr requested) \<Rightarrow>
               (case bingx_activate action (bx_active_topics s) requested of
                  Inl e \<Rightarrow> (s\<lparr>bx_tickers := tickers\<rparr>, Inl e)
                | Inr (active, topics) \<Rightarrow>
                    (case map_state (bingx_command J action)
                         (s\<lparr>bx_tickers := tickers, bx_active_topics := active\<rparr>) topics of
                       (s', messages) \<Rightarrow> (s', Inr messages)))))"

definition bingx_heartbeat :: "bingx_session \<Rightarrow> bingx_session \<times> heartbeat" where
  "bingx_heartbeat s = (s, HeartbeatText ''Pong'')"

section \<open>Control frames\<close>

definition bingx_control_error_message :: "json \<Rightarrow> int \<Rightarrow> string" where
  "bingx_control_error_message v code =
     ''code '' @ show_int code @ '': '' @
       (case get_str v ''msg'' of Some m \<Rightarrow> m | None \<Rightarrow> ''unknown command error'')"

definition bingx_parse_control :: "json \<Rightarrow> (adapter_error + parsed_frame) option" where
  "bingx_parse_control v =
     (case Option.bind (js_as_object v) (\<lambda>w. js_get w ''id'') of
        None \<Rightarrow> None
      | Some i \<Rightarrow> Some
          (case i of
             JString request_id \<Rightarrow>
               if request_id = [] \<or> length request_id > 64 then Inl (bingx_invalid ''invalid command response id'')
               else (case js_get v ''code'' of
                   None \<Rightarrow> Inl (bingx_invalid ''command response is missing code'')
                 | Some c \<Rightarrow>
                     (case js_as_i64 c of
                        None \<Rightarrow> Inl (bingx_invalid ''control code must be an integer'')
                      | Some code \<Rightarrow>
                          if code \<noteq> 0 then Inl (bingx_rejected (bingx_control_error_message v code))
                          else Inr (Acknowledgement request_id)))
           | _ \<Rightarrow> Inl (bingx_invalid ''invalid command response id'')))"

section \<open>Messages\<close>

record bingx_ticker_data =
  xtd_event_time :: "u64 option"
  xtd_timestamp :: "u64 option"
  xtd_symbol :: string
  xtd_last :: string

definition decode_bingx_ticker_data :: "json \<Rightarrow> bingx_ticker_data option" where
  "decode_bingx_ticker_data v0 =
     Option.bind (as_struct [''E'', ''T'', ''s'', ''c''] v0) (\<lambda>v.
     Option.bind (field_opt js_as_u64 v ''E'') (\<lambda>event_time.
     Option.bind (field_opt js_as_u64 v ''T'') (\<lambda>ts.
     Option.bind (field_str v ''s'') (\<lambda>symbol.
     Option.bind (field_str v ''c'') (\<lambda>last_price.
       Some \<lparr>xtd_event_time = event_time, xtd_timestamp = ts, xtd_symbol = symbol, xtd_last = last_price\<rparr>)))))"

record bingx_mark_price_data =
  xmd_event_time :: "u64 option"
  xmd_timestamp :: "u64 option"
  xmd_symbol :: string
  xmd_mark_price :: string

definition decode_bingx_mark_price_data :: "json \<Rightarrow> bingx_mark_price_data option" where
  "decode_bingx_mark_price_data v0 =
     Option.bind (as_struct [''E'', ''T'', ''s'', ''p''] v0) (\<lambda>v.
     Option.bind (field_opt js_as_u64 v ''E'') (\<lambda>event_time.
     Option.bind (field_opt js_as_u64 v ''T'') (\<lambda>ts.
     Option.bind (field_str v ''s'') (\<lambda>symbol.
     Option.bind (field_str v ''p'') (\<lambda>mark.
       Some \<lparr>xmd_event_time = event_time, xmd_timestamp = ts, xmd_symbol = symbol, xmd_mark_price = mark\<rparr>)))))"

record bingx_book_ticker_data =
  xbd_update_id :: "u64 option"
  xbd_match_time :: u64
  xbd_symbol :: string
  xbd_bid :: string
  xbd_ask :: string

definition decode_bingx_book_ticker_data :: "json \<Rightarrow> bingx_book_ticker_data option" where
  "decode_bingx_book_ticker_data v0 =
     Option.bind (as_struct [''u'', ''T'', ''s'', ''b'', ''a''] v0) (\<lambda>v.
     Option.bind (field_opt js_as_u64 v ''u'') (\<lambda>update_id.
     Option.bind (field_u64 v ''T'') (\<lambda>match_time.
     Option.bind (field_str v ''s'') (\<lambda>symbol.
     Option.bind (field_str v ''b'') (\<lambda>bid.
     Option.bind (field_str v ''a'') (\<lambda>ask.
       Some \<lparr>xbd_update_id = update_id, xbd_match_time = match_time, xbd_symbol = symbol, xbd_bid = bid,
             xbd_ask = ask\<rparr>))))))"

text \<open>The envelopes of the three ticker messages differ in the type of their data.\<close>

record 'd bingx_envelope =
  xe_code :: int
  xe_message :: "string option"
  xe_data :: 'd

definition decode_bingx_envelope :: "(json \<Rightarrow> 'd option) \<Rightarrow> json \<Rightarrow> 'd bingx_envelope option" where
  "decode_bingx_envelope decode v0 =
     Option.bind (as_struct [''code'', ''msg'', ''data''] v0) (\<lambda>v.
     Option.bind (field_i64 v ''code'') (\<lambda>code.
     Option.bind (field_opt_str v ''msg'') (\<lambda>message.
     Option.bind (Option.bind (js_get v ''data'') decode) (\<lambda>data.
       Some \<lparr>xe_code = code, xe_message = message, xe_data = data\<rparr>))))"

record bingx_kline =
  xk_start_time :: u64
  xk_close_time :: "u64 option"
  xk_open :: string
  xk_high :: string
  xk_low :: string
  xk_close :: string
  xk_volume :: string

text \<open>\<open>BingxLegacyKline\<close> and \<open>BingxDocumentedKline\<close>, converted to \<open>BingxKline\<close>.\<close>

definition decode_bingx_prices ::
  "json \<Rightarrow> u64 \<Rightarrow> u64 option \<Rightarrow> bingx_kline option" where
  "decode_bingx_prices v start_time close_time =
     Option.bind (field_str v ''o'') (\<lambda>op.
     Option.bind (field_str v ''h'') (\<lambda>hi.
     Option.bind (field_str v ''l'') (\<lambda>lo.
     Option.bind (field_str v ''c'') (\<lambda>cl.
     Option.bind (field_str v ''v'') (\<lambda>volume.
       Some \<lparr>xk_start_time = start_time, xk_close_time = close_time, xk_open = op, xk_high = hi, xk_low = lo,
             xk_close = cl, xk_volume = volume\<rparr>)))))"

definition decode_bingx_legacy_kline :: "json \<Rightarrow> bingx_kline option" where
  "decode_bingx_legacy_kline v0 =
     Option.bind (as_struct [''T'', ''o'', ''h'', ''l'', ''c'', ''v''] v0) (\<lambda>v.
     Option.bind (field_u64 v ''T'') (\<lambda>start_time. decode_bingx_prices v start_time None))"

definition decode_bingx_documented_kline :: "json \<Rightarrow> bingx_kline option" where
  "decode_bingx_documented_kline v0 =
     Option.bind (as_struct [''t'', ''T'', ''o'', ''h'', ''l'', ''c'', ''v''] v0) (\<lambda>v.
     Option.bind (field_u64 v ''t'') (\<lambda>start_time.
     Option.bind (field_u64 v ''T'') (\<lambda>close_time. decode_bingx_prices v start_time (Some close_time))))"

datatype bingx_kline_data =
    Legacy "bingx_kline list"
  | Documented string bingx_kline

text \<open>An untagged enumeration takes the first variant that decodes.\<close>

definition decode_bingx_kline_data :: "json \<Rightarrow> bingx_kline_data option" where
  "decode_bingx_kline_data v =
     or_else
       (map_option Legacy (Option.bind (js_as_array v) (decode_all decode_bingx_legacy_kline)))
       (Option.bind (as_struct [''s'', ''K''] v) (\<lambda>w.
        Option.bind (field_str w ''s'') (\<lambda>symbol.
        Option.bind (Option.bind (js_get w ''K'') decode_bingx_documented_kline) (\<lambda>k.
          Some (Documented symbol k)))))"

fun bingx_into_items :: "bingx_kline_data \<Rightarrow> string option \<Rightarrow> adapter_error + string \<times> bingx_kline list" where
  "bingx_into_items (Legacy items) legacy_symbol =
     and_then (ok_or (bingx_invalid ''legacy kline message is missing symbol'') legacy_symbol) (\<lambda>symbol.
       Inr (symbol, items))"
| "bingx_into_items (Documented symbol kline) legacy_symbol = Inr (symbol, [kline])"

record bingx_kline_envelope =
  xke_code :: int
  xke_message :: "string option"
  xke_symbol :: "string option"
  xke_data :: bingx_kline_data

definition decode_bingx_kline_envelope :: "json \<Rightarrow> bingx_kline_envelope option" where
  "decode_bingx_kline_envelope v0 =
     Option.bind (as_struct [''code'', ''msg'', ''s'', ''data''] v0) (\<lambda>v.
     Option.bind (field_i64 v ''code'') (\<lambda>code.
     Option.bind (field_opt_str v ''msg'') (\<lambda>message.
     Option.bind (field_opt_str v ''s'') (\<lambda>symbol.
     Option.bind (Option.bind (js_get v ''data'') decode_bingx_kline_data) (\<lambda>data.
       Some \<lparr>xke_code = code, xke_message = message, xke_symbol = symbol, xke_data = data\<rparr>)))))"

section \<open>Normalization\<close>

definition bingx_observation :: "ext \<Rightarrow> json_lib \<Rightarrow> string \<Rightarrow> u64 \<Rightarrow> string \<Rightarrow> adapter_error + observed_decimal" where
  "bingx_observation E J = adapter_observation E J bingx_invalid"

definition bingx_decimal :: "ext \<Rightarrow> json_lib \<Rightarrow> string \<Rightarrow> string \<Rightarrow> adapter_error + decimal_value" where
  "bingx_decimal E J = adapter_decimal E J bingx_invalid"

definition bingx_topic_symbol :: "ext \<Rightarrow> json_lib \<Rightarrow> string \<Rightarrow> string \<Rightarrow> adapter_error + string" where
  "bingx_topic_symbol E J topic topic_suffix =
     and_then (ok_or (bingx_invalid (''invalid BingX topic '' @ fmt_debug J topic)) (strip_suffix topic_suffix topic))
       (bingx_normalized_symbol E J)"

definition bingx_ensure_topic_symbol :: "string \<Rightarrow> string \<Rightarrow> adapter_error + unit" where
  "bingx_ensure_topic_symbol topic_symbol payload_symbol =
     (if topic_symbol = payload_symbol then Inr ()
      else Inl (bingx_invalid (''topic symbol '' @ topic_symbol @ '' does not match payload symbol '' @ payload_symbol)))"

definition bingx_ensure_success :: "int \<Rightarrow> string option \<Rightarrow> adapter_error + unit" where
  "bingx_ensure_success code message =
     (if code = 0 then Inr ()
      else Inl (bingx_rejected (''code '' @ show_int code @ '': '' @
        (case message of Some m \<Rightarrow> m | None \<Rightarrow> ''unknown provider error''))))"

definition bingx_event ::
  "bingx_session \<Rightarrow> string \<Rightarrow> u64 option \<Rightarrow> u64 \<Rightarrow> source_sequence option \<Rightarrow> market_payload \<Rightarrow> provider_event" where
  "bingx_event s symbol exchange_time_ms received_at_ms sq payload =
     \<lparr>pe_connection_epoch = bx_connection_epoch s, pe_provider = Bingx, pe_market = LinearPerpetual,
      pe_symbol = symbol, pe_exchange_time_ms = exchange_time_ms,
      pe_gateway_received_time_ms = received_at_ms, pe_source_sequence = sq, pe_payload = payload\<rparr>"

text \<open>The checks every message starts with: its code, and that topic and payload agree on the symbol.\<close>

definition bingx_checked_symbol ::
  "ext \<Rightarrow> json_lib \<Rightarrow> int \<Rightarrow> string option \<Rightarrow> string \<Rightarrow> string \<Rightarrow> string \<Rightarrow> adapter_error + string" where
  "bingx_checked_symbol E J code message topic topic_suffix payload_symbol =
     and_then (bingx_ensure_success code message) (\<lambda>_.
     and_then (bingx_topic_symbol E J topic topic_suffix) (\<lambda>topic_symbol.
     and_then (bingx_normalized_symbol E J payload_symbol) (\<lambda>symbol.
     and_then (bingx_ensure_topic_symbol topic_symbol symbol) (\<lambda>_. Inr symbol))))"

definition bingx_store ::
  "bingx_session \<Rightarrow> adapter_error + string \<times> ticker \<times> provider_event \<Rightarrow>
     bingx_session \<times> (adapter_error + parsed_frame)" where
  "bingx_store s r =
     (case r of
        Inl e \<Rightarrow> (s, Inl e)
      | Inr (symbol, t, event) \<Rightarrow> (s\<lparr>bx_tickers := (bx_tickers s)(symbol \<mapsto> t)\<rparr>, Inr (Events [event])))"

definition bingx_parse_ticker ::
  "ext \<Rightarrow> json_lib \<Rightarrow> bingx_session \<Rightarrow> json \<Rightarrow> u64 \<Rightarrow> string \<Rightarrow> bingx_session \<times> (adapter_error + parsed_frame)" where
  "bingx_parse_ticker E J s v received_at_ms topic = bingx_store s
     (and_then (ok_or (bingx_invalid (''invalid ticker message: '' @ js_error J v))
        (decode_bingx_envelope decode_bingx_ticker_data v)) (\<lambda>env.
      let data = xe_data env in
      and_then (bingx_checked_symbol E J (xe_code env) (xe_message env) topic ''@ticker'' (xtd_symbol data)) (\<lambda>symbol.
      let observed_at_ms = (case or_else (xtd_event_time data) (xtd_timestamp data) of
            Some n \<Rightarrow> n | None \<Rightarrow> received_at_ms) in
      and_then (bingx_observation E J (xtd_last data) observed_at_ms ''last price'') (\<lambda>l.
        let t = (cached_ticker (bx_tickers s) symbol)\<lparr>tk_last := Some l\<rparr>
        in Inr (symbol, t, bingx_event s symbol (Some observed_at_ms) received_at_ms None (TickerPayload t))))))"

definition bingx_parse_book_ticker ::
  "ext \<Rightarrow> json_lib \<Rightarrow> bingx_session \<Rightarrow> json \<Rightarrow> u64 \<Rightarrow> string \<Rightarrow> bingx_session \<times> (adapter_error + parsed_frame)" where
  "bingx_parse_book_ticker E J s v received_at_ms topic = bingx_store s
     (and_then (ok_or (bingx_invalid (''invalid book-ticker message: '' @ js_error J v))
        (decode_bingx_envelope decode_bingx_book_ticker_data v)) (\<lambda>env.
      let data = xe_data env; observed_at_ms = xbd_match_time data in
      and_then (bingx_checked_symbol E J (xe_code env) (xe_message env) topic ''@bookTicker'' (xbd_symbol data)) (\<lambda>symbol.
      and_then (bingx_observation E J (xbd_bid data) observed_at_ms ''best bid'') (\<lambda>b.
      and_then (bingx_observation E J (xbd_ask data) observed_at_ms ''best ask'') (\<lambda>a.
        let t = (cached_ticker (bx_tickers s) symbol)\<lparr>tk_bid := Some b, tk_ask := Some a\<rparr>
        in Inr (symbol, t, bingx_event s symbol (Some observed_at_ms) received_at_ms
             (map_option (\<lambda>u. \<lparr>sq_first = None, sq_last = Some (show_nat (unat u)), sq_previous = None\<rparr>)
               (xbd_update_id data)) (TickerPayload t)))))))"

definition bingx_parse_mark_price ::
  "ext \<Rightarrow> json_lib \<Rightarrow> bingx_session \<Rightarrow> json \<Rightarrow> u64 \<Rightarrow> string \<Rightarrow> bingx_session \<times> (adapter_error + parsed_frame)" where
  "bingx_parse_mark_price E J s v received_at_ms topic = bingx_store s
     (and_then (ok_or (bingx_invalid (''invalid mark-price message: '' @ js_error J v))
        (decode_bingx_envelope decode_bingx_mark_price_data v)) (\<lambda>env.
      let data = xe_data env in
      and_then (bingx_checked_symbol E J (xe_code env) (xe_message env) topic ''@markPrice'' (xmd_symbol data)) (\<lambda>symbol.
      and_then (ok_or (bingx_invalid ''mark-price message is missing event time'')
        (or_else (xmd_event_time data) (xmd_timestamp data))) (\<lambda>observed_at_ms.
      and_then (bingx_observation E J (xmd_mark_price data) observed_at_ms ''mark price'') (\<lambda>m.
        let t = (cached_ticker (bx_tickers s) symbol)\<lparr>tk_mark := Some m\<rparr>
        in Inr (symbol, t, bingx_event s symbol (Some observed_at_ms) received_at_ms None (TickerPayload t)))))))"

definition bingx_kline_event ::
  "ext \<Rightarrow> json_lib \<Rightarrow> bingx_session \<Rightarrow> string \<Rightarrow> u64 \<Rightarrow> bingx_kline \<Rightarrow> adapter_error + provider_event" where
  "bingx_kline_event E J s symbol received_at_ms item =
     (if xk_start_time item mod 60000 \<noteq> 0
      then Inl (bingx_invalid (''1m kline start time '' @ show_nat (unat (xk_start_time item)) @ '' is not minute aligned''))
      else
        and_then (ok_or (bingx_invalid ''kline end time overflow'') (checked_add (xk_start_time item) 60000)) (\<lambda>end_time_ms.
        and_then
          (case xk_close_time item of
             Some close_time \<Rightarrow>
               if close_time \<noteq> end_time_ms \<and> close_time \<noteq> end_time_ms - 1
               then Inl (bingx_invalid (''1m kline close time '' @ show_nat (unat close_time) @
                      '' does not match start time '' @ show_nat (unat (xk_start_time item))))
               else Inr ()
           | None \<Rightarrow> Inr ()) (\<lambda>_.
        and_then (bingx_decimal E J (xk_open item) ''open'') (\<lambda>op.
        and_then (bingx_decimal E J (xk_high item) ''high'') (\<lambda>hi.
        and_then (bingx_decimal E J (xk_low item) ''low'') (\<lambda>lo.
        and_then (bingx_decimal E J (xk_close item) ''close'') (\<lambda>cl.
        and_then (bingx_decimal E J (xk_volume item) ''base volume'') (\<lambda>base.
          Inr (bingx_event s symbol None received_at_ms None (CandlePayload
            \<lparr>cd_interval = ''1m'', cd_start_time_ms = xk_start_time item, cd_end_time_ms = end_time_ms,
             cd_open = op, cd_high = hi, cd_low = lo, cd_close = cl, cd_base_volume = Some base,
             cd_quote_volume = None, cd_contract_volume = None, cd_finality = Unknown,
             cd_data_quality = []\<rparr>))))))))))"

definition bingx_parse_kline ::
  "ext \<Rightarrow> json_lib \<Rightarrow> bingx_session \<Rightarrow> json \<Rightarrow> u64 \<Rightarrow> string \<Rightarrow> adapter_error + parsed_frame" where
  "bingx_parse_kline E J s v received_at_ms topic =
     and_then (ok_or (bingx_invalid (''invalid kline message: '' @ js_error J v)) (decode_bingx_kline_envelope v)) (\<lambda>env.
     and_then (bingx_ensure_success (xke_code env) (xke_message env)) (\<lambda>_.
     and_then (bingx_topic_symbol E J topic ''@kline_1m'') (\<lambda>topic_symbol.
     and_then (bingx_into_items (xke_data env) (xke_symbol env)) (\<lambda>(payload_symbol, items).
     and_then (bingx_normalized_symbol E J payload_symbol) (\<lambda>symbol.
     and_then (bingx_ensure_topic_symbol topic_symbol symbol) (\<lambda>_.
       if items = [] then Inl (bingx_invalid ''kline data must not be empty'')
       else and_then (collect_results (bingx_kline_event E J s symbol received_at_ms) items) (\<lambda>events.
         Inr (Events events))))))))"

section \<open>Frames\<close>

definition bingx_parse ::
  "ext \<Rightarrow> json_lib \<Rightarrow> bingx_session \<Rightarrow> string \<Rightarrow> u64 \<Rightarrow> bingx_session \<times> (adapter_error + parsed_frame)" where
  "bingx_parse E J s frame received_at_ms =
     (if frame = ''Ping'' then (s, Inr (Reply (HeartbeatText ''Pong'')))
      else if frame = ''Pong'' then (s, Inr Pong)
      else case js_from_str J frame of
          Inl e \<Rightarrow> (s, Inl (bingx_invalid (''invalid JSON: '' @ e)))
        | Inr v \<Rightarrow>
            if \<not> is_object v then (s, Inl (bingx_invalid ''top-level payload must be an object''))
            else case bingx_parse_control v of
                Some result \<Rightarrow> (s, result)
              | None \<Rightarrow>
                  (case js_get v ''dataType'' of
                     Some (JString topic) \<Rightarrow>
                       if topic = [] then (s, Inr Ignored)
                       else if ends_with ''@ticker'' topic then bingx_parse_ticker E J s v received_at_ms topic
                       else if ends_with ''@markPrice'' topic then bingx_parse_mark_price E J s v received_at_ms topic
                       else if ends_with ''@bookTicker'' topic then bingx_parse_book_ticker E J s v received_at_ms topic
                       else if ends_with ''@kline_1m'' topic then (s, bingx_parse_kline E J s v received_at_ms topic)
                       else (s, Inr Ignored)
                   | None \<Rightarrow> (s, Inr Ignored)
                   | Some _ \<Rightarrow> (s, Inl (bingx_invalid ''event field dataType must be a string''))))"

definition bingx_adapter :: "ext \<Rightarrow> json_lib \<Rightarrow> bingx_session adapter" where
  "bingx_adapter E J =
     \<lparr>ad_provider = Bingx, ad_endpoints = [Primary], ad_endpoint_for = (\<lambda>_. Primary),
      ad_max_subscriptions = BINGX_MAX_TOPICS_PER_CONNECTION,
      ad_session = (\<lambda>_ epoch. bingx_new epoch),
      as_subscription_messages = bingx_subscription_messages E J,
      as_heartbeat = bingx_heartbeat, as_parse = bingx_parse E J\<rparr>"

section \<open>The session contract\<close>

abbreviation bingx_render :: "u64 \<Rightarrow> string" where
  "bingx_render n \<equiv> ''gateway-'' @ show_nat (unat n)"

lemma bingx_command_ids:
  "oc_request_id (snd (bingx_command J action s topic)) = bingx_render (bx_next_request_id s) \<and>
   bx_next_request_id (fst (bingx_command J action s topic)) = succ_id (bx_next_request_id s)"
  by (simp add: bingx_command_def bingx_request_id_def)

lemma bingx_command_frame:
  "bx_connection_epoch (fst (bingx_command J action s topic)) = bx_connection_epoch s"
  "bx_active_topics (fst (bingx_command J action s topic)) = bx_active_topics s"
  by (simp_all add: bingx_command_def bingx_request_id_def)

lemma bingx_topics_size: "bingx_topics k \<noteq> [] \<and> length (bingx_topics k) \<le> 3 \<and> distinct (bingx_topics k)"
  by (simp add: bingx_topics_def split: channel.split)

lemma bingx_collect_topics:
  "bingx_collect E J action subs seen tickers = (t, Inr topics) \<Longrightarrow>
    topics = first_occurrences seen (concat (map bingx_topics subs))"
proof (induction subs arbitrary: seen tickers topics)
  case (Cons k ks)
  then show ?case
    by (auto simp: and_then_Inr first_occurrences_append split: sum.splits prod.splits dest!: Cons.IH)
qed simp

definition bingx_requested :: "sub_key list \<Rightarrow> string list" where
  "bingx_requested subs = first_occurrences {} (concat (map bingx_topics subs))"

lemma bingx_messages_ok:
  assumes "bingx_subscription_messages E J s action subs = (s', Inr cmds)"
  obtains t active topics where "bingx_activate action (bx_active_topics s) (bingx_requested subs) = Inr (active, topics)"
    "map_state (bingx_command J action) (s\<lparr>bx_tickers := t, bx_active_topics := active\<rparr>) topics = (s', cmds)"
  using assms that bingx_collect_topics [of E J action subs "{}" "bx_tickers s"]
  unfolding bingx_requested_def
  by (auto simp: bingx_subscription_messages_def split: sum.splits prod.splits)

lemma bingx_activate_topics:
  "bingx_activate action active requested = Inr (active', topics) \<Longrightarrow>
    topics = filter (\<lambda>t. (t \<in> active) = (action = Unsubscribe)) requested \<and>
    active' = (if action = Subscribe then active \<union> set requested else active - set requested)"
  by (cases action) (auto simp: bingx_activate_def Let_def split: if_splits)

lemma length_bingx_requested: "length (bingx_requested subs) \<le> 3 * length subs"
  unfolding bingx_requested_def
  using length_first_occurrences [of "{}" "concat (map bingx_topics subs)"]
    length_concat_le [of subs bingx_topics 3] bingx_topics_size by (meson le_trans)

lemma bingx_issued:
  assumes "bingx_subscription_messages E J s action subs = (s', Inr cmds)"
  shows "issued bx_next_request_id bingx_render s s' (map oc_request_id cmds) \<and> length cmds \<le> 3 * length subs"
proof -
  obtain t active topics where a: "bingx_activate action (bx_active_topics s) (bingx_requested subs) = Inr (active, topics)"
    and m: "map_state (bingx_command J action) (s\<lparr>bx_tickers := t, bx_active_topics := active\<rparr>) topics = (s', cmds)"
    by (rule bingx_messages_ok [OF assms])
  note ids = map_state_issued [OF bingx_command_ids m]
  have "length topics \<le> length (bingx_requested subs)"
    using bingx_activate_topics [OF a] by (metis length_filter_le)
  then show ?thesis using ids length_bingx_requested [of subs] by (simp add: issued_def)
qed

lemma bingx_messages_epoch:
  "bx_connection_epoch (fst (bingx_subscription_messages E J s action subs)) = bx_connection_epoch s"
proof -
  have "bx_connection_epoch (fst (map_state (bingx_command J action) s' cs)) = bx_connection_epoch s'" for s' cs
    by (rule map_state_keeps) (rule bingx_command_frame)
  then show ?thesis by (simp add: bingx_subscription_messages_def case_prod_beta split: sum.split)
qed

lemma bingx_store_frame:
  "bx_next_request_id (fst (bingx_store s r)) = bx_next_request_id s \<and>
   bx_connection_epoch (fst (bingx_store s r)) = bx_connection_epoch s"
  by (simp add: bingx_store_def case_prod_beta split: sum.split)

lemma bingx_event_stamped: "stamped (bx_connection_epoch s) Bingx now (bingx_event s symbol ts now sq payload)"
  by (simp add: bingx_event_def stamped_def)

lemma bingx_store_stamped:
  "(\<And>symbol t e. r = Inr (symbol, t, e) \<Longrightarrow> stamped u Bingx now e) \<Longrightarrow> frame_stamped u Bingx now (snd (bingx_store s r))"
  by (auto simp: bingx_store_def split: sum.split)

lemma bingx_ticker_frame:
  "bx_next_request_id (fst (bingx_parse_ticker E J s v now topic)) = bx_next_request_id s \<and>
   bx_connection_epoch (fst (bingx_parse_ticker E J s v now topic)) = bx_connection_epoch s \<and>
   frame_stamped (bx_connection_epoch s) Bingx now (snd (bingx_parse_ticker E J s v now topic))"
  unfolding bingx_parse_ticker_def
  by (intro conjI bingx_store_stamped) (auto simp: bingx_store_frame and_then_Inr Let_def bingx_event_stamped)

lemma bingx_book_frame:
  "bx_next_request_id (fst (bingx_parse_book_ticker E J s v now topic)) = bx_next_request_id s \<and>
   bx_connection_epoch (fst (bingx_parse_book_ticker E J s v now topic)) = bx_connection_epoch s \<and>
   frame_stamped (bx_connection_epoch s) Bingx now (snd (bingx_parse_book_ticker E J s v now topic))"
  unfolding bingx_parse_book_ticker_def
  by (intro conjI bingx_store_stamped) (auto simp: bingx_store_frame and_then_Inr Let_def bingx_event_stamped)

lemma bingx_mark_frame:
  "bx_next_request_id (fst (bingx_parse_mark_price E J s v now topic)) = bx_next_request_id s \<and>
   bx_connection_epoch (fst (bingx_parse_mark_price E J s v now topic)) = bx_connection_epoch s \<and>
   frame_stamped (bx_connection_epoch s) Bingx now (snd (bingx_parse_mark_price E J s v now topic))"
  unfolding bingx_parse_mark_price_def
  by (intro conjI bingx_store_stamped) (auto simp: bingx_store_frame and_then_Inr Let_def bingx_event_stamped)

lemma bingx_kline_event_stamped:
  "bingx_kline_event E J s symbol now item = Inr e \<Longrightarrow> stamped (bx_connection_epoch s) Bingx now e"
  by (auto simp: bingx_kline_event_def and_then_Inr bingx_event_stamped split: if_splits)

lemma bingx_control_stamped: "bingx_parse_control v = Some r \<Longrightarrow> frame_stamped u p now r"
  by (auto simp: bingx_parse_control_def split: option.splits json.splits)

lemma bingx_parse_frame:
  "bx_next_request_id (fst (bingx_parse E J s t now)) = bx_next_request_id s \<and>
   bx_connection_epoch (fst (bingx_parse E J s t now)) = bx_connection_epoch s \<and>
   frame_stamped (bx_connection_epoch s) Bingx now (snd (bingx_parse E J s t now))"
proof -
  have kline: "frame_stamped (bx_connection_epoch s) Bingx now (bingx_parse_kline E J s v now topic)" for v topic
    unfolding bingx_parse_kline_def
    by (auto intro!: frame_stamped_and_then elim!: collect_results_all bingx_kline_event_stamped)
  show ?thesis
    using bingx_control_stamped
    by (simp add: bingx_parse_def bingx_ticker_frame bingx_book_frame bingx_mark_frame kline
        split: sum.split option.split json.split)
qed

interpretation bxs: adapter_session "bingx_adapter E J" bx_next_request_id bingx_render bx_connection_epoch for E J
  by unfold_locales
    (auto simp: bingx_adapter_def bingx_new_def bingx_heartbeat_def bingx_messages_epoch bingx_parse_frame
      intro: prefixed_id_inj dest: bingx_issued)

section \<open>The topic ceiling\<close>

text \<open>A ticker key takes three topics, and keys of different symbols share none.\<close>

abbreviation bingx_ticker_key :: "string \<Rightarrow> sub_key" where
  "bingx_ticker_key symbol \<equiv> SubscriptionKey Bingx LinearPerpetual symbol Ticker"

lemma bingx_ticker_topics_apart:
  "t \<in> set (bingx_topics (bingx_ticker_key a)) \<Longrightarrow> t \<in> set (bingx_topics (bingx_ticker_key b)) \<Longrightarrow> a = b"
  by (auto simp: bingx_topics_def dest: arg_cong [where f = rev])

lemma bingx_ticker_topics:
  assumes "distinct symbols"
  shows "distinct (concat (map bingx_topics (map bingx_ticker_key symbols))) \<and>
    length (concat (map bingx_topics (map bingx_ticker_key symbols))) = 3 * length symbols"
  using assms
proof (induction symbols)
  case (Cons a symbols)
  have "set (bingx_topics (bingx_ticker_key a)) \<inter> set (concat (map bingx_topics (map bingx_ticker_key symbols))) = {}"
    using Cons.prems bingx_ticker_topics_apart by fastforce
  with Cons bingx_topics_size [of "bingx_ticker_key a"] show ?case by (auto simp: bingx_topics_def)
qed simp

lemma bingx_within_ceiling:
  assumes "bingx_subscription_messages E J s Subscribe subs = (s', Inr cmds)"
  shows "card (bx_active_topics s) + length (filter (\<lambda>t. t \<notin> bx_active_topics s) (bingx_requested subs)) \<le> BINGX_MAX_TOPICS_PER_CONNECTION"
  using bingx_messages_ok [OF assms] by (force simp: bingx_activate_def Let_def split: if_splits)

section \<open>Properties\<close>

text \<open>
  (C19) The subscription capacity the BingX adapter declares is not the one its sessions have. A
  demand of 67 to 200 tickers is within the declared capacity, so the registry accepts it, but each
  ticker takes three topics and the session refuses a command set beyond 200 topics: the connection
  that should carry the demand fails before it subscribes to anything.
\<close>

theorem bingx_declared_capacity_fails:
  assumes "distinct symbols" and "66 < length symbols" and "length symbols \<le> 200"
  shows "card (set (map bingx_ticker_key symbols)) \<le> ad_max_subscriptions (bingx_adapter E J) \<and>
    (\<exists>e. snd (as_subscription_messages (bingx_adapter E J) (ad_session (bingx_adapter E J) Primary epoch) Subscribe
       (map bingx_ticker_key symbols)) = Inl e)"
proof -
  let ?subs = "map bingx_ticker_key symbols"
  have len: "length (bingx_requested ?subs) = 3 * length symbols"
    using bingx_ticker_topics [OF assms(1)] by (simp add: bingx_requested_def first_occurrences_distinct)
  have "snd (bingx_subscription_messages E J (bingx_new epoch) Subscribe ?subs) \<noteq> Inr cmds" for cmds
    using bingx_within_ceiling [of E J "bingx_new epoch" ?subs] len assms(2)
    by (cases "bingx_subscription_messages E J (bingx_new epoch) Subscribe ?subs")
      (auto simp: bingx_new_def BINGX_MAX_TOPICS_PER_CONNECTION_def)
  then obtain e where "snd (bingx_subscription_messages E J (bingx_new epoch) Subscribe ?subs) = Inl e"
    by (metis sumE)
  moreover have "card (set ?subs) \<le> 200" using card_length [of ?subs] assms(3) by simp
  ultimately show ?thesis by (simp add: bingx_adapter_def BINGX_MAX_TOPICS_PER_CONNECTION_def)
qed

definition sample_json :: json_lib where
  "sample_json = \<lparr>js_from_str = (\<lambda>_. Inl []), js_to_string = (\<lambda>_. []), js_error = (\<lambda>_. []), fmt_debug = (\<lambda>t. t)\<rparr>"

theorem bingx_declared_capacity_fails_witness:
  "\<exists>e. snd (as_subscription_messages (bingx_adapter sample_lib sample_json) (ad_session (bingx_adapter sample_lib sample_json) Primary 5) Subscribe
     (map (\<lambda>n. bingx_ticker_key (show_nat n @ ''-USDT'')) [0..<67])) = Inl e"
proof -
  have "distinct (map (\<lambda>n. show_nat n @ ''-USDT'') [0..<67])"
    by (auto simp: distinct_map intro!: inj_onI dest: show_nat_inj)
  from bingx_declared_capacity_fails [OF this, of sample_lib sample_json 5] show ?thesis by (simp add: comp_def del: upt_rec_numeral)
qed

end
