(* ===== verification/Rest.thy ===== *)
theory Rest
  imports Json
begin

text \<open>
  What the REST clients (\<^verbatim>\<open>src/src/history.rs\<close>, \<^verbatim>\<open>src/src/catalog.rs\<close>) use of the HTTP and
  JSON libraries. A request is a URL with its query pairs; the HTTP client is a function from the
  state of the outside world and a request to the next state and the outcome (a transport
  failure, or a status with the body bytes or a failure while reading them). \<open>raw_lib\<close> adds to
  the JSON library the two readers behind \<open>RawValue\<close>: the texts of the elements of an array and
  of the fields of an object. Typed structures are read from the text of an object, or from an
  array that lists their fields in order; a repeated field is an error.
\<close>

section \<open>Requests\<close>

type_synonym rest_url = "string \<times> (string \<times> string) list"

type_synonym 'h http_send = "'h \<Rightarrow> rest_url \<Rightarrow> 'h \<times> (string + nat \<times> (string + string))"

definition is_success :: "nat \<Rightarrow> bool" where
  "is_success status \<longleftrightarrow> 200 \<le> status \<and> status < 300"

text \<open>Computations that use the HTTP client: they thread its state and may fail.\<close>

type_synonym ('h, 'e, 'a) query = "'h \<Rightarrow> 'h \<times> ('e + 'a)"

definition query_bind :: "('h, 'e, 'a) query \<Rightarrow> ('a \<Rightarrow> ('h, 'e, 'b) query) \<Rightarrow> ('h, 'e, 'b) query" where
  "query_bind m f h = (case m h of (h', Inl e) \<Rightarrow> (h', Inl e) | (h', Inr x) \<Rightarrow> f x h')"

definition query_lift :: "'e + 'a \<Rightarrow> ('h, 'e, 'a) query" where
  "query_lift r h = (h, r)"

text \<open>\<open>str::from_utf8\<close>: the well-formed byte sequences of the Unicode standard.\<close>

definition cont_between :: "nat \<Rightarrow> nat \<Rightarrow> char \<Rightarrow> bool" where
  "cont_between lo hi c \<longleftrightarrow> lo \<le> (of_char c :: nat) \<and> (of_char c :: nat) \<le> hi"

fun utf8_char :: "string \<Rightarrow> bool" where
  "utf8_char [a] \<longleftrightarrow> (of_char a :: nat) < 128"
| "utf8_char [a, b] \<longleftrightarrow> cont_between 194 223 a \<and> is_cont b"
| "utf8_char [a, b, c] \<longleftrightarrow> is_cont c \<and>
     (let n = (of_char a :: nat) in
      (n = 224 \<and> cont_between 160 191 b) \<or> (n = 237 \<and> cont_between 128 159 b) \<or>
      (225 \<le> n \<and> n \<le> 239 \<and> n \<noteq> 237 \<and> is_cont b))"
| "utf8_char [a, b, c, d] \<longleftrightarrow> is_cont c \<and> is_cont d \<and>
     (let n = (of_char a :: nat) in
      (n = 240 \<and> cont_between 144 191 b) \<or> (n = 244 \<and> cont_between 128 143 b) \<or>
      (241 \<le> n \<and> n \<le> 243 \<and> is_cont b))"
| "utf8_char _ \<longleftrightarrow> False"

definition from_utf8 :: "string \<Rightarrow> string option" where
  "from_utf8 bytes = (if list_all utf8_char (chars bytes) then Some bytes else None)"

section \<open>Raw JSON\<close>

record raw_lib = json_lib +
  raw_elements :: "string \<Rightarrow> string list option"
  raw_fields :: "string \<Rightarrow> (string \<times> string) list option"
  raw_error :: "string \<Rightarrow> string"

type_synonym raw_struct = "(string \<times> string) list"

text \<open>
  A structure with the given field names of which the first \<open>least\<close> are needed when it is
  written as an array (a field with a default may be missing at the end).
\<close>

definition raw_struct :: "raw_lib \<Rightarrow> string list \<Rightarrow> nat \<Rightarrow> string \<Rightarrow> raw_struct option" where
  "raw_struct J names least t = (case raw_fields J t of
     Some fs \<Rightarrow> if distinct (filter (\<lambda>k. k \<in> set names) (map fst fs)) then Some fs else None
   | None \<Rightarrow> (case raw_elements J t of
       Some es \<Rightarrow> if least \<le> length es \<and> length es \<le> length names then Some (zip names es) else None
     | None \<Rightarrow> None))"

definition raw_value :: "raw_lib \<Rightarrow> string \<Rightarrow> json option" where
  "raw_value J t = (case js_from_str J t of Inr v \<Rightarrow> Some v | Inl _ \<Rightarrow> None)"

definition raw_string :: "raw_lib \<Rightarrow> string \<Rightarrow> string option" where
  "raw_string J t = Option.bind (raw_value J t) js_as_str"

definition raw_int64 :: "raw_lib \<Rightarrow> string \<Rightarrow> int option" where
  "raw_int64 J t = Option.bind (raw_value J t) js_as_i64"

definition raw_word64 :: "raw_lib \<Rightarrow> string \<Rightarrow> u64 option" where
  "raw_word64 J t = Option.bind (raw_value J t) js_as_u64"

definition raw_bool :: "raw_lib \<Rightarrow> string \<Rightarrow> bool option" where
  "raw_bool J t = Option.bind (raw_value J t) js_as_bool"

definition raw_list :: "raw_lib \<Rightarrow> (string \<Rightarrow> 'a option) \<Rightarrow> string \<Rightarrow> 'a list option" where
  "raw_list J decode t = Option.bind (raw_elements J t) (decode_all decode)"

text \<open>A required field, and a field with \<open>#[serde(default)]\<close>.\<close>

definition raw_field :: "(string \<Rightarrow> 'a option) \<Rightarrow> raw_struct \<Rightarrow> string \<Rightarrow> 'a option" where
  "raw_field decode fs k = Option.bind (map_of fs k) decode"

definition raw_field_default :: "'a \<Rightarrow> (string \<Rightarrow> 'a option) \<Rightarrow> raw_struct \<Rightarrow> string \<Rightarrow> 'a option" where
  "raw_field_default d decode fs k = (case map_of fs k of None \<Rightarrow> Some d | Some t \<Rightarrow> decode t)"

section \<open>Lemmas\<close>

lemma query_bind_simps [simp]:
  "m h = (h', Inl e) \<Longrightarrow> query_bind m f h = (h', Inl e)"
  "m h = (h', Inr x) \<Longrightarrow> query_bind m f h = f x h'"
  by (simp_all add: query_bind_def)

lemma query_lift_Inr [simp]: "query_bind (query_lift (Inr x)) f = f x"
  by (rule ext) (simp add: query_bind_def query_lift_def)

lemma query_bind_Inr [result_simps]:
  "query_bind m f h = (h'', Inr y) \<longleftrightarrow> (\<exists>h' x. m h = (h', Inr x) \<and> f x h' = (h'', Inr y))"
  by (auto simp: query_bind_def split: prod.splits sum.splits)

lemma query_bind_Inl [result_simps]:
  "query_bind m f h = (h'', Inl e) \<longleftrightarrow>
     m h = (h'', Inl e) \<or> (\<exists>h' x. m h = (h', Inr x) \<and> f x h' = (h'', Inl e))"
  by (auto simp: query_bind_def split: prod.splits sum.splits)

lemma query_lift_eq [result_simps]: "query_lift r h = (h', q) \<longleftrightarrow> h' = h \<and> r = q"
  by (auto simp: query_lift_def)

end
