(* ===== verification/Instruments.thy ===== *)
theory Instruments
  imports Rest
begin

text \<open>
  Instruments and the venues' instrument lists (the data types and the parsers of
  \<^verbatim>\<open>src/src/catalog.rs\<close>). Each venue's response is decoded into its structures, entries that are
  not live linear perpetuals are skipped, and the others become instruments in a map ordered by
  symbol, where a repeated symbol is an error. A \<open>BTreeMap\<close> is an association list kept in the
  order of its keys.
\<close>

section \<open>Ordered maps\<close>

type_synonym ('k, 'v) btree = "('k \<times> 'v) list"

fun btree_insert :: "'k :: linorder \<Rightarrow> 'v \<Rightarrow> ('k, 'v) btree \<Rightarrow> ('k, 'v) btree" where
  "btree_insert k v [] = [(k, v)]"
| "btree_insert k v ((j, w) # rest) =
     (if k < j then (k, v) # (j, w) # rest
      else if k = j then (k, v) # rest
      else (j, w) # btree_insert k v rest)"

section \<open>Types\<close>

datatype instrument_status = LiveInstrument

datatype candle_finality_support = FinalityAuthoritative | FinalityUnknown

datatype candle_volume_support = VolumeAvailable | VolumePartial | VolumeUnavailable

record instrument_capabilities =
  cap_ticker :: bool
  cap_candle_1m :: bool
  cap_candle_1m_finality :: candle_finality_support
  cap_candle_1m_volume :: candle_volume_support
  cap_history_1m :: bool
  cap_history_1m_finality :: candle_finality_support
  cap_history_1m_volume :: candle_volume_support

fun supports :: "instrument_capabilities \<Rightarrow> channel \<Rightarrow> bool" where
  "supports c Ticker = cap_ticker c"
| "supports c Candle1m = cap_candle_1m c"

record instrument =
  in_instrument_id :: string
  in_symbol :: string
  in_provider :: provider
  in_market :: market_kind
  in_base_asset :: string
  in_quote_asset :: string
  in_settle_asset :: string
  in_status :: instrument_status
  in_venue_status :: string
  in_tick_size :: decimal_value
  in_quantity_step :: decimal_value
  in_min_order_quantity :: "decimal_value option"
  in_min_notional :: "decimal_value option"
  in_contract_size :: "decimal_value option"
  in_contract_size_asset :: "string option"
  in_max_leverage :: "decimal_value option"
  in_listing_time_ms :: "u64 option"
  in_expiry_time_ms :: "u64 option"
  in_capabilities :: instrument_capabilities

datatype catalog_error =
    ProviderDisabled provider
  | CatalogRequest provider string
  | CatalogHttpStatus provider nat
  | InvalidCatalog provider string
  | DuplicateInstrument provider string
  | RepeatedCursor provider string
  | PaginationLimit provider usize
  | EmptySnapshot provider
  | InstrumentUnavailable provider market_kind string
  | UnsupportedChannel provider market_kind string channel

fun show_catalog_error :: "catalog_error \<Rightarrow> string" where
  "show_catalog_error (ProviderDisabled p) = provider_name p @ '' instrument catalog is disabled''"
| "show_catalog_error (CatalogRequest p m) = provider_name p @ '' catalog request failed: '' @ m"
| "show_catalog_error (CatalogHttpStatus p s) = provider_name p @ '' catalog endpoint returned HTTP '' @ show_nat s"
| "show_catalog_error (InvalidCatalog p m) = provider_name p @ '' catalog payload is invalid: '' @ m"
| "show_catalog_error (DuplicateInstrument p s) = provider_name p @ '' catalog returned duplicate instrument '' @ s"
| "show_catalog_error (RepeatedCursor p c) = provider_name p @ '' catalog pagination repeated cursor '' @ c"
| "show_catalog_error (PaginationLimit p l) =
     provider_name p @ '' catalog exceeded the '' @ show_nat l @ ''-page pagination safety limit''"
| "show_catalog_error (EmptySnapshot p) = provider_name p @ '' catalog returned no live linear perpetual instruments''"
| "show_catalog_error (InstrumentUnavailable p m s) =
     ''instrument is not available: '' @ provider_name p @ '':'' @ market_name m @ '':'' @ s"
| "show_catalog_error (UnsupportedChannel p m s c) =
     channel_name c @ '' is not available for '' @ provider_name p @ '':'' @ market_name m @ '':'' @ s"

section \<open>Field validation\<close>

datatype wire_scalar = WireString string | WireNumber string

fun wire_text :: "wire_scalar \<Rightarrow> string" where
  "wire_text (WireString s) = s"
| "wire_text (WireNumber n) = n"

definition positive_decimal :: "ext \<Rightarrow> provider \<Rightarrow> string \<Rightarrow> wire_scalar \<Rightarrow> catalog_error + decimal_value" where
  "positive_decimal E p field scalar =
     (let raw = wire_text scalar; not_decimal = InvalidCatalog p (field @ '' is not a decimal: '' @ raw)
      in and_then (ok_or not_decimal (case dec_from_str E raw of Some d \<Rightarrow> Some d | None \<Rightarrow> dec_from_scientific E raw)) (\<lambda>parsed.
         if dec_value parsed \<le> 0 then Inl (InvalidCatalog p (field @ '' must be greater than zero''))
         else case new_decimal_value E raw of
           Inr v \<Rightarrow> Inr v
         | Inl _ \<Rightarrow> map_err (\<lambda>_. not_decimal) (new_decimal_value E (dec_to_string E parsed))))"

definition optional_positive_decimal ::
  "ext \<Rightarrow> provider \<Rightarrow> string \<Rightarrow> wire_scalar option \<Rightarrow> catalog_error + decimal_value option" where
  "optional_positive_decimal E p field scalar = (case scalar of
     None \<Rightarrow> Inr None
   | Some s \<Rightarrow> if s = WireString [] then Inr None
       else and_then (positive_decimal E p field s) (\<lambda>v. Inr (Some v)))"

definition optional_timestamp_ms :: "provider \<Rightarrow> string \<Rightarrow> wire_scalar option \<Rightarrow> catalog_error + u64 option" where
  "optional_timestamp_ms p field scalar = (case scalar of
     None \<Rightarrow> Inr None
   | Some s \<Rightarrow> let v = wire_text s
       in if v = [] \<or> v = ''0'' then Inr None
          else and_then (ok_or (InvalidCatalog p (field @ '' must be an unsigned millisecond timestamp'')) (parse_u64 v))
            (\<lambda>t. Inr (Some t)))"

definition MAX_SCALE :: nat where
  "MAX_SCALE = 28"

definition precision_step :: "ext \<Rightarrow> provider \<Rightarrow> string \<Rightarrow> nat \<Rightarrow> catalog_error + decimal_value" where
  "precision_step E p field precision =
     (if precision > MAX_SCALE then Inl (InvalidCatalog p (field @ '' exceeds decimal scale '' @ show_nat MAX_SCALE))
      else map_err (\<lambda>e. InvalidCatalog p (''invalid '' @ field @ '': '' @ domain_error_text e))
        (new_decimal_value E (dec_to_string E (Decimal 1 precision))))"

definition capabilities :: "provider \<Rightarrow> instrument_capabilities" where
  "capabilities p =
     (let (finality, volume) = (case p of
          Kucoin \<Rightarrow> (FinalityUnknown, VolumeUnavailable)
        | Mexc \<Rightarrow> (FinalityUnknown, VolumePartial)
        | Bingx \<Rightarrow> (FinalityUnknown, VolumePartial)
        | _ \<Rightarrow> (FinalityAuthoritative, VolumeAvailable));
          (history_finality, history_volume) = (case p of
          Kucoin \<Rightarrow> (FinalityUnknown, VolumeUnavailable)
        | Bingx \<Rightarrow> (FinalityAuthoritative, VolumePartial)
        | _ \<Rightarrow> (FinalityAuthoritative, VolumeAvailable))
      in \<lparr>cap_ticker = True, cap_candle_1m = True, cap_candle_1m_finality = finality,
          cap_candle_1m_volume = volume, cap_history_1m = True, cap_history_1m_finality = history_finality,
          cap_history_1m_volume = history_volume\<rparr>)"

definition exact_symbol :: "ext \<Rightarrow> provider \<Rightarrow> string \<Rightarrow> catalog_error + string" where
  "exact_symbol E p v =
     and_then (map_err (\<lambda>e. InvalidCatalog p (''invalid symbol: '' @ domain_error_text e)) (normalize_symbol E v)) (\<lambda>normalized.
     if normalized \<noteq> v then Inl (InvalidCatalog p (''symbol is not in its exact canonical form: '' @ v))
     else Inr v)"

definition exact_asset :: "provider \<Rightarrow> string \<Rightarrow> string \<Rightarrow> catalog_error + string" where
  "exact_asset p field v =
     (if v = [] \<or> length v > 64 \<or> list_ex (\<lambda>g. is_whitespace (code_point g)) (chars v)
        \<or> list_ex (\<lambda>g. is_control (code_point g)) (chars v)
      then Inl (InvalidCatalog p (field @ '' must be a non-empty venue asset identifier''))
      else Inr v)"

definition catalog_instrument_id :: "provider \<Rightarrow> string \<Rightarrow> string" where
  "catalog_instrument_id p symbol = provider_name p @ '':'' @ market_name LinearPerpetual @ '':'' @ symbol"

definition insert_unique ::
  "(string, instrument) btree \<Rightarrow> instrument \<Rightarrow> catalog_error + (string, instrument) btree" where
  "insert_unique instruments i =
     (if map_of instruments (in_symbol i) \<noteq> None then Inl (DuplicateInstrument (in_provider i) (in_symbol i))
      else Inr (btree_insert (in_symbol i) i instruments))"

text \<open>The loop that every parser runs over the decoded entries.\<close>

fun insert_items ::
  "('x \<Rightarrow> catalog_error + instrument option) \<Rightarrow> (string, instrument) btree \<Rightarrow> 'x list \<Rightarrow>
     catalog_error + (string, instrument) btree" where
  "insert_items f m [] = Inr m"
| "insert_items f m (x # xs) =
     and_then (f x) (\<lambda>r. case r of
       None \<Rightarrow> insert_items f m xs
     | Some i \<Rightarrow> and_then (insert_unique m i) (\<lambda>m'. insert_items f m' xs))"

text \<open>The common part of every accepted entry.\<close>

definition new_instrument :: "provider \<Rightarrow> string \<Rightarrow> string \<Rightarrow> string \<Rightarrow> string \<Rightarrow> string \<Rightarrow> decimal_value \<Rightarrow> decimal_value \<Rightarrow> instrument" where
  "new_instrument p symbol base quote settle venue_status tick step =
     \<lparr>in_instrument_id = catalog_instrument_id p symbol, in_symbol = symbol, in_provider = p,
      in_market = LinearPerpetual, in_base_asset = base, in_quote_asset = quote, in_settle_asset = settle,
      in_status = LiveInstrument, in_venue_status = venue_status, in_tick_size = tick, in_quantity_step = step,
      in_min_order_quantity = None, in_min_notional = None, in_contract_size = None,
      in_contract_size_asset = None, in_max_leverage = None, in_listing_time_ms = None,
      in_expiry_time_ms = None, in_capabilities = capabilities p\<rparr>"

section \<open>Decoding\<close>

definition raw_scalar :: "raw_lib \<Rightarrow> string \<Rightarrow> wire_scalar option" where
  "raw_scalar J t = (case raw_value J t of
     Some (JString s) \<Rightarrow> Some (WireString s)
   | Some (JInt n) \<Rightarrow> Some (WireNumber (show_int n))
   | Some (JFloat s) \<Rightarrow> Some (WireNumber s)
   | _ \<Rightarrow> None)"

definition raw_u32 :: "raw_lib \<Rightarrow> string \<Rightarrow> nat option" where
  "raw_u32 J t = (case raw_value J t of
     Some (JInt n) \<Rightarrow> if 0 \<le> n \<and> n < 2 ^ 32 then Some (nat n) else None
   | _ \<Rightarrow> None)"

text \<open>An optional field: absent or \<open>null\<close> is \<open>None\<close>.\<close>

definition raw_field_opt :: "raw_lib \<Rightarrow> (string \<Rightarrow> 'a option) \<Rightarrow> raw_struct \<Rightarrow> string \<Rightarrow> 'a option option" where
  "raw_field_opt J decode fs k = (case map_of fs k of
     None \<Rightarrow> Some None
   | Some t \<Rightarrow> if raw_value J t = Some JNull then Some None else map_option Some (decode t))"

text \<open>\<open>OneOrMany\<close>: one entry, or a list of entries.\<close>

definition raw_one_or_many :: "raw_lib \<Rightarrow> (string \<Rightarrow> 'a option) \<Rightarrow> string \<Rightarrow> 'a list option" where
  "raw_one_or_many J decode t = (case decode t of
     Some x \<Rightarrow> Some [x]
   | None \<Rightarrow> raw_list J decode t)"

definition catalog_json :: "raw_lib \<Rightarrow> (string \<Rightarrow> 'a option) \<Rightarrow> provider \<Rightarrow> string \<Rightarrow> catalog_error + 'a" where
  "catalog_json J decode p body = ok_or (InvalidCatalog p (''invalid JSON: '' @ raw_error J body)) (decode body)"

section \<open>Bybit\<close>

record bybit_instrument_item =
  byi_symbol :: string
  byi_contract_type :: string
  byi_status :: string
  byi_base_coin :: string
  byi_quote_coin :: string
  byi_settle_coin :: string
  byi_launch_time :: "wire_scalar option"
  byi_delivery_time :: "wire_scalar option"
  byi_tick_size :: wire_scalar
  byi_qty_step :: wire_scalar
  byi_min_order_qty :: "wire_scalar option"
  byi_min_notional_value :: "wire_scalar option"
  byi_max_leverage :: "wire_scalar option"

definition decode_bybit_price_filter :: "raw_lib \<Rightarrow> string \<Rightarrow> wire_scalar option" where
  "decode_bybit_price_filter J t =
     Option.bind (raw_struct J [''tickSize''] 1 t) (\<lambda>fs. raw_field (raw_scalar J) fs ''tickSize'')"

definition decode_bybit_lot_size_filter ::
  "raw_lib \<Rightarrow> string \<Rightarrow> (wire_scalar \<times> wire_scalar option \<times> wire_scalar option) option" where
  "decode_bybit_lot_size_filter J t =
     Option.bind (raw_struct J [''qtyStep'', ''minOrderQty'', ''minNotionalValue''] 1 t) (\<lambda>fs.
     Option.bind (raw_field (raw_scalar J) fs ''qtyStep'') (\<lambda>qty_step.
     Option.bind (raw_field_opt J (raw_scalar J) fs ''minOrderQty'') (\<lambda>min_order_qty.
     Option.bind (raw_field_opt J (raw_scalar J) fs ''minNotionalValue'') (\<lambda>min_notional_value.
     Some (qty_step, min_order_qty, min_notional_value)))))"

definition decode_bybit_leverage_filter :: "raw_lib \<Rightarrow> string \<Rightarrow> wire_scalar option" where
  "decode_bybit_leverage_filter J t =
     Option.bind (raw_struct J [''maxLeverage''] 1 t) (\<lambda>fs. raw_field (raw_scalar J) fs ''maxLeverage'')"

definition decode_bybit_instrument :: "raw_lib \<Rightarrow> string \<Rightarrow> bybit_instrument_item option" where
  "decode_bybit_instrument J t =
     Option.bind (raw_struct J [''symbol'', ''contractType'', ''status'', ''baseCoin'', ''quoteCoin'', ''settleCoin'',
       ''launchTime'', ''deliveryTime'', ''priceFilter'', ''lotSizeFilter'', ''leverageFilter''] 11 t) (\<lambda>fs.
     Option.bind (raw_field (raw_string J) fs ''symbol'') (\<lambda>symbol.
     Option.bind (raw_field (raw_string J) fs ''contractType'') (\<lambda>contract_type.
     Option.bind (raw_field (raw_string J) fs ''status'') (\<lambda>status.
     Option.bind (raw_field (raw_string J) fs ''baseCoin'') (\<lambda>base.
     Option.bind (raw_field (raw_string J) fs ''quoteCoin'') (\<lambda>quote.
     Option.bind (raw_field (raw_string J) fs ''settleCoin'') (\<lambda>settle.
     Option.bind (raw_field_opt J (raw_scalar J) fs ''launchTime'') (\<lambda>launch.
     Option.bind (raw_field_opt J (raw_scalar J) fs ''deliveryTime'') (\<lambda>delivery.
     Option.bind (raw_field (decode_bybit_price_filter J) fs ''priceFilter'') (\<lambda>tick_size.
     Option.bind (raw_field (decode_bybit_lot_size_filter J) fs ''lotSizeFilter'') (\<lambda>(qty_step, min_order_qty, min_notional_value).
     Option.bind (raw_field_opt J (decode_bybit_leverage_filter J) fs ''leverageFilter'') (\<lambda>leverage.
     Some \<lparr>byi_symbol = symbol, byi_contract_type = contract_type, byi_status = status, byi_base_coin = base,
           byi_quote_coin = quote, byi_settle_coin = settle, byi_launch_time = launch,
           byi_delivery_time = delivery, byi_tick_size = tick_size, byi_qty_step = qty_step,
           byi_min_order_qty = min_order_qty, byi_min_notional_value = min_notional_value,
           byi_max_leverage = leverage\<rparr>))))))))))))"

definition decode_bybit_catalog_result ::
  "raw_lib \<Rightarrow> string \<Rightarrow> (string \<times> string \<times> bybit_instrument_item list) option" where
  "decode_bybit_catalog_result J t =
     Option.bind (raw_struct J [''category'', ''nextPageCursor'', ''list''] 3 t) (\<lambda>fs.
     Option.bind (raw_field (raw_string J) fs ''category'') (\<lambda>category.
     Option.bind (raw_field_default [] (raw_string J) fs ''nextPageCursor'') (\<lambda>cursor.
     Option.bind (raw_field (raw_list J (decode_bybit_instrument J)) fs ''list'') (\<lambda>items.
     Some (category, cursor, items)))))"

definition decode_bybit_catalog ::
  "raw_lib \<Rightarrow> string \<Rightarrow> (int \<times> string \<times> (string \<times> string \<times> bybit_instrument_item list) option) option" where
  "decode_bybit_catalog J t =
     Option.bind (raw_struct J [''retCode'', ''retMsg'', ''result''] 3 t) (\<lambda>fs.
     Option.bind (raw_field (raw_int64 J) fs ''retCode'') (\<lambda>code.
     Option.bind (raw_field_default [] (raw_string J) fs ''retMsg'') (\<lambda>msg.
     Option.bind (raw_field_opt J (decode_bybit_catalog_result J) fs ''result'') (\<lambda>result.
     Some (code, msg, result)))))"

definition bybit_instrument :: "ext \<Rightarrow> bybit_instrument_item \<Rightarrow> catalog_error + instrument option" where
  "bybit_instrument E item =
     (if byi_contract_type item \<noteq> ''LinearPerpetual'' \<or> byi_status item \<noteq> ''Trading'' then Inr None
      else
        and_then (exact_symbol E Bybit (byi_symbol item)) (\<lambda>symbol.
        and_then (transpose_opt (positive_decimal E Bybit ''leverageFilter.maxLeverage'') (byi_max_leverage item)) (\<lambda>max_leverage.
        and_then (exact_asset Bybit ''baseCoin'' (byi_base_coin item)) (\<lambda>base.
        and_then (exact_asset Bybit ''quoteCoin'' (byi_quote_coin item)) (\<lambda>quote.
        and_then (exact_asset Bybit ''settleCoin'' (byi_settle_coin item)) (\<lambda>settle.
        and_then (positive_decimal E Bybit ''priceFilter.tickSize'' (byi_tick_size item)) (\<lambda>tick.
        and_then (positive_decimal E Bybit ''lotSizeFilter.qtyStep'' (byi_qty_step item)) (\<lambda>step.
        and_then (optional_positive_decimal E Bybit ''lotSizeFilter.minOrderQty'' (byi_min_order_qty item)) (\<lambda>min_qty.
        and_then (optional_positive_decimal E Bybit ''lotSizeFilter.minNotionalValue'' (byi_min_notional_value item)) (\<lambda>min_notional.
        and_then (optional_timestamp_ms Bybit ''launchTime'' (byi_launch_time item)) (\<lambda>listing.
        and_then (optional_timestamp_ms Bybit ''deliveryTime'' (byi_delivery_time item)) (\<lambda>expiry.
        Inr (Some ((new_instrument Bybit symbol base quote settle (byi_status item) tick step)
          \<lparr>in_min_order_quantity := min_qty, in_min_notional := min_notional, in_max_leverage := max_leverage,
           in_listing_time_ms := listing, in_expiry_time_ms := expiry\<rparr>))))))))))))))"

text \<open>\<open>filter_map\<close> into a \<open>Result\<close>: skipped entries are dropped, the first error ends the collection.\<close>

fun somes :: "'a option list \<Rightarrow> 'a list" where
  "somes [] = []"
| "somes (None # rs) = somes rs"
| "somes (Some x # rs) = x # somes rs"

definition collect_some :: "('x \<Rightarrow> catalog_error + instrument option) \<Rightarrow> 'x list \<Rightarrow> catalog_error + instrument list" where
  "collect_some f xs = and_then (collect_results f xs) (\<lambda>rs. Inr (somes rs))"

record bybit_catalog_page =
  byp_instruments :: "instrument list"
  byp_next_page_cursor :: string

definition parse_bybit_page :: "ext \<Rightarrow> raw_lib \<Rightarrow> string \<Rightarrow> catalog_error + bybit_catalog_page" where
  "parse_bybit_page E J body =
     and_then (catalog_json J (decode_bybit_catalog J) Bybit body) (\<lambda>(code, msg, result).
     if code \<noteq> 0 then Inl (InvalidCatalog Bybit (''endpoint returned code '' @ show_int code @ '': '' @ msg))
     else
       and_then (ok_or (InvalidCatalog Bybit ''missing result'') result) (\<lambda>(category, cursor, items).
       if category \<noteq> ''linear'' then Inl (InvalidCatalog Bybit (''expected linear category, got '' @ category))
       else and_then (collect_some (bybit_instrument E) items) (\<lambda>instruments.
         Inr \<lparr>byp_instruments = instruments, byp_next_page_cursor = cursor\<rparr>)))"

section \<open>Binance\<close>

record binance_filter =
  bnf_filter_type :: string
  bnf_tick_size :: "wire_scalar option"
  bnf_step_size :: "wire_scalar option"
  bnf_min_qty :: "wire_scalar option"
  bnf_notional :: "wire_scalar option"

record binance_instrument_item =
  bni_symbol :: string
  bni_contract_type :: string
  bni_status :: string
  bni_base_asset :: string
  bni_quote_asset :: string
  bni_margin_asset :: string
  bni_onboard_date :: "u64 option"
  bni_filters :: "binance_filter list"

definition decode_binance_filter :: "raw_lib \<Rightarrow> string \<Rightarrow> binance_filter option" where
  "decode_binance_filter J t =
     Option.bind (raw_struct J [''filterType'', ''tickSize'', ''stepSize'', ''minQty'', ''notional''] 5 t) (\<lambda>fs.
     Option.bind (raw_field (raw_string J) fs ''filterType'') (\<lambda>filter_type.
     Option.bind (raw_field_opt J (raw_scalar J) fs ''tickSize'') (\<lambda>tick_size.
     Option.bind (raw_field_opt J (raw_scalar J) fs ''stepSize'') (\<lambda>step_size.
     Option.bind (raw_field_opt J (raw_scalar J) fs ''minQty'') (\<lambda>min_qty.
     Option.bind (raw_field_opt J (raw_scalar J) fs ''notional'') (\<lambda>notional.
     Some \<lparr>bnf_filter_type = filter_type, bnf_tick_size = tick_size, bnf_step_size = step_size,
           bnf_min_qty = min_qty, bnf_notional = notional\<rparr>))))))"

definition decode_binance_instrument :: "raw_lib \<Rightarrow> string \<Rightarrow> binance_instrument_item option" where
  "decode_binance_instrument J t =
     Option.bind (raw_struct J [''symbol'', ''contractType'', ''status'', ''baseAsset'', ''quoteAsset'', ''marginAsset'',
       ''onboardDate'', ''filters''] 8 t) (\<lambda>fs.
     Option.bind (raw_field (raw_string J) fs ''symbol'') (\<lambda>symbol.
     Option.bind (raw_field (raw_string J) fs ''contractType'') (\<lambda>contract_type.
     Option.bind (raw_field (raw_string J) fs ''status'') (\<lambda>status.
     Option.bind (raw_field (raw_string J) fs ''baseAsset'') (\<lambda>base.
     Option.bind (raw_field (raw_string J) fs ''quoteAsset'') (\<lambda>quote.
     Option.bind (raw_field (raw_string J) fs ''marginAsset'') (\<lambda>margin.
     Option.bind (raw_field_opt J (raw_word64 J) fs ''onboardDate'') (\<lambda>onboard_date.
     Option.bind (raw_field (raw_list J (decode_binance_filter J)) fs ''filters'') (\<lambda>filters.
     Some \<lparr>bni_symbol = symbol, bni_contract_type = contract_type, bni_status = status, bni_base_asset = base,
           bni_quote_asset = quote, bni_margin_asset = margin, bni_onboard_date = onboard_date,
           bni_filters = filters\<rparr>)))))))))"

definition decode_binance_catalog :: "raw_lib \<Rightarrow> string \<Rightarrow> binance_instrument_item list option" where
  "decode_binance_catalog J t =
     Option.bind (raw_struct J [''symbols''] 1 t) (\<lambda>fs.
     raw_field (raw_list J (decode_binance_instrument J)) fs ''symbols'')"

definition unique_filter_decimal ::
  "ext \<Rightarrow> provider \<Rightarrow> binance_filter list \<Rightarrow> string \<Rightarrow> string \<Rightarrow> (binance_filter \<Rightarrow> wire_scalar option) \<Rightarrow>
     catalog_error + decimal_value" where
  "unique_filter_decimal E p filters filter_type field v =
     (let matching = filter (\<lambda>f. bnf_filter_type f = filter_type) filters
      in if length matching \<noteq> 1
         then Inl (InvalidCatalog p (''expected exactly one '' @ filter_type @ '', got '' @ show_nat (length matching)))
         else and_then (ok_or (InvalidCatalog p (filter_type @ '' is missing '' @ field)) (v (matching ! 0)))
           (positive_decimal E p (filter_type @ ''.'' @ field)))"

definition optional_unique_filter_decimal ::
  "ext \<Rightarrow> provider \<Rightarrow> binance_filter list \<Rightarrow> string \<Rightarrow> string \<Rightarrow> (binance_filter \<Rightarrow> wire_scalar option) \<Rightarrow>
     catalog_error + decimal_value option" where
  "optional_unique_filter_decimal E p filters filter_type field v =
     (let matching = filter (\<lambda>f. bnf_filter_type f = filter_type) filters
      in case matching of
         [] \<Rightarrow> Inr None
       | [f] \<Rightarrow> transpose_opt (positive_decimal E p (filter_type @ ''.'' @ field)) (v f)
       | _ \<Rightarrow> Inl (InvalidCatalog p (''expected at most one '' @ filter_type @ '', got '' @ show_nat (length matching))))"

definition binance_instrument :: "ext \<Rightarrow> binance_instrument_item \<Rightarrow> catalog_error + instrument option" where
  "binance_instrument E item =
     (if bni_contract_type item \<noteq> ''PERPETUAL'' \<or> bni_status item \<noteq> ''TRADING'' then Inr None
      else
        and_then (unique_filter_decimal E Binance (bni_filters item) ''PRICE_FILTER'' ''tickSize'' bnf_tick_size) (\<lambda>tick.
        and_then (unique_filter_decimal E Binance (bni_filters item) ''LOT_SIZE'' ''stepSize'' bnf_step_size) (\<lambda>step.
        and_then (optional_unique_filter_decimal E Binance (bni_filters item) ''LOT_SIZE'' ''minQty'' bnf_min_qty) (\<lambda>min_qty.
        and_then (optional_unique_filter_decimal E Binance (bni_filters item) ''MIN_NOTIONAL'' ''notional'' bnf_notional) (\<lambda>min_notional.
        and_then (exact_symbol E Binance (bni_symbol item)) (\<lambda>symbol.
        and_then (exact_asset Binance ''baseAsset'' (bni_base_asset item)) (\<lambda>base.
        and_then (exact_asset Binance ''quoteAsset'' (bni_quote_asset item)) (\<lambda>quote.
        and_then (exact_asset Binance ''marginAsset'' (bni_margin_asset item)) (\<lambda>settle.
        Inr (Some ((new_instrument Binance symbol base quote settle (bni_status item) tick step)
          \<lparr>in_min_order_quantity := min_qty, in_min_notional := min_notional,
           in_listing_time_ms := (case bni_onboard_date item of Some t \<Rightarrow> if t \<noteq> 0 then Some t else None | None \<Rightarrow> None)\<rparr>)))))))))))"

definition parse_binance_catalog :: "ext \<Rightarrow> raw_lib \<Rightarrow> string \<Rightarrow> catalog_error + (string, instrument) btree" where
  "parse_binance_catalog E J body =
     and_then (catalog_json J (decode_binance_catalog J) Binance body) (insert_items (binance_instrument E) [])"

section \<open>OKX\<close>

record okx_instrument_item =
  oki_inst_id :: string
  oki_inst_type :: string
  oki_state :: string
  oki_base_ccy :: string
  oki_quote_ccy :: string
  oki_settle_ccy :: string
  oki_ct_type :: string
  oki_ct_val :: wire_scalar
  oki_ct_val_ccy :: string
  oki_tick_sz :: wire_scalar
  oki_lot_sz :: wire_scalar
  oki_min_sz :: "wire_scalar option"
  oki_lever :: "wire_scalar option"
  oki_list_time :: "wire_scalar option"
  oki_exp_time :: "wire_scalar option"
  oki_uly :: string
  oki_inst_family :: string

definition decode_okx_instrument :: "raw_lib \<Rightarrow> string \<Rightarrow> okx_instrument_item option" where
  "decode_okx_instrument J t =
     Option.bind (raw_struct J [''instId'', ''instType'', ''state'', ''baseCcy'', ''quoteCcy'', ''settleCcy'', ''ctType'',
       ''ctVal'', ''ctValCcy'', ''tickSz'', ''lotSz'', ''minSz'', ''lever'', ''listTime'', ''expTime'', ''uly'',
       ''instFamily''] 11 t) (\<lambda>fs.
     Option.bind (raw_field (raw_string J) fs ''instId'') (\<lambda>inst_id.
     Option.bind (raw_field (raw_string J) fs ''instType'') (\<lambda>inst_type.
     Option.bind (raw_field (raw_string J) fs ''state'') (\<lambda>state.
     Option.bind (raw_field_default [] (raw_string J) fs ''baseCcy'') (\<lambda>base.
     Option.bind (raw_field_default [] (raw_string J) fs ''quoteCcy'') (\<lambda>quote.
     Option.bind (raw_field (raw_string J) fs ''settleCcy'') (\<lambda>settle.
     Option.bind (raw_field (raw_string J) fs ''ctType'') (\<lambda>ct_type.
     Option.bind (raw_field (raw_scalar J) fs ''ctVal'') (\<lambda>ct_val.
     Option.bind (raw_field_default [] (raw_string J) fs ''ctValCcy'') (\<lambda>ct_val_ccy.
     Option.bind (raw_field (raw_scalar J) fs ''tickSz'') (\<lambda>tick_sz.
     Option.bind (raw_field (raw_scalar J) fs ''lotSz'') (\<lambda>lot_sz.
     Option.bind (raw_field_opt J (raw_scalar J) fs ''minSz'') (\<lambda>min_sz.
     Option.bind (raw_field_opt J (raw_scalar J) fs ''lever'') (\<lambda>lever.
     Option.bind (raw_field_opt J (raw_scalar J) fs ''listTime'') (\<lambda>list_time.
     Option.bind (raw_field_opt J (raw_scalar J) fs ''expTime'') (\<lambda>exp_time.
     Option.bind (raw_field_default [] (raw_string J) fs ''uly'') (\<lambda>uly.
     Option.bind (raw_field_default [] (raw_string J) fs ''instFamily'') (\<lambda>inst_family.
     Some \<lparr>oki_inst_id = inst_id, oki_inst_type = inst_type, oki_state = state, oki_base_ccy = base,
           oki_quote_ccy = quote, oki_settle_ccy = settle, oki_ct_type = ct_type, oki_ct_val = ct_val,
           oki_ct_val_ccy = ct_val_ccy, oki_tick_sz = tick_sz, oki_lot_sz = lot_sz, oki_min_sz = min_sz,
           oki_lever = lever, oki_list_time = list_time, oki_exp_time = exp_time, oki_uly = uly,
           oki_inst_family = inst_family\<rparr>))))))))))))))))))"

definition decode_okx_catalog :: "raw_lib \<Rightarrow> string \<Rightarrow> (string \<times> string \<times> okx_instrument_item list) option" where
  "decode_okx_catalog J t =
     Option.bind (raw_struct J [''code'', ''msg'', ''data''] 3 t) (\<lambda>fs.
     Option.bind (raw_field (raw_string J) fs ''code'') (\<lambda>code.
     Option.bind (raw_field_default [] (raw_string J) fs ''msg'') (\<lambda>msg.
     Option.bind (raw_field (raw_list J (decode_okx_instrument J)) fs ''data'') (\<lambda>items.
     Some (code, msg, items)))))"

definition okx_underlying_assets :: "okx_instrument_item \<Rightarrow> catalog_error + string \<times> string" where
  "okx_underlying_assets item =
     (let underlying = (if oki_uly item = [] then oki_inst_family item else oki_uly item)
      in and_then (ok_or (InvalidCatalog Okx (''could not derive assets from underlying '' @ underlying))
           (split_once CHR ''-'' underlying)) (\<lambda>(base, quote).
         if CHR ''-'' \<in> set quote
         then Inl (InvalidCatalog Okx (''underlying must contain exactly two assets: '' @ underlying))
         else
           and_then (exact_asset Okx ''underlying base'' base) (\<lambda>b.
           and_then (exact_asset Okx ''underlying quote'' quote) (\<lambda>q. Inr (b, q)))))"

definition okx_instrument :: "ext \<Rightarrow> okx_instrument_item \<Rightarrow> catalog_error + instrument option" where
  "okx_instrument E item =
     (if oki_inst_type item \<noteq> ''SWAP'' \<or> oki_ct_type item \<noteq> ''linear'' \<or> oki_state item \<noteq> ''live'' then Inr None
      else
        and_then (okx_underlying_assets item) (\<lambda>(derived_base, derived_quote).
        and_then (if oki_base_ccy item = [] then Inr derived_base else exact_asset Okx ''baseCcy'' (oki_base_ccy item)) (\<lambda>base.
        and_then (if oki_quote_ccy item = [] then Inr derived_quote else exact_asset Okx ''quoteCcy'' (oki_quote_ccy item)) (\<lambda>quote.
        and_then (if oki_ct_val_ccy item = [] then Inr base else exact_asset Okx ''ctValCcy'' (oki_ct_val_ccy item)) (\<lambda>size_asset.
        and_then (exact_symbol E Okx (oki_inst_id item)) (\<lambda>symbol.
        and_then (exact_asset Okx ''settleCcy'' (oki_settle_ccy item)) (\<lambda>settle.
        and_then (positive_decimal E Okx ''tickSz'' (oki_tick_sz item)) (\<lambda>tick.
        and_then (positive_decimal E Okx ''lotSz'' (oki_lot_sz item)) (\<lambda>step.
        and_then (optional_positive_decimal E Okx ''minSz'' (oki_min_sz item)) (\<lambda>min_qty.
        and_then (positive_decimal E Okx ''ctVal'' (oki_ct_val item)) (\<lambda>size.
        and_then (optional_positive_decimal E Okx ''lever'' (oki_lever item)) (\<lambda>max_leverage.
        and_then (optional_timestamp_ms Okx ''listTime'' (oki_list_time item)) (\<lambda>listing.
        and_then (optional_timestamp_ms Okx ''expTime'' (oki_exp_time item)) (\<lambda>expiry.
        Inr (Some ((new_instrument Okx symbol base quote settle (oki_state item) tick step)
          \<lparr>in_min_order_quantity := min_qty, in_contract_size := Some size, in_contract_size_asset := Some size_asset,
           in_max_leverage := max_leverage, in_listing_time_ms := listing, in_expiry_time_ms := expiry\<rparr>))))))))))))))))"

definition parse_okx_catalog :: "ext \<Rightarrow> raw_lib \<Rightarrow> string \<Rightarrow> catalog_error + (string, instrument) btree" where
  "parse_okx_catalog E J body =
     and_then (catalog_json J (decode_okx_catalog J) Okx body) (\<lambda>(code, msg, items).
     if code \<noteq> ''0'' then Inl (InvalidCatalog Okx (''endpoint returned code '' @ code @ '': '' @ msg))
     else insert_items (okx_instrument E) [] items)"

section \<open>KuCoin\<close>

record kucoin_instrument_item =
  kci_symbol :: string
  kci_contract_type :: string
  kci_status :: string
  kci_base_currency :: string
  kci_quote_currency :: string
  kci_settle_currency :: string
  kci_first_open_date :: "wire_scalar option"
  kci_expire_date :: "wire_scalar option"
  kci_tick_size :: wire_scalar
  kci_lot_size :: wire_scalar
  kci_multiplier :: wire_scalar
  kci_max_leverage :: "wire_scalar option"
  kci_is_inverse :: bool

definition decode_kucoin_instrument :: "raw_lib \<Rightarrow> string \<Rightarrow> kucoin_instrument_item option" where
  "decode_kucoin_instrument J t =
     Option.bind (raw_struct J [''symbol'', ''type'', ''status'', ''baseCurrency'', ''quoteCurrency'', ''settleCurrency'',
       ''firstOpenDate'', ''expireDate'', ''tickSize'', ''lotSize'', ''multiplier'', ''maxLeverage'', ''isInverse''] 13 t) (\<lambda>fs.
     Option.bind (raw_field (raw_string J) fs ''symbol'') (\<lambda>symbol.
     Option.bind (raw_field (raw_string J) fs ''type'') (\<lambda>contract_type.
     Option.bind (raw_field (raw_string J) fs ''status'') (\<lambda>status.
     Option.bind (raw_field (raw_string J) fs ''baseCurrency'') (\<lambda>base.
     Option.bind (raw_field (raw_string J) fs ''quoteCurrency'') (\<lambda>quote.
     Option.bind (raw_field (raw_string J) fs ''settleCurrency'') (\<lambda>settle.
     Option.bind (raw_field_opt J (raw_scalar J) fs ''firstOpenDate'') (\<lambda>first_open.
     Option.bind (raw_field_opt J (raw_scalar J) fs ''expireDate'') (\<lambda>expire.
     Option.bind (raw_field (raw_scalar J) fs ''tickSize'') (\<lambda>tick_size.
     Option.bind (raw_field (raw_scalar J) fs ''lotSize'') (\<lambda>lot_size.
     Option.bind (raw_field (raw_scalar J) fs ''multiplier'') (\<lambda>multiplier.
     Option.bind (raw_field_opt J (raw_scalar J) fs ''maxLeverage'') (\<lambda>max_leverage.
     Option.bind (raw_field (raw_bool J) fs ''isInverse'') (\<lambda>is_inverse.
     Some \<lparr>kci_symbol = symbol, kci_contract_type = contract_type, kci_status = status, kci_base_currency = base,
           kci_quote_currency = quote, kci_settle_currency = settle, kci_first_open_date = first_open,
           kci_expire_date = expire, kci_tick_size = tick_size, kci_lot_size = lot_size,
           kci_multiplier = multiplier, kci_max_leverage = max_leverage, kci_is_inverse = is_inverse\<rparr>))))))))))))))"

definition decode_kucoin_catalog :: "raw_lib \<Rightarrow> string \<Rightarrow> (string \<times> kucoin_instrument_item list option) option" where
  "decode_kucoin_catalog J t =
     Option.bind (raw_struct J [''code'', ''data''] 2 t) (\<lambda>fs.
     Option.bind (raw_field (raw_string J) fs ''code'') (\<lambda>code.
     Option.bind (raw_field_opt J (raw_one_or_many J (decode_kucoin_instrument J)) fs ''data'') (\<lambda>items.
     Some (code, items))))"

definition kucoin_instrument :: "ext \<Rightarrow> kucoin_instrument_item \<Rightarrow> catalog_error + instrument option" where
  "kucoin_instrument E item =
     (if kci_contract_type item \<noteq> ''FFWCSX'' \<or> kci_status item \<noteq> ''Open'' \<or> kci_is_inverse item then Inr None
      else and_then (optional_timestamp_ms Kucoin ''expireDate'' (kci_expire_date item)) (\<lambda>expire.
        if expire \<noteq> None then Inr None
        else if \<not> (ends_with ''USDTM'' (kci_symbol item) \<or> ends_with ''USDCM'' (kci_symbol item)) then Inr None
        else
          and_then (exact_symbol E Kucoin (kci_symbol item)) (\<lambda>symbol.
          and_then (exact_asset Kucoin ''baseCurrency'' (kci_base_currency item)) (\<lambda>base.
          and_then (positive_decimal E Kucoin ''lotSize'' (kci_lot_size item)) (\<lambda>step.
          and_then (exact_asset Kucoin ''quoteCurrency'' (kci_quote_currency item)) (\<lambda>quote.
          and_then (exact_asset Kucoin ''settleCurrency'' (kci_settle_currency item)) (\<lambda>settle.
          and_then (positive_decimal E Kucoin ''tickSize'' (kci_tick_size item)) (\<lambda>tick.
          and_then (positive_decimal E Kucoin ''multiplier'' (kci_multiplier item)) (\<lambda>size.
          and_then (optional_positive_decimal E Kucoin ''maxLeverage'' (kci_max_leverage item)) (\<lambda>max_leverage.
          and_then (optional_timestamp_ms Kucoin ''firstOpenDate'' (kci_first_open_date item)) (\<lambda>listing.
          Inr (Some ((new_instrument Kucoin symbol base quote settle (kci_status item) tick step)
            \<lparr>in_min_order_quantity := Some step, in_contract_size := Some size, in_contract_size_asset := Some base,
             in_max_leverage := max_leverage, in_listing_time_ms := listing\<rparr>)))))))))))))"

definition parse_kucoin_catalog :: "ext \<Rightarrow> raw_lib \<Rightarrow> string \<Rightarrow> catalog_error + (string, instrument) btree" where
  "parse_kucoin_catalog E J body =
     and_then (catalog_json J (decode_kucoin_catalog J) Kucoin body) (\<lambda>(code, data).
     if code \<noteq> ''200000'' then Inl (InvalidCatalog Kucoin (''endpoint returned code '' @ code))
     else and_then (ok_or (InvalidCatalog Kucoin ''missing data'') data) (insert_items (kucoin_instrument E) []))"

section \<open>MEXC\<close>

record mexc_instrument_item =
  mxi_symbol :: string
  mxi_base_coin :: string
  mxi_quote_coin :: string
  mxi_settle_coin :: string
  mxi_future_type :: int
  mxi_state :: int
  mxi_contract_state :: int
  mxi_pre_market :: bool
  mxi_contract_size :: wire_scalar
  mxi_price_unit :: wire_scalar
  mxi_vol_unit :: wire_scalar
  mxi_min_vol :: "wire_scalar option"
  mxi_max_leverage :: "wire_scalar option"
  mxi_create_time :: "wire_scalar option"
  mxi_opening_time :: "wire_scalar option"

definition decode_mexc_instrument :: "raw_lib \<Rightarrow> string \<Rightarrow> mexc_instrument_item option" where
  "decode_mexc_instrument J t =
     Option.bind (raw_struct J [''symbol'', ''baseCoin'', ''quoteCoin'', ''settleCoin'', ''futureType'', ''state'', ''type'',
       ''preMarket'', ''contractSize'', ''priceUnit'', ''volUnit'', ''minVol'', ''maxLeverage'', ''createTime'',
       ''openingTime''] 11 t) (\<lambda>fs.
     Option.bind (raw_field (raw_string J) fs ''symbol'') (\<lambda>symbol.
     Option.bind (raw_field (raw_string J) fs ''baseCoin'') (\<lambda>base.
     Option.bind (raw_field (raw_string J) fs ''quoteCoin'') (\<lambda>quote.
     Option.bind (raw_field (raw_string J) fs ''settleCoin'') (\<lambda>settle.
     Option.bind (raw_field (raw_int64 J) fs ''futureType'') (\<lambda>future_type.
     Option.bind (raw_field (raw_int64 J) fs ''state'') (\<lambda>state.
     Option.bind (raw_field (raw_int64 J) fs ''type'') (\<lambda>contract_state.
     Option.bind (raw_field_default False (raw_bool J) fs ''preMarket'') (\<lambda>pre_market.
     Option.bind (raw_field (raw_scalar J) fs ''contractSize'') (\<lambda>contract_size.
     Option.bind (raw_field (raw_scalar J) fs ''priceUnit'') (\<lambda>price_unit.
     Option.bind (raw_field (raw_scalar J) fs ''volUnit'') (\<lambda>vol_unit.
     Option.bind (raw_field_opt J (raw_scalar J) fs ''minVol'') (\<lambda>min_vol.
     Option.bind (raw_field_opt J (raw_scalar J) fs ''maxLeverage'') (\<lambda>max_leverage.
     Option.bind (raw_field_opt J (raw_scalar J) fs ''createTime'') (\<lambda>create_time.
     Option.bind (raw_field_opt J (raw_scalar J) fs ''openingTime'') (\<lambda>opening_time.
     Some \<lparr>mxi_symbol = symbol, mxi_base_coin = base, mxi_quote_coin = quote, mxi_settle_coin = settle,
           mxi_future_type = future_type, mxi_state = state, mxi_contract_state = contract_state,
           mxi_pre_market = pre_market, mxi_contract_size = contract_size, mxi_price_unit = price_unit,
           mxi_vol_unit = vol_unit, mxi_min_vol = min_vol, mxi_max_leverage = max_leverage,
           mxi_create_time = create_time, mxi_opening_time = opening_time\<rparr>))))))))))))))))"

definition decode_mexc_catalog :: "raw_lib \<Rightarrow> string \<Rightarrow> (bool \<times> int \<times> mexc_instrument_item list option) option" where
  "decode_mexc_catalog J t =
     Option.bind (raw_struct J [''success'', ''code'', ''data''] 3 t) (\<lambda>fs.
     Option.bind (raw_field (raw_bool J) fs ''success'') (\<lambda>success.
     Option.bind (raw_field (raw_int64 J) fs ''code'') (\<lambda>code.
     Option.bind (raw_field_opt J (raw_one_or_many J (decode_mexc_instrument J)) fs ''data'') (\<lambda>items.
     Some (success, code, items)))))"

definition mexc_instrument :: "ext \<Rightarrow> mexc_instrument_item \<Rightarrow> catalog_error + instrument option" where
  "mexc_instrument E item =
     (if mxi_future_type item \<noteq> 1 \<or> mxi_state item \<noteq> 0 \<or> mxi_contract_state item \<noteq> 1 \<or> mxi_pre_market item
        \<or> mxi_quote_coin item \<noteq> ''USDT'' \<or> mxi_settle_coin item \<noteq> ''USDT'' then Inr None
      else
        and_then (optional_timestamp_ms Mexc ''openingTime'' (mxi_opening_time item)) (\<lambda>opening.
        and_then (optional_timestamp_ms Mexc ''createTime'' (mxi_create_time item)) (\<lambda>created.
        and_then (exact_symbol E Mexc (mxi_symbol item)) (\<lambda>symbol.
        and_then (exact_asset Mexc ''baseCoin'' (mxi_base_coin item)) (\<lambda>base.
        and_then (exact_asset Mexc ''quoteCoin'' (mxi_quote_coin item)) (\<lambda>quote.
        and_then (exact_asset Mexc ''settleCoin'' (mxi_settle_coin item)) (\<lambda>settle.
        and_then (positive_decimal E Mexc ''priceUnit'' (mxi_price_unit item)) (\<lambda>tick.
        and_then (positive_decimal E Mexc ''volUnit'' (mxi_vol_unit item)) (\<lambda>step.
        and_then (optional_positive_decimal E Mexc ''minVol'' (mxi_min_vol item)) (\<lambda>min_qty.
        and_then (positive_decimal E Mexc ''contractSize'' (mxi_contract_size item)) (\<lambda>size.
        and_then (optional_positive_decimal E Mexc ''maxLeverage'' (mxi_max_leverage item)) (\<lambda>max_leverage.
        Inr (Some ((new_instrument Mexc symbol base quote settle
            (''state='' @ show_int (mxi_state item) @ '',type='' @ show_int (mxi_contract_state item)) tick step)
          \<lparr>in_min_order_quantity := min_qty, in_contract_size := Some size, in_contract_size_asset := Some base,
           in_max_leverage := max_leverage, in_listing_time_ms := or_else opening created\<rparr>))))))))))))))"

definition parse_mexc_catalog :: "ext \<Rightarrow> raw_lib \<Rightarrow> string \<Rightarrow> catalog_error + (string, instrument) btree" where
  "parse_mexc_catalog E J body =
     and_then (catalog_json J (decode_mexc_catalog J) Mexc body) (\<lambda>(success, code, data).
     if \<not> success \<or> code \<noteq> 0
     then Inl (InvalidCatalog Mexc (''endpoint returned success='' @ (if success then ''true'' else ''false'')
       @ '' code='' @ show_int code))
     else and_then (ok_or (InvalidCatalog Mexc ''missing data'') data) (insert_items (mexc_instrument E) []))"

section \<open>BingX\<close>

record bingx_instrument_item =
  bxi_symbol :: string
  bxi_asset :: string
  bxi_currency :: string
  bxi_status :: int
  bxi_api_state_open :: string
  bxi_size :: wire_scalar
  bxi_price_precision :: nat
  bxi_quantity_precision :: nat
  bxi_trade_min_quantity :: "wire_scalar option"
  bxi_trade_min_usdt :: "wire_scalar option"
  bxi_max_long_leverage :: "wire_scalar option"
  bxi_max_short_leverage :: "wire_scalar option"
  bxi_launch_time :: u64
  bxi_off_time :: u64

definition decode_bingx_instrument :: "raw_lib \<Rightarrow> string \<Rightarrow> bingx_instrument_item option" where
  "decode_bingx_instrument J t =
     Option.bind (raw_struct J [''symbol'', ''asset'', ''currency'', ''status'', ''apiStateOpen'', ''size'', ''pricePrecision'',
       ''quantityPrecision'', ''tradeMinQuantity'', ''tradeMinUSDT'', ''maxLongLeverage'', ''maxShortLeverage'',
       ''launchTime'', ''offTime''] 8 t) (\<lambda>fs.
     Option.bind (raw_field (raw_string J) fs ''symbol'') (\<lambda>symbol.
     Option.bind (raw_field (raw_string J) fs ''asset'') (\<lambda>asset.
     Option.bind (raw_field (raw_string J) fs ''currency'') (\<lambda>currency.
     Option.bind (raw_field (raw_int64 J) fs ''status'') (\<lambda>status.
     Option.bind (raw_field (raw_string J) fs ''apiStateOpen'') (\<lambda>api_state_open.
     Option.bind (raw_field (raw_scalar J) fs ''size'') (\<lambda>size.
     Option.bind (raw_field (raw_u32 J) fs ''pricePrecision'') (\<lambda>price_precision.
     Option.bind (raw_field (raw_u32 J) fs ''quantityPrecision'') (\<lambda>quantity_precision.
     Option.bind (raw_field_opt J (raw_scalar J) fs ''tradeMinQuantity'') (\<lambda>min_quantity.
     Option.bind (raw_field_opt J (raw_scalar J) fs ''tradeMinUSDT'') (\<lambda>min_usdt.
     Option.bind (raw_field_opt J (raw_scalar J) fs ''maxLongLeverage'') (\<lambda>max_long.
     Option.bind (raw_field_opt J (raw_scalar J) fs ''maxShortLeverage'') (\<lambda>max_short.
     Option.bind (raw_field_default 0 (raw_word64 J) fs ''launchTime'') (\<lambda>launch_time.
     Option.bind (raw_field_default 0 (raw_word64 J) fs ''offTime'') (\<lambda>off_time.
     Some \<lparr>bxi_symbol = symbol, bxi_asset = asset, bxi_currency = currency, bxi_status = status,
           bxi_api_state_open = api_state_open, bxi_size = size, bxi_price_precision = price_precision,
           bxi_quantity_precision = quantity_precision, bxi_trade_min_quantity = min_quantity,
           bxi_trade_min_usdt = min_usdt, bxi_max_long_leverage = max_long, bxi_max_short_leverage = max_short,
           bxi_launch_time = launch_time, bxi_off_time = off_time\<rparr>)))))))))))))))"

definition decode_bingx_catalog :: "raw_lib \<Rightarrow> string \<Rightarrow> (int \<times> string \<times> bingx_instrument_item list) option" where
  "decode_bingx_catalog J t =
     Option.bind (raw_struct J [''code'', ''msg'', ''data''] 3 t) (\<lambda>fs.
     Option.bind (raw_field (raw_int64 J) fs ''code'') (\<lambda>code.
     Option.bind (raw_field_default [] (raw_string J) fs ''msg'') (\<lambda>msg.
     Option.bind (raw_field (raw_list J (decode_bingx_instrument J)) fs ''data'') (\<lambda>items.
     Some (code, msg, items)))))"

definition bingx_max_leverage ::
  "ext \<Rightarrow> decimal_value option \<Rightarrow> decimal_value option \<Rightarrow> catalog_error + decimal_value option" where
  "bingx_max_leverage E max_long max_short = (case (max_long, max_short) of
     (Some long, Some short) \<Rightarrow>
       and_then (ok_or (InvalidCatalog Bingx ''maxLongLeverage is not a decimal'') (dec_from_str E (as_str long))) (\<lambda>long_value.
       and_then (ok_or (InvalidCatalog Bingx ''maxShortLeverage is not a decimal'') (dec_from_str E (as_str short))) (\<lambda>short_value.
       Inr (Some (if dec_value long_value \<le> dec_value short_value then long else short))))
   | (Some v, None) \<Rightarrow> Inr (Some v)
   | (None, Some v) \<Rightarrow> Inr (Some v)
   | (None, None) \<Rightarrow> Inr None)"

definition bingx_instrument :: "ext \<Rightarrow> bingx_instrument_item \<Rightarrow> catalog_error + instrument option" where
  "bingx_instrument E item =
     (if bxi_status item \<noteq> 1 \<or> bxi_api_state_open item \<noteq> ''true''
        \<or> \<not> (bxi_currency item = ''USDT'' \<or> bxi_currency item = ''USDC'') then Inr None
      else
        and_then (exact_symbol E Bingx (bxi_symbol item)) (\<lambda>symbol.
        and_then (exact_asset Bingx ''asset'' (bxi_asset item)) (\<lambda>base.
        and_then (exact_asset Bingx ''currency'' (bxi_currency item)) (\<lambda>quote.
        and_then (optional_positive_decimal E Bingx ''maxLongLeverage'' (bxi_max_long_leverage item)) (\<lambda>max_long.
        and_then (optional_positive_decimal E Bingx ''maxShortLeverage'' (bxi_max_short_leverage item)) (\<lambda>max_short.
        and_then (bingx_max_leverage E max_long max_short) (\<lambda>max_leverage.
        and_then (precision_step E Bingx ''pricePrecision'' (bxi_price_precision item)) (\<lambda>tick.
        and_then (precision_step E Bingx ''quantityPrecision'' (bxi_quantity_precision item)) (\<lambda>step.
        and_then (optional_positive_decimal E Bingx ''tradeMinQuantity'' (bxi_trade_min_quantity item)) (\<lambda>min_qty.
        and_then (optional_positive_decimal E Bingx ''tradeMinUSDT'' (bxi_trade_min_usdt item)) (\<lambda>min_notional.
        and_then (positive_decimal E Bingx ''size'' (bxi_size item)) (\<lambda>size.
        Inr (Some ((new_instrument Bingx symbol base quote quote (show_int (bxi_status item)) tick step)
          \<lparr>in_min_order_quantity := min_qty, in_min_notional := min_notional, in_contract_size := Some size,
           in_contract_size_asset := Some base, in_max_leverage := max_leverage,
           in_listing_time_ms := (if bxi_launch_time item \<noteq> 0 then Some (bxi_launch_time item) else None),
           in_expiry_time_ms := (if bxi_off_time item \<noteq> 0 then Some (bxi_off_time item) else None)\<rparr>))))))))))))))"

definition parse_bingx_catalog :: "ext \<Rightarrow> raw_lib \<Rightarrow> string \<Rightarrow> catalog_error + (string, instrument) btree" where
  "parse_bingx_catalog E J body =
     and_then (catalog_json J (decode_bingx_catalog J) Bingx body) (\<lambda>(code, msg, items).
     if code \<noteq> 0 then Inl (InvalidCatalog Bingx (''endpoint returned code '' @ show_int code @ '': '' @ msg))
     else insert_items (bingx_instrument E) [] items)"

section \<open>Lemmas\<close>

lemma set_somes [simp]: "x \<in> set (somes rs) \<longleftrightarrow> Some x \<in> set rs"
  by (induction rs rule: somes.induct) auto

subsection \<open>Ordered maps\<close>

definition btree_ok :: "('k :: linorder, 'v) btree \<Rightarrow> bool" where
  "btree_ok m \<longleftrightarrow> sorted_wrt (<) (map fst m)"

lemma map_of_btree_insert: "map_of (btree_insert k v m) = (map_of m)(k \<mapsto> v)"
  if "btree_ok m" for m :: "('k :: linorder, 'v) btree"
  using that by (induction k v m rule: btree_insert.induct) (auto simp: btree_ok_def fun_eq_iff map_of_eq_None_iff)

lemma set_btree_insert: "set (map fst (btree_insert k v m)) = insert k (set (map fst m))"
  by (induction k v m rule: btree_insert.induct) auto

lemma btree_insert_ok: "btree_ok m \<Longrightarrow> btree_ok (btree_insert k v m)"
proof (induction k v m rule: btree_insert.induct)
  case (2 k v j w rest)
  then show ?case
    using set_btree_insert [of k v rest] by (auto simp: btree_ok_def)
qed (simp add: btree_ok_def)

text \<open>
  What the catalog needs of its maps: a lookup after an insertion, and that insertion keeps the
  representation. From these, a run of guarded insertions stores exactly the inserted values.
\<close>

locale keyed_store =
  fixes lookup :: "'m \<Rightarrow> 'k \<Rightarrow> 'v option" and insert :: "'k \<Rightarrow> 'v \<Rightarrow> 'm \<Rightarrow> 'm" and ok :: "'m \<Rightarrow> bool"
  assumes lookup_insert: "ok m \<Longrightarrow> lookup (insert k v m) = (lookup m)(k \<mapsto> v)"
    and insert_ok: "ok m \<Longrightarrow> ok (insert k v m)"
begin

lemma fold_insert:
  assumes "ok m" and "distinct (map key vs)" and "\<And>v. v \<in> set vs \<Longrightarrow> lookup m (key v) = None"
  shows "ok (fold (\<lambda>v. insert (key v) v) vs m) \<and>
    lookup (fold (\<lambda>v. insert (key v) v) vs m) = lookup m ++ map_of (map (\<lambda>v. (key v, v)) vs)"
  using assms
proof (induction vs arbitrary: m)
  case (Cons v vs)
  note upd = lookup_insert [OF Cons.prems(1), of "key v" v]
  have "lookup (insert (key v) v m) (key u) = None" if "u \<in> set vs" for u
    using Cons.prems that unfolding upd by auto (metis imageI)
  then have "ok (fold (\<lambda>v. insert (key v) v) vs (insert (key v) v m)) \<and>
    lookup (fold (\<lambda>v. insert (key v) v) vs (insert (key v) v m)) =
       lookup (insert (key v) v m) ++ map_of (map (\<lambda>v. (key v, v)) vs)"
    using Cons.prems by (intro Cons.IH insert_ok) auto
  moreover have "key v \<notin> dom (map_of (map (\<lambda>v. (key v, v)) vs))"
    using Cons.prems(2) by (auto dest!: map_of_SomeD)
  ultimately show ?case unfolding upd by (auto simp: map_add_def fun_eq_iff split: option.split)
qed simp

end

interpretation btm: keyed_store "map_of :: (string, instrument) btree \<Rightarrow> string \<Rightarrow> instrument option" btree_insert btree_ok
  by unfold_locales (auto simp: map_of_btree_insert btree_insert_ok)

subsection \<open>Sound instruments\<close>

text \<open>
  Documented behaviour of the decimal library: a decimal has a 96-bit mantissa and at most 28 digits
  after the point, and a positive one is printed as a text that reads as a positive decimal.
\<close>

definition valid_decimal :: "decimal \<Rightarrow> bool" where
  "valid_decimal d \<longleftrightarrow> \<bar>mantissa d\<bar> < 2 ^ 96 \<and> scale d \<le> MAX_SCALE"

definition decimal_printing :: "ext \<Rightarrow> bool" where
  "decimal_printing E \<longleftrightarrow>
     (\<forall>t d. dec_from_scientific E t = Some d \<longrightarrow> valid_decimal d) \<and>
     (\<forall>d. valid_decimal d \<and> 0 < dec_value d \<longrightarrow>
        (\<exists>d'. dec_from_str E (dec_to_string E d) = Some d' \<and> 0 < dec_value d'))"

definition positive_value :: "ext \<Rightarrow> decimal_value \<Rightarrow> bool" where
  "positive_value E v \<longleftrightarrow> (\<exists>d. dec_from_str E (as_str v) = Some d \<and> 0 < dec_value d)"

definition sound_instrument :: "ext \<Rightarrow> provider \<Rightarrow> instrument \<Rightarrow> bool" where
  "sound_instrument E p i \<longleftrightarrow>
     in_provider i = p \<and> in_instrument_id i = catalog_instrument_id p (in_symbol i) \<and>
     normalize_symbol E (in_symbol i) = Inr (in_symbol i) \<and>
     in_base_asset i \<noteq> [] \<and> in_quote_asset i \<noteq> [] \<and> in_settle_asset i \<noteq> [] \<and>
     positive_value E (in_tick_size i) \<and> positive_value E (in_quantity_step i) \<and>
     (\<forall>v \<in> set_option (in_contract_size i) \<union> set_option (in_min_order_quantity i) \<union>
        set_option (in_min_notional i). positive_value E v) \<and>
     in_capabilities i = capabilities p"

lemma positive_decimal_positive:
  assumes "decimal_printing E" and "positive_decimal E p field s = Inr v"
  shows "positive_value E v"
proof -
  from assms(2) obtain d where d: "(case dec_from_str E (wire_text s) of Some d \<Rightarrow> Some d | None \<Rightarrow> dec_from_scientific E (wire_text s)) = Some d"
    and pos: "0 < dec_value d"
    and v: "(case new_decimal_value E (wire_text s) of Inr v \<Rightarrow> Inr v
       | Inl _ \<Rightarrow> map_err (\<lambda>_. InvalidCatalog p (field @ '' is not a decimal: '' @ wire_text s)) (new_decimal_value E (dec_to_string E d))) = Inr v"
    by (auto simp: positive_decimal_def Let_def and_then_Inr ok_or_Inr not_le simp del: append_Cons split: if_split_asm)
  show ?thesis
  proof (cases "dec_from_str E (wire_text s)")
    case (Some d')
    with d pos v show ?thesis by (auto simp: new_decimal_value_def positive_value_def)
  next
    case None
    with d have "valid_decimal d" using assms(1) by (auto simp: decimal_printing_def)
    then obtain d' where "dec_from_str E (dec_to_string E d) = Some d'" "0 < dec_value d'"
      using assms(1) pos by (auto simp: decimal_printing_def)
    with None v show ?thesis by (auto simp: new_decimal_value_def positive_value_def)
  qed
qed

lemma optional_positive_decimal_positive:
  "decimal_printing E \<Longrightarrow> optional_positive_decimal E p field s = Inr r \<Longrightarrow> v \<in> set_option r \<Longrightarrow> positive_value E v"
  by (auto simp: optional_positive_decimal_def and_then_Inr intro: positive_decimal_positive split: option.split_asm if_split_asm)

lemma precision_step_positive:
  assumes "decimal_printing E" and "precision_step E p field n = Inr v"
  shows "positive_value E v"
proof -
  have "n \<le> MAX_SCALE" using assms(2) by (rule contrapos_pp) (simp add: precision_step_def)
  then have "valid_decimal (Decimal 1 n)" "0 < dec_value (Decimal 1 n)" by (simp_all add: valid_decimal_def dec_value_def)
  with assms(1) obtain d where "dec_from_str E (dec_to_string E (Decimal 1 n)) = Some d" "0 < dec_value d"
    by (auto simp: decimal_printing_def)
  with assms(2) \<open>n \<le> MAX_SCALE\<close> show ?thesis
    by (auto simp: precision_step_def new_decimal_value_def positive_value_def)
qed

lemma filter_decimals_positive:
  "decimal_printing E \<Longrightarrow> unique_filter_decimal E p fs ty field g = Inr v \<Longrightarrow> positive_value E v"
  "decimal_printing E \<Longrightarrow> optional_unique_filter_decimal E p fs ty field g = Inr r \<Longrightarrow> v \<in> set_option r \<Longrightarrow> positive_value E v"
  by (auto simp: unique_filter_decimal_def optional_unique_filter_decimal_def Let_def and_then_Inr transpose_opt_Inr
      intro: positive_decimal_positive split: if_split_asm list.split_asm)

lemma exact_symbol_Inr: "exact_symbol E p s = Inr t \<longleftrightarrow> t = s \<and> normalize_symbol E s = Inr s"
  by (auto simp: exact_symbol_def and_then_Inr map_err_Inr)

lemma exact_asset_Inr: "exact_asset p field s = Inr t \<Longrightarrow> t = s \<and> t \<noteq> []"
  by (auto simp: exact_asset_def split: if_split_asm)

lemma opt_positive:
  "decimal_printing E \<Longrightarrow> optional_positive_decimal E p field s = Inr (Some v) \<Longrightarrow> positive_value E v"
  "decimal_printing E \<Longrightarrow> optional_unique_filter_decimal E p fs ty f g = Inr (Some v) \<Longrightarrow> positive_value E v"
  using optional_positive_decimal_positive filter_decimals_positive(2) by fastforce+

lemmas positive_rules = positive_decimal_positive opt_positive precision_step_positive filter_decimals_positive(1)

lemma okx_underlying_assets_Inr: "okx_underlying_assets item = Inr (b, q) \<Longrightarrow> b \<noteq> [] \<and> q \<noteq> []"
  by (auto simp: okx_underlying_assets_def Let_def and_then_Inr dest!: exact_asset_Inr split: if_split_asm prod.split_asm)

lemma and_then_InrE: "and_then r f = Inr y \<Longrightarrow> (\<And>x. r = Inr x \<Longrightarrow> f x = Inr y \<Longrightarrow> thesis) \<Longrightarrow> thesis"
  by (auto simp: and_then_Inr)

lemma skip_InrE: "(if P then Inr None else r) = Inr (Some i) \<Longrightarrow> (r = Inr (Some i) \<Longrightarrow> thesis) \<Longrightarrow> thesis"
  by (simp split: if_split_asm)

lemmas item_elims = skip_InrE and_then_InrE

lemmas item_simps = new_instrument_def sound_instrument_def exact_symbol_Inr

lemma bybit_instrument_sound:
  assumes "decimal_printing E" "bybit_instrument E item = Inr (Some i)"
  shows "sound_instrument E Bybit i"
  using assms(2) unfolding bybit_instrument_def
  by (elim item_elims) (auto simp: item_simps dest!: exact_asset_Inr intro: positive_rules [OF assms(1)])

lemma binance_instrument_sound:
  assumes "decimal_printing E" "binance_instrument E item = Inr (Some i)"
  shows "sound_instrument E Binance i"
  using assms(2) unfolding binance_instrument_def
  by (elim item_elims) (auto simp: item_simps dest!: exact_asset_Inr intro: positive_rules [OF assms(1)])

lemma okx_instrument_sound:
  assumes "decimal_printing E" "okx_instrument E item = Inr (Some i)"
  shows "sound_instrument E Okx i"
proof -
  from assms(2) obtain db dq where assets: "okx_underlying_assets item = Inr (db, dq)"
    unfolding okx_instrument_def by (elim item_elims) auto
  have assetI: "x \<noteq> []" if "(if c = [] then Inr d else exact_asset Okx f c) = Inr x" "d \<noteq> []" for x c d f
    using that by (auto dest!: exact_asset_Inr split: if_split_asm)
  from assms(2) okx_underlying_assets_Inr [OF assets] show ?thesis
    unfolding okx_instrument_def assets and_then_simps prod.case
    by (elim item_elims)
      (auto simp: item_simps dest!: exact_asset_Inr intro: positive_rules [OF assms(1)] dest: assetI)
qed

lemma kucoin_instrument_sound:
  assumes "decimal_printing E" "kucoin_instrument E item = Inr (Some i)"
  shows "sound_instrument E Kucoin i"
  using assms(2) unfolding kucoin_instrument_def
  by (elim item_elims) (auto simp: item_simps dest!: exact_asset_Inr intro: positive_rules [OF assms(1)])

lemma mexc_instrument_sound:
  assumes "decimal_printing E" "mexc_instrument E item = Inr (Some i)"
  shows "sound_instrument E Mexc i"
  using assms(2) unfolding mexc_instrument_def
  by (elim item_elims) (auto simp: item_simps dest!: exact_asset_Inr intro: positive_rules [OF assms(1)])

lemma bingx_instrument_sound:
  assumes "decimal_printing E" "bingx_instrument E item = Inr (Some i)"
  shows "sound_instrument E Bingx i"
  using assms(2) unfolding bingx_instrument_def
  by (elim item_elims) (auto simp: item_simps dest!: exact_asset_Inr intro: positive_rules [OF assms(1)])

lemmas instruments_sound = bybit_instrument_sound binance_instrument_sound okx_instrument_sound
  kucoin_instrument_sound mexc_instrument_sound bingx_instrument_sound

subsection \<open>Parsed maps\<close>

definition sound_snapshot :: "ext \<Rightarrow> provider \<Rightarrow> (string, instrument) btree \<Rightarrow> bool" where
  "sound_snapshot E p m \<longleftrightarrow> btree_ok m \<and> (\<forall>(s, i) \<in> set m. in_symbol i = s \<and> sound_instrument E p i)"

lemma sound_snapshot_Nil [simp]: "sound_snapshot E p []"
  by (simp add: sound_snapshot_def btree_ok_def)

lemma set_btree_insert_sub: "set (btree_insert k v m) \<subseteq> insert (k, v) (set m)"
  by (induction k v m rule: btree_insert.induct) auto

lemma insert_unique_sound:
  "insert_unique m i = Inr m' \<Longrightarrow> sound_snapshot E p m \<Longrightarrow> sound_instrument E p i \<Longrightarrow> sound_snapshot E p m'"
  using set_btree_insert_sub [of "in_symbol i" i m]
  by (auto simp: insert_unique_def sound_snapshot_def btree_insert_ok split: if_split_asm)

lemma insert_items_sound:
  assumes "\<And>x i. f x = Inr (Some i) \<Longrightarrow> sound_instrument E p i"
  shows "insert_items f m xs = Inr m' \<Longrightarrow> sound_snapshot E p m \<Longrightarrow> sound_snapshot E p m'"
proof (induction xs arbitrary: m)
  case (Cons x xs)
  from Cons.prems(1) obtain r where r: "f x = Inr r"
    and rest: "(case r of None \<Rightarrow> insert_items f m xs | Some i \<Rightarrow> and_then (insert_unique m i) (\<lambda>m'. insert_items f m' xs)) = Inr m'"
    by (auto simp: and_then_Inr)
  show ?case
  proof (cases r)
    case None
    with rest Cons show ?thesis by simp
  next
    case (Some i)
    with rest obtain m1 where "insert_unique m i = Inr m1" "insert_items f m1 xs = Inr m'" by (auto simp: and_then_Inr)
    with Cons.IH [of m1] insert_unique_sound assms r Some Cons.prems(2) show ?thesis by blast
  qed
qed simp

lemma parse_catalogs_sound:
  assumes "decimal_printing E"
  shows "parse_binance_catalog E J b = Inr m \<Longrightarrow> sound_snapshot E Binance m"
    "parse_okx_catalog E J b = Inr m \<Longrightarrow> sound_snapshot E Okx m"
    "parse_kucoin_catalog E J b = Inr m \<Longrightarrow> sound_snapshot E Kucoin m"
    "parse_mexc_catalog E J b = Inr m \<Longrightarrow> sound_snapshot E Mexc m"
    "parse_bingx_catalog E J b = Inr m \<Longrightarrow> sound_snapshot E Bingx m"
  unfolding parse_binance_catalog_def parse_okx_catalog_def parse_kucoin_catalog_def parse_mexc_catalog_def parse_bingx_catalog_def
  by (auto simp: and_then_Inr elim!: insert_items_sound [rotated] intro: instruments_sound [OF assms]
      split: if_split_asm prod.split_asm)

lemma parse_bybit_page_sound:
  assumes "decimal_printing E" and "parse_bybit_page E J b = Inr pg"
  shows "list_all (sound_instrument E Bybit) (byp_instruments pg)"
proof -
  from assms(2) obtain items rs where rs: "collect_results (bybit_instrument E) items = Inr rs"
    and pg: "byp_instruments pg = somes rs"
    by (auto simp: parse_bybit_page_def collect_some_def and_then_Inr split: if_split_asm prod.split_asm)
  have "sound_instrument E Bybit i" if "Some i \<in> set rs" for i
    using that rs instruments_sound(1) [OF assms(1)] by (auto simp: collect_results_Inr list_all2_conv_all_nth in_set_conv_nth)
  then show ?thesis unfolding pg by (auto simp: list_all_iff)
qed

text \<open>A parsed map holds exactly the accepted entries, each under its symbol.\<close>

lemma insert_items_run:
  "insert_items f m xs = Inr m' \<Longrightarrow> btree_ok m \<Longrightarrow> \<exists>rs. collect_results f xs = Inr rs \<and>
     distinct (map in_symbol (somes rs)) \<and>
     (\<forall>i \<in> set (somes rs). map_of m (in_symbol i) = None) \<and>
     m' = fold (\<lambda>i. btree_insert (in_symbol i) i) (somes rs) m"
proof (induction xs arbitrary: m)
  case Nil
  then show ?case by simp
next
  case (Cons x xs)
  from Cons.prems(1) obtain r where r: "f x = Inr r"
    and rest: "(case r of None \<Rightarrow> insert_items f m xs | Some i \<Rightarrow> and_then (insert_unique m i) (\<lambda>m'. insert_items f m' xs)) = Inr m'"
    by (auto simp: and_then_Inr)
  show ?case
  proof (cases r)
    case None
    with rest Cons.IH [of m] Cons.prems(2) r show ?thesis by auto
  next
    case (Some i)
    with rest obtain m1 where ins: "insert_unique m i = Inr m1" and run: "insert_items f m1 xs = Inr m'"
      by (auto simp: and_then_Inr)
    then have m1: "m1 = btree_insert (in_symbol i) i m" "map_of m (in_symbol i) = None"
      by (auto simp: insert_unique_def split: if_split_asm)
    then have "btree_ok m1" using Cons.prems(2) by (simp add: btree_insert_ok)
    with Cons.IH [OF run] obtain rs where rs: "collect_results f xs = Inr rs"
      "distinct (map in_symbol (somes rs))"
      "\<forall>j \<in> set (somes rs). map_of m1 (in_symbol j) = None"
      "m' = fold (\<lambda>i. btree_insert (in_symbol i) i) (somes rs) m1" by blast
    have fresh: "in_symbol j \<noteq> in_symbol i \<and> map_of m (in_symbol j) = None" if "j \<in> set (somes rs)" for j
      using rs(3) that unfolding m1(1) map_of_btree_insert [OF Cons.prems(2)] by (auto split: if_split_asm)
    then have "in_symbol i \<notin> in_symbol ` set (somes rs)" by force
    with rs(1,2,4) r Some m1 fresh show ?thesis by (intro exI [of _ "Some i # rs"]) auto
  qed
qed

lemma insert_items_exact:
  assumes "insert_items f [] xs = Inr m"
  shows "map_of m s = Some i \<longleftrightarrow> in_symbol i = s \<and> (\<exists>x \<in> set xs. f x = Inr (Some i))"
proof -
  from insert_items_run [OF assms] obtain rs where rs: "collect_results f xs = Inr rs"
    and distinct: "distinct (map in_symbol (somes rs))"
    and m: "m = fold (\<lambda>i. btree_insert (in_symbol i) i) (somes rs) []"
    by (auto simp: btree_ok_def)
  have "map_of m = map_of (map (\<lambda>i. (in_symbol i, i)) (somes rs))"
    using btm.fold_insert [of "[]" in_symbol "somes rs"] distinct by (simp add: m btree_ok_def)
  moreover have "Some i \<in> set rs \<longleftrightarrow> (\<exists>x \<in> set xs. f x = Inr (Some i))"
    using rs by (force simp: collect_results_Inr list_all2_conv_all_nth in_set_conv_nth)
  ultimately show ?thesis
    using distinct by (auto simp: map_of_eq_Some_iff comp_def)
qed

end
