(* ===== verification/Catalog.thy ===== *)
theory Catalog
  imports Instruments
begin

text \<open>
  The instrument catalog (\<open>Catalog\<close> in \<^verbatim>\<open>src/src/catalog.rs\<close>): one snapshot per provider with its
  refresh status, the queries, and the refresh that replaces one provider's whole snapshot or keeps
  it. A refresh fetches without touching the shared state and commits its outcome in one step under
  the write lock, so concurrent refreshes are sequences of commits. The HTTP client, the clock
  readings and the JSON readers are parameters.
\<close>

section \<open>State\<close>

definition BYBIT_CATALOG_PAGE_LIMIT :: string where
  "BYBIT_CATALOG_PAGE_LIMIT = ''1000''"

definition BYBIT_MAX_PAGES :: usize where
  "BYBIT_MAX_PAGES = 10000"

definition MAX_CATALOG_RESPONSE_BYTES :: usize where
  "MAX_CATALOG_RESPONSE_BYTES = 8 * 1024 * 1024"

record catalog_sources =
  cs_bybit :: rest_url
  cs_binance :: rest_url
  cs_okx :: rest_url
  cs_kucoin :: rest_url
  cs_mexc :: rest_url
  cs_bingx :: rest_url
  cs_enabled_providers :: "provider set"

fun catalog_endpoint :: "catalog_sources \<Rightarrow> provider \<Rightarrow> rest_url" where
  "catalog_endpoint s Bybit = cs_bybit s"
| "catalog_endpoint s Binance = cs_binance s"
| "catalog_endpoint s Okx = cs_okx s"
| "catalog_endpoint s Kucoin = cs_kucoin s"
| "catalog_endpoint s Mexc = cs_mexc s"
| "catalog_endpoint s Bingx = cs_bingx s"

definition is_enabled :: "catalog_sources \<Rightarrow> provider \<Rightarrow> bool" where
  "is_enabled s p \<longleftrightarrow> p \<in> cs_enabled_providers s"

definition default_catalog_sources :: catalog_sources where
  "default_catalog_sources = \<lparr>
     cs_bybit = (''https://api.bybit.com/v5/market/instruments-info'', []),
     cs_binance = (''https://fapi.binance.com/fapi/v1/exchangeInfo'', []),
     cs_okx = (''https://www.okx.com/api/v5/public/instruments'', []),
     cs_kucoin = (''https://api-futures.kucoin.com/api/v1/contracts/active'', []),
     cs_mexc = (''https://api.mexc.com/api/v1/contract/detail/country'', []),
     cs_bingx = (''https://open-api.bingx.com/openApi/swap/v2/quote/contracts'', []),
     cs_enabled_providers = set all_providers\<rparr>"

record provider_catalog_status =
  pcs_provider :: provider
  pcs_enabled :: bool
  pcs_instrument_count :: usize
  pcs_last_attempt_at_ms :: "u64 option"
  pcs_last_success_at_ms :: "u64 option"
  pcs_last_error :: "string option"

record refresh_outcome =
  ro_provider :: provider
  ro_instrument_count :: usize
  ro_refreshed_at_ms :: u64

record provider_snapshot =
  ps_instruments :: "(string, instrument) btree"
  ps_status :: provider_catalog_status

type_synonym catalog_state = "provider \<rightharpoonup> provider_snapshot"

type_synonym 'h catalog_send = "'h \<Rightarrow> rest_url \<Rightarrow> 'h \<times> (string + nat \<times> u64 option \<times> (string + string) list)"

record 'h catalog =
  ca_sources :: catalog_sources
  ca_send :: "'h catalog_send"
  ca_json :: raw_lib
  ca_ext :: ext

definition new_catalog :: "catalog_sources \<Rightarrow> catalog_state" where
  "new_catalog sources p = Some \<lparr>ps_instruments = [],
     ps_status = \<lparr>pcs_provider = p, pcs_enabled = is_enabled sources p, pcs_instrument_count = 0,
       pcs_last_attempt_at_ms = None, pcs_last_success_at_ms = None, pcs_last_error = None\<rparr>\<rparr>"

section \<open>Queries\<close>

record catalog_filter =
  fl_provider :: "provider option"
  fl_market :: "market_kind option"
  fl_symbol :: "string option"
  fl_base_asset :: "string option"
  fl_quote_asset :: "string option"
  fl_settle_asset :: "string option"

definition default_filter :: catalog_filter where
  "default_filter = \<lparr>fl_provider = None, fl_market = None, fl_symbol = None, fl_base_asset = None,
     fl_quote_asset = None, fl_settle_asset = None\<rparr>"

definition matches_optional :: "string option \<Rightarrow> string \<Rightarrow> bool" where
  "matches_optional expected actual = (case expected of None \<Rightarrow> True | Some e \<Rightarrow> eq_ignore_ascii_case e actual)"

definition filter_matches :: "catalog_filter \<Rightarrow> instrument \<Rightarrow> bool" where
  "filter_matches f i \<longleftrightarrow>
     (case fl_provider f of None \<Rightarrow> True | Some p \<Rightarrow> in_provider i = p) \<and>
     (case fl_market f of None \<Rightarrow> True | Some m \<Rightarrow> in_market i = m) \<and>
     matches_optional (fl_symbol f) (in_symbol i) \<and>
     matches_optional (fl_base_asset f) (in_base_asset i) \<and>
     matches_optional (fl_quote_asset f) (in_quote_asset i) \<and>
     matches_optional (fl_settle_asset f) (in_settle_asset i)"

text \<open>The snapshots in the order of their providers; instruments in the order of their symbols.\<close>

definition snapshots :: "catalog_state \<Rightarrow> provider_snapshot list" where
  "snapshots s = somes (map s all_providers)"

definition all_instruments :: "catalog_state \<Rightarrow> instrument list" where
  "all_instruments s = concat (map (\<lambda>n. map snd (ps_instruments n)) (snapshots s))"

definition catalog_filtered :: "catalog_state \<Rightarrow> catalog_filter \<Rightarrow> instrument list" where
  "catalog_filtered s f = filter (filter_matches f) (all_instruments s)"

definition catalog_list :: "catalog_state \<Rightarrow> instrument list" where
  "catalog_list s = catalog_filtered s default_filter"

definition catalog_get :: "ext \<Rightarrow> catalog_state \<Rightarrow> provider \<Rightarrow> market_kind \<Rightarrow> string \<Rightarrow> instrument option" where
  "catalog_get E s p m symbol =
     (if m \<noteq> LinearPerpetual then None
      else let symbol' = trim symbol
        in Option.bind (s p) (\<lambda>n.
           case map_of (ps_instruments n) symbol' of
             Some i \<Rightarrow> Some i
           | None \<Rightarrow> (case normalize_symbol E symbol' of
               Inl _ \<Rightarrow> None
             | Inr normalized \<Rightarrow> map_of (ps_instruments n) normalized)))"

definition get_by_id :: "catalog_state \<Rightarrow> string \<Rightarrow> instrument option" where
  "get_by_id s ident = find (\<lambda>i. in_instrument_id i = ident) (all_instruments s)"

text \<open>Indexing a missing provider panics, which is \<open>None\<close>.\<close>

definition catalog_status :: "catalog_state \<Rightarrow> provider \<Rightarrow> provider_catalog_status option" where
  "catalog_status s p = map_option ps_status (s p)"

definition catalog_statuses :: "catalog_state \<Rightarrow> provider_catalog_status list" where
  "catalog_statuses s = map ps_status (snapshots s)"

definition validate_subscription ::
  "ext \<Rightarrow> catalog_sources \<Rightarrow> catalog_state \<Rightarrow> sub_key \<Rightarrow> catalog_error + instrument" where
  "validate_subscription E sources s k =
     (if \<not> is_enabled sources (key_provider k) then Inl (ProviderDisabled (key_provider k))
      else
        and_then (ok_or (InstrumentUnavailable (key_provider k) (key_market k) (key_symbol k))
          (catalog_get E s (key_provider k) (key_market k) (key_symbol k))) (\<lambda>i.
        if \<not> supports (in_capabilities i) (key_channel k)
        then Inl (UnsupportedChannel (key_provider k) (key_market k) (key_symbol k) (key_channel k))
        else Inr i))"

section \<open>Fetching\<close>

definition oversized :: "provider \<Rightarrow> catalog_error" where
  "oversized p = InvalidCatalog p (''response exceeds the '' @ show_nat MAX_CATALOG_RESPONSE_BYTES @ '' byte limit'')"

fun read_chunks :: "provider \<Rightarrow> string \<Rightarrow> (string + string) list \<Rightarrow> catalog_error + string" where
  "read_chunks p body [] = Inr body"
| "read_chunks p body (Inl e # rest) = Inl (CatalogRequest p (''could not read response body: '' @ e))"
| "read_chunks p body (Inr chunk # rest) =
     (if usize_saturating_add (length body) (length chunk) > MAX_CATALOG_RESPONSE_BYTES then Inl (oversized p)
      else read_chunks p (body @ chunk) rest)"

definition get_body :: "'h catalog \<Rightarrow> provider \<Rightarrow> rest_url \<Rightarrow> ('h, catalog_error, string) query" where
  "get_body C p url h = (case ca_send C h url of
     (h', Inl e) \<Rightarrow> (h', Inl (CatalogRequest p e))
   | (h', Inr (status, content_length, chunks)) \<Rightarrow>
       (h', if \<not> is_success status then Inl (CatalogHttpStatus p status)
            else if (case content_length of Some n \<Rightarrow> unat n > MAX_CATALOG_RESPONSE_BYTES | None \<Rightarrow> False)
            then Inl (oversized p)
            else and_then (read_chunks p [] chunks) (\<lambda>body.
              ok_or (InvalidCatalog p ''response body is not UTF-8'') (from_utf8 body))))"

definition bybit_catalog_url :: "'h catalog \<Rightarrow> string option \<Rightarrow> rest_url" where
  "bybit_catalog_url C cursor =
     (fst (cs_bybit (ca_sources C)),
      [(''category'', ''linear''), (''limit'', BYBIT_CATALOG_PAGE_LIMIT)] @
      (case cursor of Some c \<Rightarrow> [(''cursor'', c)] | None \<Rightarrow> []))"

definition fetch_bybit_page :: "'h catalog \<Rightarrow> string option \<Rightarrow> ('h, catalog_error, bybit_catalog_page) query" where
  "fetch_bybit_page C cursor =
     query_bind (get_body C Bybit (bybit_catalog_url C cursor)) (\<lambda>body.
     query_lift (parse_bybit_page (ca_ext C) (ca_json C) body))"

text \<open>The loop of \<open>fetch_bybit\<close>; \<open>n\<close> counts the rounds that are left of \<open>BYBIT_MAX_PAGES\<close>.\<close>

primrec bybit_catalog_pages ::
  "'h catalog \<Rightarrow> nat \<Rightarrow> string option \<Rightarrow> string set \<Rightarrow> (string, instrument) btree \<Rightarrow>
     ('h, catalog_error, (string, instrument) btree) query" where
  "bybit_catalog_pages C 0 cursor requested instruments h = (h, Inl (PaginationLimit Bybit BYBIT_MAX_PAGES))"
| "bybit_catalog_pages C (Suc n) cursor requested instruments h =
     (if (case cursor of Some c \<Rightarrow> c \<in> requested | None \<Rightarrow> False)
      then (h, Inl (RepeatedCursor Bybit (the cursor)))
      else let requested' = requested \<union> set_option cursor
        in (case fetch_bybit_page C cursor h of
             (h', Inl e) \<Rightarrow> (h', Inl e)
           | (h', Inr page) \<Rightarrow>
               (case insert_items (\<lambda>i. Inr (Some i)) instruments (byp_instruments page) of
                  Inl e \<Rightarrow> (h', Inl e)
                | Inr instruments' \<Rightarrow>
                    let nxt = byp_next_page_cursor page
                    in if nxt = [] then (h', Inr instruments')
                       else if cursor = Some nxt \<or> nxt \<in> requested' then (h', Inl (RepeatedCursor Bybit nxt))
                       else bybit_catalog_pages C n (Some nxt) requested' instruments' h')))"

definition fetch_bybit_catalog :: "'h catalog \<Rightarrow> ('h, catalog_error, (string, instrument) btree) query" where
  "fetch_bybit_catalog C = bybit_catalog_pages C BYBIT_MAX_PAGES None {} []"

definition fetch_provider :: "'h catalog \<Rightarrow> provider \<Rightarrow> ('h, catalog_error, (string, instrument) btree) query" where
  "fetch_provider C p =
     (let E = ca_ext C; J = ca_json C; url = catalog_endpoint (ca_sources C) p
      in case p of
       Bybit \<Rightarrow> fetch_bybit_catalog C
     | Binance \<Rightarrow> query_bind (get_body C p url) (\<lambda>body. query_lift (parse_binance_catalog E J body))
     | Okx \<Rightarrow> query_bind (get_body C p (fst url, [(''instType'', ''SWAP'')])) (\<lambda>body. query_lift (parse_okx_catalog E J body))
     | Kucoin \<Rightarrow> query_bind (get_body C p url) (\<lambda>body. query_lift (parse_kucoin_catalog E J body))
     | Mexc \<Rightarrow> query_bind (get_body C p url) (\<lambda>body. query_lift (parse_mexc_catalog E J body))
     | Bingx \<Rightarrow> query_bind (get_body C p url) (\<lambda>body. query_lift (parse_bingx_catalog E J body)))"

section \<open>Refreshing\<close>

definition non_empty_snapshot ::
  "provider \<Rightarrow> (string, instrument) btree \<Rightarrow> catalog_error + (string, instrument) btree" where
  "non_empty_snapshot p instruments = (if instruments = [] then Inl (EmptySnapshot p) else Inr instruments)"

text \<open>What a refresh writes under the lock, at the two clock readings it takes.\<close>

definition commit_refresh ::
  "provider \<Rightarrow> u64 \<Rightarrow> u64 \<Rightarrow> catalog_error + (string, instrument) btree \<Rightarrow> catalog_state \<Rightarrow>
     catalog_state \<times> (catalog_error + refresh_outcome)" where
  "commit_refresh p attempted_at_ms refreshed_at_ms result s = (case result of
     Inr instruments \<Rightarrow> (case s p of
         None \<Rightarrow> (s, Inl (InvalidCatalog p ''internal catalog state is missing provider''))
       | Some snapshot \<Rightarrow>
           (s(p \<mapsto> snapshot\<lparr>ps_instruments := instruments, ps_status := (ps_status snapshot)
              \<lparr>pcs_instrument_count := length instruments, pcs_last_attempt_at_ms := Some attempted_at_ms,
               pcs_last_success_at_ms := Some refreshed_at_ms, pcs_last_error := None\<rparr>\<rparr>),
            Inr \<lparr>ro_provider = p, ro_instrument_count = length instruments, ro_refreshed_at_ms = refreshed_at_ms\<rparr>))
   | Inl e \<Rightarrow> (case s p of
         None \<Rightarrow> (s, Inl e)
       | Some snapshot \<Rightarrow>
           (s(p \<mapsto> snapshot\<lparr>ps_status := (ps_status snapshot)
              \<lparr>pcs_last_attempt_at_ms := Some attempted_at_ms, pcs_last_error := Some (show_catalog_error e)\<rparr>\<rparr>),
            Inl e)))"

definition refresh_provider ::
  "'h catalog \<Rightarrow> provider \<Rightarrow> u64 \<Rightarrow> u64 \<Rightarrow> 'h \<Rightarrow> catalog_state \<Rightarrow>
     'h \<times> catalog_state \<times> (catalog_error + refresh_outcome)" where
  "refresh_provider C p attempted_at_ms refreshed_at_ms h s =
     (if \<not> is_enabled (ca_sources C) p then (h, s, Inl (ProviderDisabled p))
      else let (h', fetched) = fetch_provider C p h
        in (h', commit_refresh p attempted_at_ms refreshed_at_ms (and_then fetched (non_empty_snapshot p)) s))"

text \<open>
  \<open>refresh_all\<close> runs the refreshes of the enabled providers concurrently; \<open>outcomes\<close> lists them in
  the order in which they commit, with the clock readings and the fetched result of each.
\<close>

type_synonym commit = "provider \<times> u64 \<times> u64 \<times> (catalog_error + (string, instrument) btree)"

fun refresh_all :: "commit list \<Rightarrow> catalog_state \<Rightarrow> catalog_state \<times> (provider \<rightharpoonup> (catalog_error + refresh_outcome))" where
  "refresh_all [] s = (s, Map.empty)"
| "refresh_all ((p, a, t, fetched) # rest) s =
     (let (s', r) = commit_refresh p a t (and_then fetched (non_empty_snapshot p)) s;
          (s'', results) = refresh_all rest s'
      in (s'', results(p \<mapsto> r)))"

section \<open>Lemmas\<close>

subsection \<open>Fetched snapshots\<close>

lemma insert_all_sound:
  assumes "list_all (sound_instrument E p) is" and "insert_items (\<lambda>i. Inr (Some i)) m is = Inr m'" and "sound_snapshot E p m"
  shows "sound_snapshot E p m'"
  using assms
proof (induction "is" arbitrary: m)
  case (Cons i "is")
  from Cons.prems(2) obtain m1 where "insert_unique m i = Inr m1" "insert_items (\<lambda>i. Inr (Some i)) m1 is = Inr m'"
    by (auto simp: and_then_Inr)
  with Cons.IH [of m1] Cons.prems insert_unique_sound show ?case by auto
qed simp

lemma bybit_catalog_pages_sound:
  assumes "decimal_printing (ca_ext C)"
  shows "bybit_catalog_pages C n cursor requested m h = (h', Inr m') \<Longrightarrow> sound_snapshot (ca_ext C) Bybit m \<Longrightarrow>
    sound_snapshot (ca_ext C) Bybit m'"
proof (induction n arbitrary: cursor requested m h)
  case (Suc n)
  from Suc.prems(1) obtain h1 page m1 where page: "fetch_bybit_page C cursor h = (h1, Inr page)"
    and ins: "insert_items (\<lambda>i. Inr (Some i)) m (byp_instruments page) = Inr m1"
    and rest: "m' = m1 \<or> (\<exists>c r. bybit_catalog_pages C n c r m1 h1 = (h', Inr m'))"
    by (auto simp: Let_def split: if_split_asm prod.split_asm sum.split_asm option.split_asm)
  have "list_all (sound_instrument (ca_ext C) Bybit) (byp_instruments page)"
    using page by (auto simp: fetch_bybit_page_def query_bind_Inr query_lift_eq intro: parse_bybit_page_sound [OF assms])
  then have "sound_snapshot (ca_ext C) Bybit m1" using ins Suc.prems(2) by (rule insert_all_sound)
  with rest Suc.IH show ?case by blast
qed simp

lemma fetch_provider_sound:
  assumes "decimal_printing (ca_ext C)" and "fetch_provider C p h = (h', Inr m)"
  shows "sound_snapshot (ca_ext C) p m"
  using assms(2) bybit_catalog_pages_sound [OF assms(1), of BYBIT_MAX_PAGES None "{}" "[]" h h' m]
  by (cases p) (auto simp: fetch_provider_def fetch_bybit_catalog_def query_bind_Inr query_lift_eq
      intro: parse_catalogs_sound [OF assms(1)])

subsection \<open>Commits\<close>

lemma commit_other: "q \<noteq> p \<Longrightarrow> fst (commit_refresh p a t r s) q = s q"
  by (simp add: commit_refresh_def split: sum.split option.split)

lemma commit_local:
  "s p = s' p \<Longrightarrow> fst (commit_refresh p a t r s) p = fst (commit_refresh p a t r s') p \<and>
     snd (commit_refresh p a t r s) = snd (commit_refresh p a t r s')"
  by (simp add: commit_refresh_def split: sum.split option.split)

lemma refresh_all_state:
  "distinct (map fst cs) \<Longrightarrow> fst (refresh_all cs s) q =
     (case map_of cs q of None \<Rightarrow> s q
      | Some (a, t, r) \<Rightarrow> fst (commit_refresh q a t (and_then r (non_empty_snapshot q)) s) q)"
proof (induction cs arbitrary: s)
  case (Cons c rest)
  obtain p a t r where c: "c = (p, a, t, r)" by (cases c) auto
  let ?s = "fst (commit_refresh p a t (and_then r (non_empty_snapshot p)) s)"
  have "fst (refresh_all ((p, a, t, r) # rest) s) = fst (refresh_all rest ?s)"
    by (simp add: Let_def split: prod.split)
  moreover have "fst (refresh_all rest ?s) q = (case map_of rest q of None \<Rightarrow> ?s q
      | Some (a, t, r) \<Rightarrow> fst (commit_refresh q a t (and_then r (non_empty_snapshot q)) ?s) q)"
    using Cons by simp
  moreover have "p \<notin> set (map fst rest)" using Cons.prems by (simp add: c)
  ultimately show ?case
    unfolding c by (cases "q = p") (auto simp: commit_other map_of_eq_None_iff [THEN iffD2] commit_local [of ?s q s] split: option.split)
qed simp

lemma refresh_all_results:
  "distinct (map fst cs) \<Longrightarrow> snd (refresh_all cs s) q =
     (case map_of cs q of None \<Rightarrow> None
      | Some (a, t, r) \<Rightarrow> Some (snd (commit_refresh q a t (and_then r (non_empty_snapshot q)) s)))"
proof (induction cs arbitrary: s)
  case (Cons c rest)
  obtain p a t r where c: "c = (p, a, t, r)" by (cases c) auto
  let ?s = "fst (commit_refresh p a t (and_then r (non_empty_snapshot p)) s)"
  have "snd (refresh_all ((p, a, t, r) # rest) s) =
      (snd (refresh_all rest ?s))(p \<mapsto> snd (commit_refresh p a t (and_then r (non_empty_snapshot p)) s))"
    by (simp add: Let_def split: prod.split)
  moreover have "snd (refresh_all rest ?s) q = (case map_of rest q of None \<Rightarrow> None
      | Some (a, t, r) \<Rightarrow> Some (snd (commit_refresh q a t (and_then r (non_empty_snapshot q)) ?s)))"
    using Cons by simp
  ultimately show ?case
    unfolding c by (cases "q = p") (auto simp: commit_other commit_local [of ?s q s] split: option.split)
qed simp

subsection \<open>Invariant\<close>

definition snapshot_ok :: "ext \<Rightarrow> catalog_sources \<Rightarrow> provider \<Rightarrow> provider_snapshot \<Rightarrow> bool" where
  "snapshot_ok E sources p n \<longleftrightarrow>
     sound_snapshot E p (ps_instruments n) \<and> pcs_provider (ps_status n) = p \<and>
     pcs_enabled (ps_status n) = is_enabled sources p \<and>
     pcs_instrument_count (ps_status n) = length (ps_instruments n) \<and>
     (ps_instruments n = [] \<longleftrightarrow> pcs_last_success_at_ms (ps_status n) = None) \<and>
     (pcs_last_attempt_at_ms (ps_status n) = None \<longrightarrow> ps_instruments n = []) \<and>
     (\<not> is_enabled sources p \<longrightarrow> ps_instruments n = [])"

definition catalog_ok :: "ext \<Rightarrow> catalog_sources \<Rightarrow> catalog_state \<Rightarrow> bool" where
  "catalog_ok E sources s \<longleftrightarrow> (\<forall>p. \<exists>n. s p = Some n \<and> snapshot_ok E sources p n)"

inductive catalog_step :: "'h catalog \<Rightarrow> catalog_state \<Rightarrow> catalog_state \<Rightarrow> bool" for C where
  refreshed: "refresh_provider C p a t h s = (h', s', r) \<Longrightarrow> catalog_step C s s'"

inductive_cases catalog_stepE: "catalog_step C s s'"

lemma commit_ok:
  assumes "catalog_ok E sources s" and "is_enabled sources p" and "\<And>m. r = Inr m \<Longrightarrow> sound_snapshot E p m \<and> m \<noteq> []"
  shows "catalog_ok E sources (fst (commit_refresh p a t r s))"
  unfolding catalog_ok_def
proof
  fix q
  obtain n where n: "s q = Some n" "snapshot_ok E sources q n" using assms(1) by (auto simp: catalog_ok_def)
  show "\<exists>n. fst (commit_refresh p a t r s) q = Some n \<and> snapshot_ok E sources q n"
  proof (cases "q = p")
    case True
    with n assms(2,3) show ?thesis by (cases r) (auto simp: commit_refresh_def snapshot_ok_def)
  next
    case False
    with n show ?thesis by (simp add: commit_other)
  qed
qed

lemma refresh_ok:
  assumes "decimal_printing (ca_ext C)" and "refresh_provider C p a t h s = (h', s', r)"
    and "catalog_ok (ca_ext C) (ca_sources C) s"
  shows "catalog_ok (ca_ext C) (ca_sources C) s'"
proof (cases "is_enabled (ca_sources C) p")
  case True
  obtain h1 f where f: "fetch_provider C p h = (h1, f)" by fastforce
  with assms(2) True have s': "s' = fst (commit_refresh p a t (and_then f (non_empty_snapshot p)) s)"
    by (auto simp: refresh_provider_def split: prod.split_asm)
  show ?thesis unfolding s'
  proof (rule commit_ok [OF assms(3) True])
    fix m assume "and_then f (non_empty_snapshot p) = Inr m"
    then show "sound_snapshot (ca_ext C) p m \<and> m \<noteq> []"
      using fetch_provider_sound [OF assms(1), of p h h1] f by (auto simp: and_then_Inr non_empty_snapshot_def split: if_split_asm)
  qed
qed (use assms in \<open>simp add: refresh_provider_def\<close>)

lemma new_catalog_ok: "catalog_ok E sources (new_catalog sources)"
  by (simp add: catalog_ok_def new_catalog_def snapshot_ok_def)

lemma catalog_system:
  assumes "decimal_printing (ca_ext C)"
  shows "invariant_system (\<lambda>s. s = new_catalog (ca_sources C)) (catalog_step C) (catalog_ok (ca_ext C) (ca_sources C))"
  by unfold_locales (auto simp: new_catalog_ok elim!: catalog_stepE intro: refresh_ok [OF assms])

lemmas catalog_reachable_ok = invariant_system.reachable_inv [OF catalog_system]

subsection \<open>Listed instruments\<close>

lemma find_unique: "x \<in> set xs \<Longrightarrow> P x \<Longrightarrow> \<forall>y \<in> set xs. P y \<longrightarrow> y = x \<Longrightarrow> find P xs = Some x"
proof (induction xs)
  case (Cons y ys)
  then show ?case
  proof (cases "P y")
    case True
    then have "y = x" using Cons.prems(3) by (metis list.set_intros(1))
    with True show ?thesis by simp
  next
    case False
    then have x: "x \<in> set ys" using Cons.prems(1,2) by auto
    have "\<forall>z \<in> set ys. P z \<longrightarrow> z = x" using Cons.prems(3) by (meson list.set_intros(2))
    from Cons.IH [OF x Cons.prems(2) this] have "find P ys = Some x" .
    with False show ?thesis by simp
  qed
qed simp

lemma listed_instrument:
  assumes "catalog_ok E sources s" and "i \<in> set (all_instruments s)"
  shows "\<exists>p n. s p = Some n \<and> (in_symbol i, i) \<in> set (ps_instruments n) \<and> in_provider i = p \<and>
    sound_instrument E p i \<and> snapshot_ok E sources p n"
proof -
  from assms(2) obtain p n sym where n: "s p = Some n" "(sym, i) \<in> set (ps_instruments n)"
    by (auto simp: all_instruments_def snapshots_def) metis
  have ok: "snapshot_ok E sources p n" using assms(1) n(1) unfolding catalog_ok_def by (metis option.inject)
  then have "in_symbol i = sym" "sound_instrument E p i"
    using n(2) by (auto simp: snapshot_ok_def sound_snapshot_def)
  moreover from this(2) have "in_provider i = p" by (simp add: sound_instrument_def)
  ultimately show ?thesis using n ok by blast
qed

lemma catalog_id_inj: "catalog_instrument_id p s = catalog_instrument_id q t \<Longrightarrow> p = q \<and> s = t"
proof -
  assume eq: "catalog_instrument_id p s = catalog_instrument_id q t"
  have "takeWhile (\<lambda>c. c \<noteq> CHR '':'') (catalog_instrument_id r u) = provider_name r" for r u
    using takeWhile_colon [OF provider_name_no_colon] by (simp add: catalog_instrument_id_def)
  with eq have "p = q" by (metis provider_name_inj)
  with eq show ?thesis by (simp add: catalog_instrument_id_def)
qed

lemma listed_unique:
  assumes "catalog_ok E sources s" and "i \<in> set (all_instruments s)" and "j \<in> set (all_instruments s)"
    and "in_instrument_id j = in_instrument_id i"
  shows "j = i"
proof -
  obtain p n where n: "s p = Some n" "(in_symbol i, i) \<in> set (ps_instruments n)" "sound_instrument E p i" "snapshot_ok E sources p n"
    using listed_instrument [OF assms(1,2)] by blast
  obtain q m where m: "s q = Some m" "(in_symbol j, j) \<in> set (ps_instruments m)" "sound_instrument E q j"
    using listed_instrument [OF assms(1,3)] by blast
  have "catalog_instrument_id q (in_symbol j) = catalog_instrument_id p (in_symbol i)"
    using assms(4) n(3) m(3) by (metis sound_instrument_def)
  then have "q = p" "in_symbol j = in_symbol i" using catalog_id_inj by blast+
  with n m have "(in_symbol i, j) \<in> set (ps_instruments n)" by auto
  moreover have "distinct (map fst (ps_instruments n))"
    using n(4) by (simp add: snapshot_ok_def sound_snapshot_def btree_ok_def strict_sorted_iff)
  ultimately show ?thesis using n(2) by (metis eq_key_imp_eq_value)
qed

lemma normalized_trim:
  assumes "unicode_classes_disjoint E" and "normalize_symbol E t = Inr t"
  shows "trim t = t"
proof -
  from assms(2) have "list_all (symbol_char E) (chars t)"
    using normalized_chars [of E "trim t"] by (simp add: normalize_symbol_Inr)
  then show ?thesis using symbol_char_no_space [OF assms(1)] by (intro trim_id) (simp add: list_all_iff)
qed

section \<open>Properties\<close>

text \<open>
  (C33) In every state the catalog reaches by any sequence of refreshes, with any behaviour of the
  venues and the network: every provider has a snapshot, ordered by symbol, that files each
  instrument under its own canonical symbol with its own identifier, provider and capabilities, with
  positive tick size, quantity step and contract size; its status counts its instruments; it holds
  instruments exactly when a refresh has succeeded, and none when the provider is disabled.
\<close>

theorem catalog_reachable_sound:
  assumes "decimal_printing (ca_ext C)"
    and "reachable (\<lambda>s. s = new_catalog (ca_sources C)) (catalog_step C) s"
  shows "catalog_ok (ca_ext C) (ca_sources C) s"
  by (rule catalog_reachable_ok [OF assms])

text \<open>
  (C34) A refresh touches only its provider. When it fails, the provider keeps its last good
  instruments and success time and records the attempt and the error (a disabled provider records
  nothing); when it succeeds, the whole snapshot is replaced by the non-empty fetched one and the
  error is cleared.
\<close>

theorem refresh_keeps_last_good:
  assumes "refresh_provider C p a t h s = (h', s', r)" and "s p = Some n"
  shows "(\<forall>q. q \<noteq> p \<longrightarrow> s' q = s q) \<and>
    (case r of
       Inl e \<Rightarrow> (if is_enabled (ca_sources C) p
         then s' p = Some (n\<lparr>ps_status := (ps_status n)\<lparr>pcs_last_attempt_at_ms := Some a,
           pcs_last_error := Some (show_catalog_error e)\<rparr>\<rparr>)
         else s' p = Some n \<and> e = ProviderDisabled p)
     | Inr out \<Rightarrow> \<exists>m. fetch_provider C p h = (h', Inr m) \<and> m \<noteq> [] \<and>
         out = \<lparr>ro_provider = p, ro_instrument_count = length m, ro_refreshed_at_ms = t\<rparr> \<and>
         s' p = Some (n\<lparr>ps_instruments := m, ps_status := (ps_status n)\<lparr>pcs_instrument_count := length m,
           pcs_last_attempt_at_ms := Some a, pcs_last_success_at_ms := Some t, pcs_last_error := None\<rparr>\<rparr>))"
proof (cases "is_enabled (ca_sources C) p")
  case True
  obtain h1 f where f: "fetch_provider C p h = (h1, f)" by fastforce
  with assms(1) True have c: "commit_refresh p a t (and_then f (non_empty_snapshot p)) s = (s', r)" "h' = h1"
    by (simp_all add: refresh_provider_def)
  have "\<forall>q. q \<noteq> p \<longrightarrow> s' q = s q" using commit_other c(1) by (metis fst_conv)
  moreover have "case r of Inl e \<Rightarrow> s' p = Some (n\<lparr>ps_status := (ps_status n)\<lparr>pcs_last_attempt_at_ms := Some a,
           pcs_last_error := Some (show_catalog_error e)\<rparr>\<rparr>)
     | Inr out \<Rightarrow> \<exists>m. and_then f (non_empty_snapshot p) = Inr m \<and>
         out = \<lparr>ro_provider = p, ro_instrument_count = length m, ro_refreshed_at_ms = t\<rparr> \<and>
         s' p = Some (n\<lparr>ps_instruments := m, ps_status := (ps_status n)\<lparr>pcs_instrument_count := length m,
           pcs_last_attempt_at_ms := Some a, pcs_last_success_at_ms := Some t, pcs_last_error := None\<rparr>\<rparr>)"
    using c(1) assms(2) by (auto simp: commit_refresh_def split: sum.split_asm)
  moreover have "f = Inr m \<and> m \<noteq> []" if "and_then f (non_empty_snapshot p) = Inr m" for m
    using that by (auto simp: and_then_Inr non_empty_snapshot_def split: if_split_asm)
  ultimately show ?thesis using True f c(2) by (cases r) auto
next
  case False
  with assms show ?thesis by (auto simp: refresh_provider_def)
qed


text \<open>
  (C36) Every listed instrument can be found again: looking up its identifier or its venue symbol
  returns it, and a subscription to any of its channels validates to it.
\<close>

theorem catalog_lookup_roundtrip:
  assumes "decimal_printing (ca_ext C)" and "unicode_classes_disjoint (ca_ext C)"
    and "reachable (\<lambda>s. s = new_catalog (ca_sources C)) (catalog_step C) s"
    and "i \<in> set (catalog_list s)"
  shows "get_by_id s (in_instrument_id i) = Some i \<and>
    catalog_get (ca_ext C) s (in_provider i) (in_market i) (in_symbol i) = Some i \<and>
    validate_subscription (ca_ext C) (ca_sources C) s
      (SubscriptionKey (in_provider i) (in_market i) (in_symbol i) c) = Inr i"
proof -
  let ?E = "ca_ext C"
  note ok = catalog_reachable_ok [OF assms(1,3)]
  from assms(4) have i: "i \<in> set (all_instruments s)" by (simp add: catalog_list_def catalog_filtered_def)
  then obtain p n where n: "s p = Some n" "(in_symbol i, i) \<in> set (ps_instruments n)" "in_provider i = p"
    and snd: "sound_instrument ?E p i" and okn: "snapshot_ok ?E (ca_sources C) p n"
    using listed_instrument [OF ok i] by blast
  have here: "map_of (ps_instruments n) (in_symbol i) = Some i"
    using n(2) okn by (intro map_of_is_SomeI) (auto simp: snapshot_ok_def sound_snapshot_def btree_ok_def strict_sorted_iff)
  have "trim (in_symbol i) = in_symbol i"
    using snd assms(2) by (intro normalized_trim) (auto simp: sound_instrument_def)
  then have get: "catalog_get ?E s (in_provider i) (in_market i) (in_symbol i) = Some i"
    using n here market_kind_eq [of "in_market i" LinearPerpetual] by (simp add: catalog_get_def)
  moreover have "get_by_id s (in_instrument_id i) = Some i"
    unfolding get_by_id_def using i listed_unique [OF ok i] by (intro find_unique) blast+
  moreover have "is_enabled (ca_sources C) (in_provider i)"
    using okn n by (auto simp: snapshot_ok_def)
  moreover have "supports (in_capabilities i) c"
    using snd by (cases c) (simp_all add: sound_instrument_def capabilities_def split: provider.split)
  ultimately show ?thesis by (simp add: validate_subscription_def)
qed

subsection \<open>Witnesses\<close>

text \<open>A Binance venue that lists one instrument; the JSON readers know the parts of its one document.\<close>

definition sample_listing :: raw_lib where
  "sample_listing = \<lparr>
     js_from_str = (\<lambda>t. case t of c # cs \<Rightarrow> if c = CHR 0x22 then Inr (JString cs) else Inl [] | [] \<Rightarrow> Inl []),
     js_to_string = (\<lambda>_. []), js_error = (\<lambda>_. []), fmt_debug = (\<lambda>t. t),
     raw_elements = (\<lambda>t. if t = ''symbols'' then Some [''item''] else if t = ''filters'' then Some [''price'', ''lot''] else None),
     raw_fields = (\<lambda>t. if t = ''body'' then Some [(''symbols'', ''symbols'')]
       else if t = ''item'' then Some [(''symbol'', CHR 0x22 # ''BTCUSDT''), (''contractType'', CHR 0x22 # ''PERPETUAL''),
         (''status'', CHR 0x22 # ''TRADING''), (''baseAsset'', CHR 0x22 # ''BTC''), (''quoteAsset'', CHR 0x22 # ''USDT''),
         (''marginAsset'', CHR 0x22 # ''USDT''), (''filters'', ''filters'')]
       else if t = ''price'' then Some [(''filterType'', CHR 0x22 # ''PRICE_FILTER''), (''tickSize'', CHR 0x22 # ''1'')]
       else if t = ''lot'' then Some [(''filterType'', CHR 0x22 # ''LOT_SIZE''), (''stepSize'', CHR 0x22 # ''1'')]
       else None),
     raw_error = (\<lambda>_. [])\<rparr>"

definition sample_catalog :: "nat catalog" where
  "sample_catalog = \<lparr>ca_sources = default_catalog_sources,
     ca_send = (\<lambda>n url. (Suc n, Inr (200, None, [Inr ''body'']))), ca_json = sample_listing, ca_ext = sample_lib\<rparr>"

definition sample_instrument :: instrument where
  "sample_instrument = new_instrument Binance ''BTCUSDT'' ''BTC'' ''USDT'' ''USDT'' ''TRADING'' (DecimalValue ''1'') (DecimalValue ''1'')"

lemma sample_printing: "decimal_printing sample_lib"
proof -
  have "\<exists>d'. sample_decimal (show_int (mantissa d)) = Some d' \<and> 0 < dec_value d'" if "0 < dec_value d" for d
  proof -
    from that have "0 < mantissa d" by (simp add: dec_value_def zero_less_divide_iff)
    then show ?thesis
      by (simp add: sample_decimal_def show_int_def all_digits_show_nat digits_value_show_nat dec_value_def)
  qed
  then show ?thesis by (simp add: decimal_printing_def sample_lib_def)
qed

lemma sample_items:
  "decode_binance_catalog sample_listing ''body'' = Some [\<lparr>bni_symbol = ''BTCUSDT'', bni_contract_type = ''PERPETUAL'',
     bni_status = ''TRADING'', bni_base_asset = ''BTC'', bni_quote_asset = ''USDT'', bni_margin_asset = ''USDT'',
     bni_onboard_date = None, bni_filters = [\<lparr>bnf_filter_type = ''PRICE_FILTER'', bnf_tick_size = Some (WireString ''1''),
       bnf_step_size = None, bnf_min_qty = None, bnf_notional = None\<rparr>,
       \<lparr>bnf_filter_type = ''LOT_SIZE'', bnf_tick_size = None, bnf_step_size = Some (WireString ''1''),
       bnf_min_qty = None, bnf_notional = None\<rparr>]\<rparr>]"
  by (simp add: decode_binance_catalog_def decode_binance_instrument_def decode_binance_filter_def raw_struct_def
      raw_field_def raw_field_opt_def raw_list_def raw_string_def raw_scalar_def raw_value_def sample_listing_def)

lemma sample_normalize: "normalize_symbol sample_lib ''BTCUSDT'' = Inr ''BTCUSDT''"
  by (simp add: normalize_symbol_def Let_def trim_def trim_start_chars_def is_cont_def code_point_def is_whitespace_def
      symbol_char_def is_alphanumeric_def is_ascii_alphanumeric_def is_ascii_digit_def to_ascii_uppercase_def
      ascii_upper_def char_of_eq_iff)

lemma sample_parse: "parse_binance_catalog sample_lib sample_listing ''body'' = Inr [(''BTCUSDT'', sample_instrument)]"
proof -
  have "dec_from_str sample_lib ''1'' = Some (Decimal 1 0)"
    by (simp add: sample_lib_def sample_decimal_def all_digits_def is_ascii_digit_def digits_value_def)
  then show ?thesis
    by (simp add: sample_normalize parse_binance_catalog_def catalog_json_def sample_items binance_instrument_def unique_filter_decimal_def
        optional_unique_filter_decimal_def positive_decimal_def new_decimal_value_def dec_value_def exact_symbol_def
        exact_asset_def is_whitespace_def is_control_def code_point_def is_cont_def insert_unique_def
        sample_instrument_def new_instrument_def)
qed

definition sample_state :: catalog_state where
  "sample_state = fst (commit_refresh Binance 1 2 (Inr [(''BTCUSDT'', sample_instrument)]) (new_catalog default_catalog_sources))"

lemma sample_refresh:
  "refresh_provider sample_catalog Binance 1 2 0 (new_catalog default_catalog_sources) =
     (1, sample_state, Inr \<lparr>ro_provider = Binance, ro_instrument_count = 1, ro_refreshed_at_ms = 2\<rparr>)"
proof -
  have "fetch_provider sample_catalog Binance 0 = (1, Inr [(''BTCUSDT'', sample_instrument)])"
    using sample_parse
    by (simp add: fetch_provider_def sample_catalog_def get_body_def query_bind_def query_lift_def is_success_def
        usize_saturating_add_def MAX_CATALOG_RESPONSE_BYTES_def usize_max_def from_utf8_def is_cont_def)
  then show ?thesis
    by (simp add: refresh_provider_def is_enabled_def sample_catalog_def default_catalog_sources_def
        non_empty_snapshot_def commit_refresh_def sample_state_def new_catalog_def)
qed

lemma sample_reachable:
  "reachable (\<lambda>s. s = new_catalog (ca_sources sample_catalog)) (catalog_step sample_catalog) sample_state"
proof -
  have "reachable (\<lambda>s. s = new_catalog (ca_sources sample_catalog)) (catalog_step sample_catalog)
      (new_catalog default_catalog_sources)"
    by (rule reachable_start) (simp add: sample_catalog_def)
  then show ?thesis by (rule reachable_step) (rule catalog_step.refreshed [OF sample_refresh])
qed

theorem catalog_reachable_sound_witness:
  "catalog_ok sample_lib default_catalog_sources sample_state \<and> ps_instruments (the (sample_state Binance)) \<noteq> []"
  using catalog_reachable_sound [OF _ sample_reachable] sample_printing
  by (simp add: sample_catalog_def sample_state_def commit_refresh_def new_catalog_def)

theorem refresh_keeps_last_good_witness:
  "sample_state Okx = new_catalog default_catalog_sources Okx \<and>
     map_of (ps_instruments (the (sample_state Binance))) ''BTCUSDT'' = Some sample_instrument"
  using refresh_keeps_last_good [OF sample_refresh, of "the (new_catalog default_catalog_sources Binance)"]
  by (simp add: new_catalog_def sample_state_def commit_refresh_def)


theorem catalog_lookup_roundtrip_witness:
  "get_by_id sample_state ''binance:linear_perpetual:BTCUSDT'' = Some sample_instrument \<and>
   validate_subscription sample_lib default_catalog_sources sample_state
     (SubscriptionKey Binance LinearPerpetual ''BTCUSDT'' Ticker) = Inr sample_instrument"
proof -
  have "sample_instrument \<in> set (catalog_list sample_state)"
    by (simp add: catalog_list_def catalog_filtered_def default_filter_def filter_matches_def matches_optional_def
        all_instruments_def snapshots_def all_providers_def sample_state_def commit_refresh_def new_catalog_def)
  from catalog_lookup_roundtrip [OF _ _ sample_reachable this, of Ticker] show ?thesis
    using sample_printing sample_lib_unicode
    by (simp add: sample_catalog_def sample_instrument_def new_instrument_def catalog_instrument_id_def)
qed

end
