(* ===== verification/Api.thy ===== *)
theory Api
  imports Hub Metrics Catalog
begin

text \<open>
  The downstream protocol (\<^verbatim>\<open>src/src/protocol.rs\<close>) and the websocket sessions of the
  downstream API (\<^verbatim>\<open>src/src/api.rs\<close>): a session turns client commands into changes of the
  registry's demand and the hub's routes, forwards the events of its feed, and undoes all of it
  when it ends. The state is what the handlers share; a session adds the set of keys it believes it
  owns. A handler returns the new state, the messages that went to the socket, and whether the
  session goes on.

  \<open>send\<close> says whether the socket accepts a message within \<open>CLIENT_SEND_TIMEOUT\<close>; reading a command
  from its text (serde's derived reader, with its verdict whether a failure is one of syntax) and
  printing a UUID are fields of \<open>app_config\<close>. Other sessions and the publishers run between two
  turns of a session; within a turn the registry and the hub are each changed once, for the
  session's own client only.
\<close>

section \<open>Protocol\<close>

datatype client_command =
    SubscribeCommand string "subscription list"
  | UnsubscribeCommand string "subscription list"
  | PingCommand string

fun command_request_id :: "client_command \<Rightarrow> string" where
  "command_request_id (SubscribeCommand r _) = r"
| "command_request_id (UnsubscribeCommand r _) = r"
| "command_request_id (PingCommand r) = r"

datatype error_code = InvalidJson | InvalidCommand | LimitExceeded | UnsupportedSubscription | LaggedCode | Internal

datatype control_message =
    HelloMessage nat string usize usize
  | AckMessage nat string string "sub_key list"
  | ErrorMessage nat "string option" error_code string
  | PongMessage nat string
  | GapMessage nat u64 string

definition hello_message :: "string \<Rightarrow> usize \<Rightarrow> provider_limits \<Rightarrow> control_message" where
  "hello_message stream_epoch max_subscriptions limits =
     HelloMessage SCHEMA_VERSION stream_epoch max_subscriptions (minimum limits)"

definition error_message :: "string option \<Rightarrow> error_code \<Rightarrow> string \<Rightarrow> control_message" where
  "error_message request_id code message = ErrorMessage SCHEMA_VERSION request_id code message"

section \<open>State\<close>

definition MAX_REQUEST_ID_BYTES :: usize where
  "MAX_REQUEST_ID_BYTES = 128"

record 'ch app_state =
  ap_hub :: "'ch hub"
  ap_registry :: registry
  ap_metrics :: metrics
  ap_catalog :: catalog_state

record app_config =
  ac_sources :: catalog_sources
  ac_enabled_providers :: "provider set"
  ac_allowed_origins :: "string set"
  ac_max_command_bytes :: usize
  ac_ext :: ext
  ac_parse :: "string \<Rightarrow> bool + client_command"
  ac_show_uuid :: "uuid \<Rightarrow> string"

text \<open>The state of one session: the shared state and the session's own keys.\<close>

type_synonym 'ch session = "'ch app_state \<times> sub_key set"

section \<open>Commands\<close>

definition count_rejected :: "'ch app_state \<Rightarrow> 'ch app_state" where
  "count_rejected a = a\<lparr>ap_metrics := (ap_metrics a)\<lparr>mx_downstream_commands_rejected :=
     mx_downstream_commands_rejected (ap_metrics a) + 1\<rparr>\<rparr>"

definition rejected_reply ::
  "'ch session \<Rightarrow> string option \<Rightarrow> error_code \<Rightarrow> string \<Rightarrow> 'ch session \<times> control_message" where
  "rejected_reply s request_id code message =
     ((count_rejected (fst s), snd s), error_message request_id code message)"

definition expand_subscriptions :: "ext \<Rightarrow> subscription list \<Rightarrow> string + sub_key list" where
  "expand_subscriptions E requested =
     (if requested = [] then Inl ''subscriptions must not be empty''
      else and_then (collect_results (\<lambda>s. map_err domain_error_text (into_keys E s)) requested) (\<lambda>expanded.
        Inr (sorted_list_of_set (set (concat expanded)))))"

definition find_map :: "('a \<Rightarrow> 'b option) \<Rightarrow> 'a list \<Rightarrow> 'b option" where
  "find_map f xs = (case somes (map f xs) of [] \<Rightarrow> None | y # _ \<Rightarrow> Some y)"

definition err_of :: "'e + 'a \<Rightarrow> 'e option" where
  "err_of r = (case r of Inl e \<Rightarrow> Some e | Inr _ \<Rightarrow> None)"

definition validated_subscription_keys ::
  "app_config \<Rightarrow> catalog_state \<Rightarrow> subscription list \<Rightarrow> (error_code \<times> string) + sub_key list" where
  "validated_subscription_keys cfg catalog requested =
     and_then (map_err (Pair InvalidCommand) (expand_subscriptions (ac_ext cfg) requested)) (\<lambda>keys.
     case find (\<lambda>k. key_provider k \<notin> ac_enabled_providers cfg) keys of
       Some k \<Rightarrow> Inl (UnsupportedSubscription, provider_name (key_provider k) @ '' is disabled'')
     | None \<Rightarrow>
         (case find_map (\<lambda>k. err_of (validate_subscription (ac_ext cfg) (ac_sources cfg) catalog k)) keys of
            Some e \<Rightarrow> Inl (UnsupportedSubscription, show_catalog_error e)
          | None \<Rightarrow> Inr keys))"

fun registry_error_text :: "registry_error \<Rightarrow> string" where
  "registry_error_text (ClientLimitExceeded limit requested) =
     ''subscription limit exceeded: requested '' @ show_nat requested @ '', maximum '' @ show_nat limit"
| "registry_error_text (ProviderLimitExceeded p limit requested) =
     provider_name p @ '' subscription limit exceeded: requested '' @ show_nat requested @ '', maximum '' @ show_nat limit"

text \<open>
  \<open>set_routes\<close> is what both commands do once the registry has answered: take over the client's
  keys and route them. \<open>order\<close> is the order in which the registry walks its per-provider totals.
\<close>

definition set_routes :: "client_id \<Rightarrow> registry \<Rightarrow> sub_key set \<Rightarrow> 'ch app_state \<Rightarrow> 'ch session" where
  "set_routes c registry keys a =
     (a\<lparr>ap_registry := registry, ap_hub := fst (update_client_subscriptions (ap_hub a) c keys)\<rparr>, keys)"

definition subscribe ::
  "app_config \<Rightarrow> provider list \<Rightarrow> client_id \<Rightarrow> string \<Rightarrow> subscription list \<Rightarrow> 'ch session \<Rightarrow>
     'ch session \<times> control_message" where
  "subscribe cfg order c request_id requested s =
     (case validated_subscription_keys cfg (ap_catalog (fst s)) requested of
        Inl (code, message) \<Rightarrow> rejected_reply s (Some request_id) code message
      | Inr keys \<Rightarrow>
          (case registry_add order (ap_registry (fst s)) c keys of
             (registry, Inl e) \<Rightarrow>
               rejected_reply ((fst s)\<lparr>ap_registry := registry\<rparr>, snd s) (Some request_id) LimitExceeded (registry_error_text e)
           | (registry, Inr change) \<Rightarrow>
               (set_routes c registry (sc_client_subscriptions change) (fst s),
                AckMessage SCHEMA_VERSION request_id ''subscribe'' keys)))"

definition unsubscribe ::
  "app_config \<Rightarrow> client_id \<Rightarrow> string \<Rightarrow> subscription list \<Rightarrow> 'ch session \<Rightarrow> 'ch session \<times> control_message" where
  "unsubscribe cfg c request_id requested s =
     (case expand_subscriptions (ac_ext cfg) requested of
        Inl message \<Rightarrow> rejected_reply s (Some request_id) InvalidCommand message
      | Inr keys \<Rightarrow>
          (case registry_remove (ap_registry (fst s)) c keys of
             (registry, change) \<Rightarrow>
               (set_routes c registry (sc_client_subscriptions change) (fst s),
                AckMessage SCHEMA_VERSION request_id ''unsubscribe'' keys)))"

definition apply_command ::
  "app_config \<Rightarrow> provider list \<Rightarrow> client_id \<Rightarrow> client_command \<Rightarrow> 'ch session \<Rightarrow> 'ch session \<times> control_message" where
  "apply_command cfg order c command s =
     (let request_id = command_request_id command
      in if request_id = [] \<or> length request_id > MAX_REQUEST_ID_BYTES
         then rejected_reply s (Some request_id) InvalidCommand ''request_id must contain between 1 and 128 bytes''
         else case command of
           PingCommand r \<Rightarrow> (s, PongMessage SCHEMA_VERSION r)
         | SubscribeCommand r requested \<Rightarrow> subscribe cfg order c r requested s
         | UnsubscribeCommand r requested \<Rightarrow> unsubscribe cfg c r requested s)"

definition parse_command :: "app_config \<Rightarrow> string \<Rightarrow> control_message + client_command" where
  "parse_command cfg text =
     map_err (\<lambda>syntax. error_message None (if syntax then InvalidJson else InvalidCommand) ''invalid client command'')
       (ac_parse cfg text)"

section \<open>Sessions\<close>

datatype client_message = ClientText string | ClientPing string | ClientPong string | ClientBinary string | ClientClose

datatype outgoing = SendControl control_message | SendEvent market_event | SendPong string | SendClose

text \<open>Handing one message to the socket: it is on the wire when the socket accepts it.\<close>

definition send_to :: "(outgoing \<Rightarrow> bool) \<Rightarrow> 's \<Rightarrow> outgoing \<Rightarrow> 's \<times> outgoing list \<times> bool" where
  "send_to send s m = (s, if send m then [m] else [], send m)"

definition reject_client_command ::
  "(outgoing \<Rightarrow> bool) \<Rightarrow> 'ch session \<Rightarrow> control_message \<Rightarrow> 'ch session \<times> outgoing list \<times> bool" where
  "reject_client_command send s e = send_to send (count_rejected (fst s), snd s) (SendControl e)"

definition handle_text_message ::
  "app_config \<Rightarrow> provider list \<Rightarrow> (outgoing \<Rightarrow> bool) \<Rightarrow> client_id \<Rightarrow> string \<Rightarrow> 'ch session \<Rightarrow>
     'ch session \<times> outgoing list \<times> bool" where
  "handle_text_message cfg order send c text s =
     (if length text > ac_max_command_bytes cfg
      then reject_client_command send s (error_message None LimitExceeded ''command exceeds maximum size'')
      else case parse_command cfg text of
        Inl e \<Rightarrow> reject_client_command send s e
      | Inr command \<Rightarrow>
          (case apply_command cfg order c command s of (s', reply) \<Rightarrow> send_to send s' (SendControl reply)))"

definition handle_client_message ::
  "app_config \<Rightarrow> provider list \<Rightarrow> (outgoing \<Rightarrow> bool) \<Rightarrow> client_id \<Rightarrow> client_message \<Rightarrow> 'ch session \<Rightarrow>
     'ch session \<times> outgoing list \<times> bool" where
  "handle_client_message cfg order send c message s = (case message of
     ClientText text \<Rightarrow> handle_text_message cfg order send c text s
   | ClientPing payload \<Rightarrow> send_to send s (SendPong payload)
   | ClientPong _ \<Rightarrow> (s, [], True)
   | ClientBinary _ \<Rightarrow> reject_client_command send s (error_message None InvalidCommand ''commands must be UTF-8 JSON text'')
   | ClientClose \<Rightarrow> (s, [], False))"

text \<open>
  What wakes the session: a message or the end (or failure) of the socket, an event from the feed
  or its end, the number the lag watch changed to or the loss of its sender, or the shutdown.
\<close>

datatype session_input =
    Incoming "client_message option"
  | FeedEvent "market_event option"
  | FeedLagged "u64 option"
  | ShutdownRequested

definition count_lagged :: "'ch app_state \<Rightarrow> 'ch app_state" where
  "count_lagged a = a\<lparr>ap_metrics := (ap_metrics a)\<lparr>mx_downstream_lagged := mx_downstream_lagged (ap_metrics a) + 1\<rparr>\<rparr>"

definition session_round ::
  "app_config \<Rightarrow> provider list \<Rightarrow> (outgoing \<Rightarrow> bool) \<Rightarrow> client_id \<Rightarrow> session_input \<Rightarrow> 'ch session \<Rightarrow>
     'ch session \<times> outgoing list \<times> bool" where
  "session_round cfg order send c input s = (case input of
     Incoming None \<Rightarrow> (s, [], False)
   | Incoming (Some message) \<Rightarrow> handle_client_message cfg order send c message s
   | FeedEvent None \<Rightarrow> (s, [], False)
   | FeedEvent (Some e) \<Rightarrow> send_to send s (SendEvent e)
   | FeedLagged None \<Rightarrow> (s, [], False)
   | FeedLagged (Some dropped) \<Rightarrow>
       (case send_to send (count_lagged (fst s), snd s) (SendControl (GapMessage SCHEMA_VERSION dropped
            ''downstream buffer overrun; reconnect and repair gaps'')) of
          (s', out, _) \<Rightarrow> (s', out, False))
   | ShutdownRequested \<Rightarrow> (case send_to send s SendClose of (s', out, _) \<Rightarrow> (s', out, False)))"

definition cleanup_session :: "client_id \<Rightarrow> 'ch app_state \<Rightarrow> 'ch app_state" where
  "cleanup_session c a =
     a\<lparr>ap_hub := remove_client (ap_hub a) c, ap_registry := fst (cleanup_client (ap_registry a) c),
       ap_metrics := decrement_connections (ap_metrics a)\<rparr>"

definition reject_client_at_capacity :: "(outgoing \<Rightarrow> bool) \<Rightarrow> outgoing list" where
  "reject_client_at_capacity send =
     (let e = SendControl (error_message None LimitExceeded ''downstream client limit exceeded'')
      in filter send [e, SendClose])"

text \<open>The beginning of \<open>client_session\<close>: register, count the connection, say hello.\<close>

definition open_session ::
  "app_config \<Rightarrow> (usize \<Rightarrow> 'ch) \<Rightarrow> (outgoing \<Rightarrow> bool) \<Rightarrow> client_id \<Rightarrow> 'ch app_state \<Rightarrow>
     'ch app_state \<times> outgoing list \<times> sub_key set option" where
  "open_session cfg new_channel send c a =
     (case try_register_client new_channel (ap_hub a) c of
        (hub, False) \<Rightarrow> (a\<lparr>ap_hub := hub\<rparr>, reject_client_at_capacity send, None)
      | (hub, True) \<Rightarrow>
          let a' = a\<lparr>ap_hub := hub, ap_metrics := increment_connections (ap_metrics a)\<rparr>;
              hello = SendControl (hello_message (ac_show_uuid cfg (hub_stream_epoch hub))
                (rg_max_per_client (ap_registry a)) (rg_limits (ap_registry a)))
          in if send hello then (a', [hello], Some {}) else (cleanup_session c a', [], None))"

text \<open>One turn of the session loop, with the clean-up when it ends.\<close>

definition session_turn ::
  "app_config \<Rightarrow> provider list \<Rightarrow> (outgoing \<Rightarrow> bool) \<Rightarrow> client_id \<Rightarrow> session_input \<Rightarrow> 'ch session \<Rightarrow>
     'ch app_state \<times> outgoing list \<times> sub_key set option" where
  "session_turn cfg order send c input s = (case session_round cfg order send c input s of
     ((a, keys), out, go_on) \<Rightarrow> if go_on then (a, out, Some keys) else (cleanup_session c a, out, None))"

section \<open>The gateway seen by its sessions\<close>

text \<open>
  What the sessions rely on: a registry that keeps one key set per client, and a hub that keeps one
  routed set per registered client. From the laws of the two, an opened, changed or closed session
  keeps the three views of a client (its own, the registry's, the hub's) in agreement; \<open>gauge\<close> is
  the number of open sessions as the metrics count it.
\<close>

locale session_backend =
  fixes demand_ok :: "'r \<Rightarrow> bool" and demand_of :: "'r \<Rightarrow> client_id \<Rightarrow> sub_key set"
    and cleanup :: "'r \<Rightarrow> client_id \<Rightarrow> 'r"
    and hub_ok :: "'h \<Rightarrow> bool" and routed :: "'h \<Rightarrow> client_id \<rightharpoonup> sub_key set"
    and register :: "'h \<Rightarrow> client_id \<Rightarrow> 'h \<times> bool"
    and route :: "'h \<Rightarrow> client_id \<Rightarrow> sub_key set \<Rightarrow> 'h"
    and unregister :: "'h \<Rightarrow> client_id \<Rightarrow> 'h"
  assumes demand_finite: "demand_ok r \<Longrightarrow> finite (demand_of r c)"
    and cleanup_law: "demand_ok r \<Longrightarrow>
      demand_ok (cleanup r c) \<and> demand_of (cleanup r c) = (demand_of r)(c := {})"
    and register_law: "hub_ok h \<Longrightarrow> register h c = (h', ok) \<Longrightarrow>
      hub_ok h' \<and> routed h' = (if ok then (routed h)(c \<mapsto> {}) else routed h)"
    and route_law: "hub_ok h \<Longrightarrow> finite K \<Longrightarrow>
      hub_ok (route h c K) \<and> routed (route h c K) = (routed h)(c := map_option (\<lambda>_. K) (routed h c))"
    and unregister_law: "hub_ok h \<Longrightarrow>
      hub_ok (unregister h c) \<and> routed (unregister h c) = (routed h)(c := None)"
begin

definition consistent :: "(client_id \<rightharpoonup> sub_key set) \<Rightarrow> 'r \<Rightarrow> 'h \<Rightarrow> 64 word \<Rightarrow> bool" where
  "consistent sessions r h gauge \<longleftrightarrow>
     demand_ok r \<and> hub_ok h \<and> finite (dom sessions) \<and>
     (\<forall>c. demand_of r c = (case sessions c of None \<Rightarrow> {} | Some K \<Rightarrow> K)) \<and>
     (\<forall>c K. routed h c = Some K \<longrightarrow> (\<exists>K'. sessions c = Some K' \<and> K \<subseteq> K')) \<and>
     gauge = of_nat (card (dom sessions))"

lemma opened:
  assumes "consistent sessions r h gauge" and "sessions c = None" and "register h c = (h', True)"
  shows "consistent (sessions(c \<mapsto> {})) r h' (gauge + 1)"
  using assms(1,2) register_law [OF _ assms(3)]
  by (auto simp: consistent_def card_insert_disjoint domIff split: if_splits)

lemma refused:
  assumes "consistent sessions r h gauge" and "register h c = (h', False)"
  shows "consistent sessions r h' gauge"
  using assms(1) register_law [OF _ assms(2)] by (auto simp: consistent_def)

lemma changed:
  assumes "consistent sessions r h gauge" and "c \<in> dom sessions"
    and "demand_ok r'" and "demand_of r' = (demand_of r)(c := K)"
  shows "consistent (sessions(c \<mapsto> K)) r' (route h c K) gauge"
proof -
  have "finite K" using demand_finite [OF assms(3), of c] assms(4) by simp
  then show ?thesis
    using assms route_law [of h K c]
    by (auto simp: consistent_def insert_absorb split: if_splits)
qed

lemma closed:
  assumes "consistent sessions r h gauge" and "c \<in> dom sessions"
  shows "consistent (sessions(c := None)) (cleanup r c) (unregister h c) (gauge - 1)"
proof -
  have "card (dom sessions) = Suc (card (dom sessions - {c}))"
    using assms card_Suc_Diff1 [of "dom sessions" c] by (simp add: consistent_def)
  then show ?thesis
    using assms cleanup_law [of r c] unregister_law [of h c]
    by (auto simp: consistent_def split: if_splits)
qed

lemma narrowed:
  assumes "consistent sessions r h gauge" and "hub_ok h'"
    and "\<And>c K. routed h' c = Some K \<Longrightarrow> \<exists>K'. routed h c = Some K' \<and> K \<subseteq> K'"
  shows "consistent sessions r h' gauge"
  using assms unfolding consistent_def by (meson order_trans)

end

text \<open>The routed set of a registered client, and the laws of the model's registry and hub.\<close>

definition hub_routed :: "'ch hub \<Rightarrow> client_id \<rightharpoonup> sub_key set" where
  "hub_routed h c = map_option cr_subscriptions (rs_clients (hub_routes h) c)"

lemma cleanup_client_demand:
  "registry_inv s \<Longrightarrow> client_keys (fst (cleanup_client s c)) = (client_keys s)(c := {})"
  by (auto simp: cleanup_client_eq Let_def client_keys_removed_state fun_upd_idem)

lemma register_routed:
  assumes "hub_inv h" and "try_register_client new_channel h c = (h', ok)"
  shows "hub_inv h' \<and> hub_routed h' = (if ok then (hub_routed h)(c \<mapsto> {}) else hub_routed h)"
proof -
  obtain cl where cl: "hub_routes h = indexed cl" "finite_clients cl" using assms(1) by (rule hub_inv_indexed)
  have "hub_inv h'" using try_register_client_inv [OF assms(1), of new_channel c] assms(2) by simp
  then show ?thesis
    using assms(2) cl(1)
    by (auto simp: try_register_client_eq [OF cl] hub_routed_def fun_eq_iff split: if_splits)
qed

lemma route_routed:
  assumes "hub_inv h" and "finite K"
  shows "hub_routed (fst (update_client_subscriptions h c K)) =
    (hub_routed h)(c := map_option (\<lambda>_. K) (hub_routed h c))"
proof -
  obtain cl where cl: "hub_routes h = indexed cl" "finite_clients cl" using assms(1) by (rule hub_inv_indexed)
  show ?thesis
    using cl(1)
    by (auto simp: update_client_subscriptions_eq [OF cl assms(2)] hub_routed_def fun_eq_iff split: option.splits)
qed

lemma unregister_routed:
  assumes "hub_inv h"
  shows "hub_routed (remove_client h c) = (hub_routed h)(c := None)"
proof -
  obtain cl where cl: "hub_routes h = indexed cl" "finite_clients cl" using assms by (rule hub_inv_indexed)
  show ?thesis using cl(1) by (auto simp: remove_client_eq [OF cl] hub_routed_def fun_eq_iff)
qed

interpretation sb: session_backend registry_inv client_keys "\<lambda>s c. fst (cleanup_client s c)"
  hub_inv hub_routed "try_register_client new_channel"
  "\<lambda>h c K. fst (update_client_subscriptions h c K)" remove_client
  by unfold_locales
    (simp_all add: registry_invD(1) cleanup_client_inv cleanup_client_demand register_routed
      update_client_subscriptions_inv route_routed remove_client_inv unregister_routed)

lemma publish_routed:
  assumes "hub_inv h" and "hub_routed (fst (publish try_send h pe)) c = Some K"
  shows "\<exists>K'. hub_routed h c = Some K' \<and> K \<subseteq> K'"
proof -
  obtain cl where cl: "hub_routes h = indexed cl" "finite_clients cl" using assms(1) by (rule hub_inv_indexed)
  show ?thesis
    using assms(2) cl(1)
    by (auto simp: publish_eq [OF cl] hub_routed_def deliver_all_def Let_def split: if_splits option.splits
        dest: delivered_subscriptions)
qed

lemma receive_routed: "hub_routed (receive h c ch) = hub_routed h"
  by (auto simp: hub_routed_def receive_def fun_eq_iff option.map_comp comp_def)

text \<open>What an accepted or refused \<open>add\<close>, and a \<open>remove\<close>, leave of the demand table.\<close>

lemma registry_add_demand:
  assumes "registry_inv s" and "set order = UNIV" and "fits_memory s c keys"
    and "registry_add order s c keys = (t, r)"
  shows "case r of
      Inl e \<Rightarrow> t = s \<and> \<not> demand_accepts (rg_max_per_client s) (rg_limits s) (client_keys s) c (set keys)
    | Inr ch \<Rightarrow> demand_accepts (rg_max_per_client s) (rg_limits s) (client_keys s) c (set keys) \<and>
        client_keys t = (client_keys s)(c := client_keys s c \<union> set keys) \<and>
        sc_client_subscriptions ch = client_keys s c \<union> set keys"
  using assms(1,2,3)
proof (cases rule: registry_add_cases)
  case client
  then show ?thesis using assms(4) by (auto simp: registry_add_rejects_client [OF assms(1)] demand_accepts_def)
next
  case (provider q)
  then show ?thesis
    using assms(4) registry_add_rejects_provider [OF assms(1-3), of q] registry_invD(7) [OF assms(1)]
    by (fastforce simp: demand_accepts_def not_le)
next
  case accept
  then have "demand_accepts (rg_max_per_client s) (rg_limits s) (client_keys s) c (set keys)"
    using registry_invD(7) [OF assms(1)] by (simp add: demand_accepts_def)
  then show ?thesis
    using assms(4) registry_add_accepts [OF assms(1-3) accept]
    by (auto simp: Let_def client_keys_added_state unchanged_def Un_absorb2 fun_upd_idem split: if_splits)
qed

lemma registry_remove_demand:
  assumes "registry_inv s" and "registry_remove s c keys = (t, ch)"
  shows "client_keys t = (client_keys s)(c := client_keys s c - set keys) \<and>
    sc_client_subscriptions ch = client_keys s c - set keys"
proof (cases "set keys \<inter> client_keys s c = {}")
  case True
  then have "client_keys s c - set keys = client_keys s c" by blast
  with True assms(2) show ?thesis by (auto simp: registry_remove_eq [OF assms(1)] unchanged_def)
next
  case False
  then have t: "t = removed_state s c (set keys \<inter> client_keys s c)"
    and ch: "sc_client_subscriptions ch = client_keys s c - set keys"
    using assms(2) by (auto simp: registry_remove_eq [OF assms(1)] Let_def)
  have "client_keys s c - set keys \<inter> client_keys s c = client_keys s c - set keys" by blast
  with ch show ?thesis by (simp only: t client_keys_removed_state)
qed

section \<open>The sessions as a transition system\<close>

text \<open>
  The gateway is its shared state and the open sessions. A client connects under a fresh identifier,
  a session takes a turn, an event is published, a feed is read, a catalog refresh commits, and the
  other components count what they do. \<open>turn_fits\<close> says that the demand of a subscribe command fits
  the memory of the machine.
\<close>

type_synonym 'ch gateway = "'ch app_state \<times> (client_id \<rightharpoonup> sub_key set)"

definition turn_fits :: "app_config \<Rightarrow> client_id \<Rightarrow> session_input \<Rightarrow> 'ch app_state \<Rightarrow> bool" where
  "turn_fits cfg c input a \<longleftrightarrow> (\<forall>t r requested keys.
     input = Incoming (Some (ClientText t)) \<longrightarrow> ac_parse cfg t = Inr (SubscribeCommand r requested) \<longrightarrow>
     validated_subscription_keys cfg (ap_catalog a) requested = Inr keys \<longrightarrow> fits_memory (ap_registry a) c keys)"

inductive gateway_step ::
  "app_config \<Rightarrow> 'w catalog \<Rightarrow> (usize \<Rightarrow> 'ch) \<Rightarrow> ('ch \<Rightarrow> market_event \<Rightarrow> 'ch try_send_result) \<Rightarrow>
     ('ch \<Rightarrow> 'ch \<Rightarrow> bool) \<Rightarrow> 'ch gateway \<Rightarrow> 'ch gateway \<Rightarrow> bool"
  for cfg C new_channel try_send rx where
  gw_connect: "sessions c = None \<Longrightarrow> open_session cfg new_channel send c a = (a', out, own) \<Longrightarrow>
    gateway_step cfg C new_channel try_send rx (a, sessions) (a', sessions(c := own))"
| gw_turn: "sessions c = Some keys \<Longrightarrow> set order = UNIV \<Longrightarrow> turn_fits cfg c input a \<Longrightarrow>
    session_turn cfg order send c input (a, keys) = (a', out, own) \<Longrightarrow>
    gateway_step cfg C new_channel try_send rx (a, sessions) (a', sessions(c := own))"
| gw_publish: "gateway_step cfg C new_channel try_send rx (a, sessions)
    (a\<lparr>ap_hub := fst (publish try_send (ap_hub a) pe)\<rparr>, sessions)"
| gw_receive: "rs_clients (hub_routes (ap_hub a)) c = Some r \<Longrightarrow> rx (cr_events r) ch \<Longrightarrow>
    gateway_step cfg C new_channel try_send rx (a, sessions) (a\<lparr>ap_hub := receive (ap_hub a) c ch\<rparr>, sessions)"
| gw_catalog: "catalog_step C (ap_catalog a) catalog \<Longrightarrow>
    gateway_step cfg C new_channel try_send rx (a, sessions) (a\<lparr>ap_catalog := catalog\<rparr>, sessions)"
| gw_count: "mx_downstream_connections m = mx_downstream_connections (ap_metrics a) \<Longrightarrow>
    gateway_step cfg C new_channel try_send rx (a, sessions) (a\<lparr>ap_metrics := m\<rparr>, sessions)"

definition gateway_start :: "usize \<Rightarrow> provider_limits \<Rightarrow> 'ch gateway \<Rightarrow> bool" where
  "gateway_start max_per_client limits g \<longleftrightarrow> snd g = Map.empty \<and>
     (\<exists>epoch capacity max_clients. with_client_limit epoch capacity max_clients = Some (ap_hub (fst g))) \<and>
     ap_registry (fst g) = with_provider_limits max_per_client limits \<and> ap_metrics (fst g) = new_metrics"

abbreviation gateway_consistent :: "'ch gateway \<Rightarrow> bool" where
  "gateway_consistent g \<equiv> sb.consistent (snd g) (ap_registry (fst g)) (ap_hub (fst g))
     (mx_downstream_connections (ap_metrics (fst g)))"

text \<open>A round changes the demand of its own client only, and routes what it then owns.\<close>

definition round_effect :: "client_id \<Rightarrow> 'ch session \<Rightarrow> 'ch session \<Rightarrow> bool" where
  "round_effect c s s' \<longleftrightarrow>
     mx_downstream_connections (ap_metrics (fst s')) = mx_downstream_connections (ap_metrics (fst s)) \<and>
     (ap_registry (fst s') = ap_registry (fst s) \<and> ap_hub (fst s') = ap_hub (fst s) \<and> snd s' = snd s \<or>
      registry_inv (ap_registry (fst s')) \<and>
      client_keys (ap_registry (fst s')) = (client_keys (ap_registry (fst s)))(c := snd s') \<and>
      ap_hub (fst s') = fst (update_client_subscriptions (ap_hub (fst s)) c (snd s')))"

lemma round_effect_idle: "round_effect c s s"
  by (simp add: round_effect_def)

lemma round_effect_rejected: "round_effect c s (count_rejected (fst s), snd s)"
  by (simp add: round_effect_def count_rejected_def)

lemma round_effect_lagged: "round_effect c s (count_lagged (fst s), snd s)"
  by (simp add: round_effect_def count_lagged_def)

lemmas round_effects = round_effect_idle round_effect_rejected round_effect_lagged

lemma subscribe_effect_ok:
  assumes inv: "registry_inv (ap_registry (fst s))" and order: "set order = UNIV"
    and fits: "\<And>keys. validated_subscription_keys cfg (ap_catalog (fst s)) requested = Inr keys \<Longrightarrow>
      fits_memory (ap_registry (fst s)) c keys"
  shows "round_effect c s (fst (subscribe cfg order c r requested s))"
proof (cases "validated_subscription_keys cfg (ap_catalog (fst s)) requested")
  case (Inl e)
  then show ?thesis by (cases e) (simp add: subscribe_def rejected_reply_def round_effect_rejected)
next
  case (Inr keys)
  obtain t v where tv: "registry_add order (ap_registry (fst s)) c keys = (t, v)" by fastforce
  note ad = registry_add_demand [OF inv order fits [OF Inr] tv]
  have t: "registry_inv t" using registry_add_inv [OF inv order fits [OF Inr]] tv by simp
  show ?thesis
  proof (cases v)
    case (Inl e)
    with Inr tv ad show ?thesis by (simp add: subscribe_def rejected_reply_def round_effect_def count_rejected_def)
  next
    case (Inr ch)
    with \<open>validated_subscription_keys _ _ _ = _\<close> tv ad t show ?thesis
      by (simp add: subscribe_def set_routes_def round_effect_def)
  qed
qed

lemma unsubscribe_effect_ok:
  assumes inv: "registry_inv (ap_registry (fst s))"
  shows "round_effect c s (fst (unsubscribe cfg c r requested s))"
proof (cases "expand_subscriptions (ac_ext cfg) requested")
  case (Inl e)
  then show ?thesis by (simp add: unsubscribe_def rejected_reply_def round_effect_rejected)
next
  case (Inr keys)
  obtain t ch where tv: "registry_remove (ap_registry (fst s)) c keys = (t, ch)" by fastforce
  with Inr registry_remove_demand [OF inv tv] registry_remove_inv [OF inv, of c keys] show ?thesis
    by (simp add: unsubscribe_def set_routes_def round_effect_def)
qed

lemma apply_command_effect:
  assumes "registry_inv (ap_registry (fst s))" and "set order = UNIV"
    and "\<And>r requested keys. command = SubscribeCommand r requested \<Longrightarrow>
      validated_subscription_keys cfg (ap_catalog (fst s)) requested = Inr keys \<Longrightarrow>
      fits_memory (ap_registry (fst s)) c keys"
  shows "round_effect c s (fst (apply_command cfg order c command s))"
  using assms
  by (cases command)
    (auto simp: apply_command_def Let_def rejected_reply_def round_effects
      intro!: subscribe_effect_ok unsubscribe_effect_ok)

lemma session_round_effect:
  assumes "registry_inv (ap_registry a)" and "set order = UNIV" and "turn_fits cfg c input a"
  shows "round_effect c (a, keys) (fst (session_round cfg order send c input (a, keys)))"
proof -
  have cmd: "round_effect c (a, keys) (fst (apply_command cfg order c command (a, keys)))"
    if "input = Incoming (Some (ClientText t))" "ac_parse cfg t = Inr command" for t command
    using assms that by (intro apply_command_effect) (auto simp: turn_fits_def)
  have handled: "round_effect c (a, keys) (fst (handle_text_message cfg order send c t (a, keys)))"
    if "input = Incoming (Some (ClientText t))" for t
    using cmd [OF that]
    by (auto simp: handle_text_message_def reject_client_command_def send_to_def parse_command_def map_err_def
        round_effects round_effect_rejected [of c "(a, keys)", simplified]
        split: sum.splits prod.splits)
  show ?thesis
    using handled
    by (auto simp: session_round_def handle_client_message_def send_to_def reject_client_command_def
        round_effect_idle round_effect_rejected [of c "(a, keys)", simplified]
        round_effect_lagged [of c "(a, keys)", simplified]
        split: session_input.split option.split client_message.split)
qed

lemma cleanup_session_consistent:
  assumes "gateway_consistent (a, sessions)" and "c \<in> dom sessions"
  shows "gateway_consistent (cleanup_session c a, sessions(c := None))"
  using sb.closed [OF assms(1) [unfolded fst_conv snd_conv] assms(2)]
  by (simp add: cleanup_session_def decrement_connections_def)

lemma open_session_consistent:
  assumes "gateway_consistent (a, sessions)" and "sessions c = None"
    and "open_session cfg new_channel send c a = (a', out, own)"
  shows "gateway_consistent (a', sessions(c := own))"
proof -
  obtain h ok where reg: "try_register_client new_channel (ap_hub a) c = (h, ok)" by fastforce
  show ?thesis
  proof (cases ok)
    case True
    let ?a = "a\<lparr>ap_hub := h, ap_metrics := increment_connections (ap_metrics a)\<rparr>"
    have opened: "gateway_consistent (?a, sessions(c \<mapsto> {}))"
      using sb.opened [of sessions _ _ _ c new_channel h] assms(1,2) reg True
      by (simp add: increment_connections_def)
    then have "gateway_consistent (cleanup_session c ?a, sessions(c := None))"
      using cleanup_session_consistent [OF opened, of c] by simp
    with opened reg True assms(3) show ?thesis by (auto simp: open_session_def Let_def split: if_splits)
  next
    case False
    with assms reg sb.refused [of sessions _ _ _ new_channel c h] show ?thesis
      by (auto simp: open_session_def fun_upd_idem)
  qed
qed

lemma round_consistent:
  assumes "gateway_consistent (a, sessions)" and "sessions c = Some keys"
    and "round_effect c (a, keys) (a', keys')"
  shows "gateway_consistent (a', sessions(c \<mapsto> keys'))"
proof -
  have "sessions(c \<mapsto> keys) = sessions" "c \<in> dom sessions" using assms(2) by auto
  then show ?thesis
    using assms sb.changed [of sessions "ap_registry a" "ap_hub a" "mx_downstream_connections (ap_metrics a)"
        c "ap_registry a'" keys']
    by (auto simp: round_effect_def)
qed

lemma session_turn_consistent:
  assumes "gateway_consistent (a, sessions)" and "sessions c = Some keys" and "set order = UNIV"
    and "turn_fits cfg c input a" and "session_turn cfg order send c input (a, keys) = (a', out, own)"
  shows "gateway_consistent (a', sessions(c := own))"
proof -
  have inv: "registry_inv (ap_registry a)" using assms(1) by (simp add: sb.consistent_def)
  obtain b keys' out' go_on where r: "session_round cfg order send c input (a, keys) = ((b, keys'), out', go_on)"
    by (metis surj_pair)
  then have go: "gateway_consistent (b, sessions(c \<mapsto> keys'))"
    using round_consistent [OF assms(1,2)] session_round_effect [OF inv assms(3,4), of keys send] by simp
  show ?thesis
    using assms(5) go cleanup_session_consistent [OF go, of c]
    by (auto simp: session_turn_def r split: if_splits)
qed

interpretation gw: invariant_system "gateway_start max_per_client limits"
  "gateway_step cfg C new_channel try_send rx"
  "\<lambda>g. gateway_consistent g"
proof
  show "gateway_consistent g" if "gateway_start max_per_client limits g" for g :: "'a gateway"
  proof -
    from that obtain epoch capacity m where h: "with_client_limit epoch capacity m = Some (ap_hub (fst g))"
      by (auto simp: gateway_start_def)
    then have "hub_routed (ap_hub (fst g)) = Map.empty"
      by (auto simp: with_client_limit_def hub_routed_def fun_eq_iff dest!: sym [of _ "ap_hub (fst g)"] split: if_splits)
    then show ?thesis
      using that with_client_limit_inv [OF h]
      by (simp add: gateway_start_def sb.consistent_def with_provider_limits_inv new_metrics_def client_keys_def)
        (simp add: with_provider_limits_def)
  qed
  show "gateway_consistent t" if "gateway_consistent g" "gateway_step cfg C new_channel try_send rx g t"
    for g t :: "'a gateway"
    using that(2,1)
  proof (cases rule: gateway_step.cases)
    case (gw_publish a sessions pe)
    then show ?thesis
      using sb.narrowed [of sessions "ap_registry a" "ap_hub a" _ "fst (publish try_send (ap_hub a) pe)"]
        that(1) publish_inv [of "ap_hub a"] publish_routed [of "ap_hub a" try_send pe]
      by (simp add: sb.consistent_def)
  next
    case (gw_receive a c r ch sessions)
    then show ?thesis
      using that(1) by (simp add: sb.consistent_def receive_inv receive_routed)
  qed (auto intro: open_session_consistent [simplified] session_turn_consistent [simplified])
qed

section \<open>Properties\<close>

text \<open>
  (C1) Whatever clients connect, subscribe, unsubscribe, lag or vanish, and whatever is published in
  between, the three views of a client agree: the registry holds exactly the keys the open sessions
  own and nothing for a client without a session, the hub routes a client only keys its session owns,
  the published upstream demand is the union of the open sessions' keys, and the connection gauge
  counts the open sessions. So no demand, route or gauge count survives the session that made it.
\<close>

theorem gateway_reachable_consistent:
  assumes "reachable (gateway_start max_per_client limits) (gateway_step cfg C new_channel try_send rx) (a, sessions)"
  shows "finite (dom sessions) \<and>
    (\<forall>c. client_keys (ap_registry a) c = (case sessions c of None \<Rightarrow> {} | Some K \<Rightarrow> K)) \<and>
    (\<forall>c r. rs_clients (hub_routes (ap_hub a)) c = Some r \<longrightarrow>
       (\<exists>K. sessions c = Some K \<and> cr_subscriptions r \<subseteq> K)) \<and>
    rg_snapshot (ap_registry a) = \<Union> (ran sessions) \<and>
    mx_downstream_connections (ap_metrics a) = of_nat (card (dom sessions))"
proof -
  have agree: "gateway_consistent (a, sessions)" by (rule gw.reachable_inv [OF assms])
  then have keys: "client_keys (ap_registry a) c = (case sessions c of None \<Rightarrow> {} | Some K \<Rightarrow> K)" for c
    by (simp add: sb.consistent_def)
  have inv: "registry_inv (ap_registry a)" using agree by (simp add: sb.consistent_def)
  have "rg_snapshot (ap_registry a) = demanded (client_keys (ap_registry a))"
    using registry_invD(7,8) [OF inv] by simp
  also have "\<dots> = \<Union> (ran sessions)"
    by (fastforce simp: demanded_def keys ran_def split: option.splits)
  finally show ?thesis using agree by (simp add: sb.consistent_def hub_routed_def)
qed

text \<open>What a subscribe command asks for: the keys its subscriptions expand to.\<close>

definition requested_keys :: "ext \<Rightarrow> subscription list \<Rightarrow> sub_key set" where
  "requested_keys E requested = (\<Union>s \<in> set requested. case into_keys E s of Inl _ \<Rightarrow> {} | Inr ks \<Rightarrow> set ks)"

definition supported_key :: "app_config \<Rightarrow> catalog_state \<Rightarrow> sub_key \<Rightarrow> bool" where
  "supported_key cfg catalog k \<longleftrightarrow> key_provider k \<in> ac_enabled_providers cfg \<and>
     (\<exists>i. validate_subscription (ac_ext cfg) (ac_sources cfg) catalog k = Inr i)"

lemma collect_results_total:
  "(\<exists>ys. collect_results f xs = Inr ys) \<longleftrightarrow> (\<forall>x \<in> set xs. \<exists>y. f x = Inr y)"
  by (induction xs) (auto split: sum.splits)

lemma collect_results_set:
  "collect_results f xs = Inr ys \<Longrightarrow> set ys = {y. \<exists>x \<in> set xs. f x = Inr y}"
  by (induction xs arbitrary: ys) (auto split: sum.splits)

lemma expand_subscriptions_ok:
  "expand_subscriptions E requested = Inr keys \<longleftrightarrow>
     requested \<noteq> [] \<and> (\<forall>s \<in> set requested. \<exists>ks. into_keys E s = Inr ks) \<and>
     keys = sorted_list_of_set (requested_keys E requested)"
proof -
  let ?f = "\<lambda>s. map_err domain_error_text (into_keys E s)"
  have tot: "(\<exists>yss. collect_results ?f requested = Inr yss) \<longleftrightarrow>
      (\<forall>s \<in> set requested. \<exists>ks. into_keys E s = Inr ks)"
    by (simp add: collect_results_total map_err_Inr)
  have "set (concat yss) = requested_keys E requested" if "collect_results ?f requested = Inr yss" for yss
  proof -
    have "(case into_keys E s of Inl _ \<Rightarrow> {} | Inr ks \<Rightarrow> set ks) = (\<Union>y \<in> {y. ?f s = Inr y}. set y)" for s
      by (cases "into_keys E s") auto
    moreover have "set (concat yss) = (\<Union>s \<in> set requested. \<Union>y \<in> {y. ?f s = Inr y}. set y)"
      using collect_results_set [OF that] by auto
    ultimately show ?thesis unfolding requested_keys_def by presburger
  qed
  with tot show ?thesis
    by (cases "collect_results ?f requested") (auto simp: expand_subscriptions_def)
qed

lemma err_of_None: "err_of r = None \<longleftrightarrow> (\<exists>i. r = Inr i)"
  by (cases r) (simp_all add: err_of_def)

lemma find_map_err_None:
  "find_map (\<lambda>k. err_of (f k)) ks = None \<longleftrightarrow> (\<forall>k \<in> set ks. \<exists>i. f k = Inr i)"
proof -
  have "find_map (\<lambda>k. err_of (f k)) ks = None \<longleftrightarrow> set (somes (map (\<lambda>k. err_of (f k)) ks)) = {}"
    by (simp add: find_map_def split: list.split)
  also have "\<dots> \<longleftrightarrow> (\<forall>k \<in> set ks. err_of (f k) = None)" by (auto simp: set_eq_iff image_iff) (metis option.exhaust)
  also have "\<dots> \<longleftrightarrow> (\<forall>k \<in> set ks. \<exists>i. f k = Inr i)" by (simp add: err_of_None)
  finally show ?thesis .
qed

lemma validated_ok:
  "validated_subscription_keys cfg catalog requested = Inr keys \<longleftrightarrow>
     expand_subscriptions (ac_ext cfg) requested = Inr keys \<and> (\<forall>k \<in> set keys. supported_key cfg catalog k)"
proof -
  have "(\<forall>k \<in> set keys. supported_key cfg catalog k) \<longleftrightarrow>
      find (\<lambda>k. key_provider k \<notin> ac_enabled_providers cfg) keys = None \<and>
      find_map (\<lambda>k. err_of (validate_subscription (ac_ext cfg) (ac_sources cfg) catalog k)) keys = None"
    by (auto simp: supported_key_def find_None_iff find_map_err_None)
  then show ?thesis
    by (auto simp: validated_subscription_keys_def and_then_def map_err_def split: sum.splits option.splits)
qed

lemma validated_error:
  assumes "validated_subscription_keys cfg catalog requested = Inl (code, m)"
  shows "code = InvalidCommand \<and> expand_subscriptions (ac_ext cfg) requested = Inl m \<or>
    code = UnsupportedSubscription \<and> (\<exists>keys. expand_subscriptions (ac_ext cfg) requested = Inr keys \<and>
      (\<exists>k \<in> set keys. \<not> supported_key cfg catalog k))"
proof (cases "expand_subscriptions (ac_ext cfg) requested")
  case (Inl e)
  with assms show ?thesis by (simp add: validated_subscription_keys_def)
next
  case (Inr keys)
  then have "\<not> (\<forall>k \<in> set keys. supported_key cfg catalog k)"
    using assms validated_ok [of cfg catalog requested keys] by auto
  moreover have "code = UnsupportedSubscription"
    using assms Inr by (auto simp: validated_subscription_keys_def split: option.splits)
  ultimately show ?thesis using Inr by blast
qed

lemma finite_requested_keys [simp]: "finite (requested_keys E requested)"
  by (auto simp: requested_keys_def split: sum.split)

text \<open>When a subscribe command is accepted.\<close>

definition subscribe_accepts ::
  "app_config \<Rightarrow> 'ch app_state \<Rightarrow> client_id \<Rightarrow> subscription list \<Rightarrow> bool" where
  "subscribe_accepts cfg a c requested \<longleftrightarrow>
     requested \<noteq> [] \<and> (\<forall>s \<in> set requested. \<exists>ks. into_keys (ac_ext cfg) s = Inr ks) \<and>
     (\<forall>k \<in> requested_keys (ac_ext cfg) requested. supported_key cfg (ap_catalog a) k) \<and>
     demand_accepts (rg_max_per_client (ap_registry a)) (rg_limits (ap_registry a))
       (client_keys (ap_registry a)) c (requested_keys (ac_ext cfg) requested)"

lemma validated_iff:
  "validated_subscription_keys cfg catalog requested = Inr keys \<longleftrightarrow>
     requested \<noteq> [] \<and> (\<forall>s \<in> set requested. \<exists>ks. into_keys (ac_ext cfg) s = Inr ks) \<and>
     (\<forall>k \<in> requested_keys (ac_ext cfg) requested. supported_key cfg catalog k) \<and>
     keys = sorted_list_of_set (requested_keys (ac_ext cfg) requested)"
  by (auto simp: validated_ok expand_subscriptions_ok)

text \<open>
  (C7) A subscribe command is all or nothing. It is acknowledged exactly when it names at least one
  subscription, every one of them is well formed, every key belongs to an enabled provider and to a
  listed instrument with that channel, and the client's and the providers' ceilings allow the enlarged
  demand; the acknowledgement lists the distinct keys in ascending order, the client then owns the old
  and the new keys, and the hub routes exactly these to it. Otherwise one error naming the request is
  returned, the rejection is counted, and nothing else changes.
\<close>

theorem subscribe_all_or_nothing:
  assumes "registry_inv (ap_registry a)" and "hub_inv (ap_hub a)" and "set order = UNIV"
    and "own = client_keys (ap_registry a) c"
    and "fits_memory (ap_registry a) c (sorted_list_of_set (requested_keys (ac_ext cfg) requested))"
  shows "case subscribe cfg order c request_id requested (a, own) of ((a', own'), reply) \<Rightarrow>
    (let keys = requested_keys (ac_ext cfg) requested in
     if subscribe_accepts cfg a c requested
     then reply = AckMessage SCHEMA_VERSION request_id ''subscribe'' (sorted_list_of_set keys) \<and>
       own' = own \<union> keys \<and>
       client_keys (ap_registry a') = (client_keys (ap_registry a))(c := own \<union> keys) \<and>
       hub_routed (ap_hub a') = (hub_routed (ap_hub a))(c := map_option (\<lambda>_. own \<union> keys) (hub_routed (ap_hub a) c)) \<and>
       ap_catalog a' = ap_catalog a \<and> ap_metrics a' = ap_metrics a
     else own' = own \<and> a' = count_rejected a \<and>
       (\<exists>code m. reply = ErrorMessage SCHEMA_VERSION (Some request_id) code m))"
proof (cases "validated_subscription_keys cfg (ap_catalog a) requested")
  case (Inl e)
  have "\<not> subscribe_accepts cfg a c requested"
    using Inl validated_iff [of cfg "ap_catalog a" requested] by (auto simp: subscribe_accepts_def)
  with Inl show ?thesis
    by (cases e) (simp add: subscribe_def rejected_reply_def error_message_def)
next
  case (Inr keys)
  let ?keys = "requested_keys (ac_ext cfg) requested"
  have keys: "keys = sorted_list_of_set ?keys" using Inr by (simp add: validated_iff)
  have acc: "subscribe_accepts cfg a c requested \<longleftrightarrow>
      demand_accepts (rg_max_per_client (ap_registry a)) (rg_limits (ap_registry a)) (client_keys (ap_registry a)) c ?keys"
    using Inr by (auto simp: subscribe_accepts_def validated_iff)
  obtain t v where tv: "registry_add order (ap_registry a) c keys = (t, v)" by fastforce
  note ad = registry_add_demand [OF assms(1,3) _ tv]
  show ?thesis
  proof (cases v)
    case (Inl e)
    with ad keys acc assms(5) have "t = ap_registry a" "\<not> subscribe_accepts cfg a c requested" by auto
    with Inr Inl tv show ?thesis by (simp add: subscribe_def rejected_reply_def error_message_def)
  next
    case v: (Inr ch)
    have fin: "finite (own \<union> ?keys)" using registry_invD(1) [OF assms(1)] assms(4) by simp
    have "subscribe_accepts cfg a c requested" "client_keys t = (client_keys (ap_registry a))(c := own \<union> ?keys)"
      "sc_client_subscriptions ch = own \<union> ?keys"
      using ad v keys acc assms(4,5) by auto
    with Inr v tv keys route_routed [OF assms(2) fin, of c] show ?thesis
      by (simp add: subscribe_def set_routes_def)
  qed
qed

text \<open>What a reply says of the command it answers.\<close>

fun reply_request_id :: "control_message \<Rightarrow> string option" where
  "reply_request_id (AckMessage v r op ks) = Some r"
| "reply_request_id (PongMessage v r) = Some r"
| "reply_request_id (ErrorMessage v r code m) = r"
| "reply_request_id _ = None"

fun is_error :: "control_message \<Rightarrow> bool" where
  "is_error (ErrorMessage v r code m) = True"
| "is_error _ = False"

lemma apply_command_reply:
  assumes "apply_command cfg order c command s = (s', reply)"
  shows "reply_request_id reply = Some (command_request_id command) \<and>
    mx_downstream_commands_rejected (ap_metrics (fst s')) =
      mx_downstream_commands_rejected (ap_metrics (fst s)) + (if is_error reply then 1 else 0)"
  using assms
  by (cases command)
    (auto simp: apply_command_def subscribe_def unsubscribe_def rejected_reply_def set_routes_def count_rejected_def
      error_message_def split: sum.splits prod.splits if_splits)

text \<open>
  (C8) Every text message a client sends is answered by exactly one control message: a command by a
  reply that carries its request identifier, an oversized or unreadable text by an error that carries
  none. The rejected-command counter moves by one exactly when the answer is an error, and the session
  goes on exactly when the socket took the answer.
\<close>

theorem text_message_answered:
  shows "case handle_text_message cfg order send c t s of (s', out, go_on) \<Rightarrow>
    \<exists>reply. out = (if go_on then [SendControl reply] else []) \<and> go_on = send (SendControl reply) \<and>
      reply_request_id reply =
        (if length t > ac_max_command_bytes cfg then None
         else case ac_parse cfg t of Inl _ \<Rightarrow> None | Inr command \<Rightarrow> Some (command_request_id command)) \<and>
      mx_downstream_commands_rejected (ap_metrics (fst s')) =
        mx_downstream_commands_rejected (ap_metrics (fst s)) + (if is_error reply then 1 else 0)"
  by (auto simp: handle_text_message_def reject_client_command_def parse_command_def send_to_def error_message_def
      count_rejected_def map_err_def split: sum.split prod.split dest!: apply_command_reply)

subsection \<open>Witnesses\<close>

text \<open>A gateway whose catalog lists one Binance instrument, and a client that subscribes to its ticker.\<close>

abbreviation sample_ticker_key :: sub_key where
  "sample_ticker_key \<equiv> SubscriptionKey Binance LinearPerpetual ''BTCUSDT'' Ticker"

definition sample_subscription :: subscription where
  "sample_subscription = \<lparr>sub_provider = Binance, sub_market = LinearPerpetual, sub_symbol = ''BTCUSDT'', sub_channels = [Ticker]\<rparr>"

definition sample_config :: app_config where
  "sample_config = \<lparr>ac_sources = default_catalog_sources, ac_enabled_providers = {Binance}, ac_allowed_origins = {},
     ac_max_command_bytes = 1024, ac_ext = sample_lib,
     ac_parse = (\<lambda>t. if t = ''sub'' then Inr (SubscribeCommand ''r1'' [sample_subscription]) else Inl True),
     ac_show_uuid = (\<lambda>_. ''epoch'')\<rparr>"

definition sample_app :: "(nat \<times> market_event list) app_state" where
  "sample_app = \<lparr>ap_hub = sample_hub, ap_registry = with_provider_limits 2 (uniform 5), ap_metrics = new_metrics,
     ap_catalog = sample_state\<rparr>"

definition sample_connected :: "(nat \<times> market_event list) app_state" where
  "sample_connected = fst (open_session sample_config sample_new_channel (\<lambda>_. True) 7 sample_app)"

lemma sample_into_keys: "into_keys sample_lib sample_subscription = Inr [sample_ticker_key]"
  by (simp add: into_keys_def sample_subscription_def sample_normalize)

lemma sample_requested: "requested_keys sample_lib [sample_subscription] = {sample_ticker_key}"
  by (simp add: requested_keys_def sample_into_keys)

lemma sample_supported: "supported_key sample_config sample_state sample_ticker_key"
proof -
  have "trim ''BTCUSDT'' = ''BTCUSDT''"
    by (simp add: trim_def trim_start_chars_def is_cont_def code_point_def is_whitespace_def)
  then have "catalog_get sample_lib sample_state Binance LinearPerpetual ''BTCUSDT'' = Some sample_instrument"
    by (simp add: catalog_get_def sample_state_def commit_refresh_def new_catalog_def)
  then show ?thesis
    by (simp add: supported_key_def sample_config_def validate_subscription_def default_catalog_sources_def is_enabled_def
        sample_instrument_def new_instrument_def capabilities_def)
qed

lemma sample_validated:
  "validated_subscription_keys sample_config sample_state [sample_subscription] = Inr [sample_ticker_key]"
  using sample_supported
  by (simp add: validated_iff sample_requested sample_into_keys) (simp add: sample_config_def sample_requested sample_into_keys)

lemma sample_app_ok: "registry_inv (ap_registry sample_app)" "hub_inv (ap_hub sample_app)"
  "fits_memory (ap_registry sample_app) 7 [sample_ticker_key]"
  using usize_max_pos sample_hub_inv(1)
  by (simp_all add: sample_app_def with_provider_limits_inv) (simp add: fits_memory_def with_provider_limits_def)

lemma sample_demand: "demand_accepts 2 (uniform 5) (\<lambda>_. {}) 7 {sample_ticker_key}"
  by (simp add: demand_accepts_def demanded_def provider_keys_insert limit_for_def uniform_def)

lemma sample_client_keys: "client_keys (ap_registry sample_app) = (\<lambda>_. {})"
  by (simp add: sample_app_def with_provider_limits_def client_keys_def fun_eq_iff)

theorem subscribe_all_or_nothing_witness:
  "snd (subscribe sample_config all_providers 7 ''r1'' [sample_subscription] (sample_app, {})) =
     AckMessage SCHEMA_VERSION ''r1'' ''subscribe'' [sample_ticker_key]"
proof -
  have cfg: "ac_ext sample_config = sample_lib" by (simp add: sample_config_def)
  have reg: "rg_max_per_client (ap_registry sample_app) = 2" "rg_limits (ap_registry sample_app) = uniform 5"
    "ap_catalog sample_app = sample_state"
    by (simp_all add: sample_app_def with_provider_limits_def)
  have "subscribe_accepts sample_config sample_app 7 [sample_subscription]"
    using sample_supported sample_demand by (simp add: subscribe_accepts_def cfg sample_requested sample_into_keys sample_client_keys reg)
  then show ?thesis
    using subscribe_all_or_nothing [OF sample_app_ok(1,2) set_all_providers, of "{}" 7 sample_config
        "[sample_subscription]" "''r1''"] sample_app_ok(3)
    by (auto simp: cfg sample_client_keys sample_requested Let_def split: prod.splits)
qed

lemma sample_opened:
  obtains out where "open_session sample_config sample_new_channel (\<lambda>_. True) 7 sample_app = (sample_connected, out, Some {})"
    and "ap_registry sample_connected = ap_registry sample_app" and "ap_catalog sample_connected = sample_state"
proof -
  obtain h ok where reg: "try_register_client sample_new_channel (ap_hub sample_app) 7 = (h, ok)" by fastforce
  then have "ok" by (auto simp: try_register_client_def sample_app_def sample_hub_def with_client_limit_def Let_def split: if_splits)
  with reg that show thesis by (simp add: sample_connected_def open_session_def Let_def sample_app_def)
qed

lemma sample_connected_hub: "hub_inv (ap_hub sample_connected)" "hub_routed (ap_hub sample_connected) 7 = Some {}"
proof -
  obtain h ok where reg: "try_register_client sample_new_channel (ap_hub sample_app) 7 = (h, ok)" by fastforce
  then have ok: "ok" by (auto simp: try_register_client_def sample_app_def sample_hub_def with_client_limit_def Let_def split: if_splits)
  with reg have h: "ap_hub sample_connected = h" by (simp add: sample_connected_def open_session_def Let_def sample_app_def)
  from register_routed [OF sample_app_ok(2) reg] ok
  show "hub_inv (ap_hub sample_connected)" "hub_routed (ap_hub sample_connected) 7 = Some {}" by (simp_all add: h)
qed

lemma sample_turn:
  obtains a out where "session_turn sample_config all_providers (\<lambda>_. True) 7 (Incoming (Some (ClientText ''sub'')))
    (sample_connected, {}) = (a, out, Some {sample_ticker_key})"
    and "hub_routed (ap_hub a) 7 = Some {sample_ticker_key}"
proof -
  obtain o1 where o1: "open_session sample_config sample_new_channel (\<lambda>_. True) 7 sample_app = (sample_connected, o1, Some {})"
    "ap_registry sample_connected = ap_registry sample_app" "ap_catalog sample_connected = sample_state" by (rule sample_opened)
  obtain t v where tv: "registry_add all_providers (ap_registry sample_app) 7 [sample_ticker_key] = (t, v)" by fastforce
  have reg: "rg_max_per_client (ap_registry sample_app) = 2" "rg_limits (ap_registry sample_app) = uniform 5"
    by (simp_all add: sample_app_def with_provider_limits_def)
  obtain ch where ch: "v = Inr ch" "sc_client_subscriptions ch = {sample_ticker_key}"
    using registry_add_demand [OF sample_app_ok(1) set_all_providers sample_app_ok(3) tv] sample_demand
    by (auto simp: sample_client_keys reg split: sum.splits)
  have cmd: "ac_parse sample_config ''sub'' = Inr (SubscribeCommand ''r1'' [sample_subscription])"
    "ac_max_command_bytes sample_config = 1024" by (simp_all add: sample_config_def)
  let ?hub = "fst (update_client_subscriptions (ap_hub sample_connected) 7 {sample_ticker_key})"
  have "hub_routed ?hub 7 = Some {sample_ticker_key}"
    by (simp add: route_routed sample_connected_hub)
  then show thesis
    using sample_validated tv ch o1(2,3)
    by (intro that) (simp add: session_turn_def session_round_def handle_client_message_def handle_text_message_def
        parse_command_def cmd apply_command_def MAX_REQUEST_ID_BYTES_def subscribe_def set_routes_def send_to_def, simp)
qed

abbreviation sample_gateway_reachable :: "(nat \<times> market_event list) gateway \<Rightarrow> bool" where
  "sample_gateway_reachable \<equiv> reachable (gateway_start 2 (uniform 5))
     (gateway_step sample_config sample_catalog sample_new_channel sample_try_send sample_rx)"

lemma sample_gateway_subscribed:
  obtains a where "sample_gateway_reachable (a, [7 \<mapsto> {sample_ticker_key}])"
    and "hub_routed (ap_hub a) 7 = Some {sample_ticker_key}"
proof -
  obtain o1 where o1: "open_session sample_config sample_new_channel (\<lambda>_. True) 7 sample_app = (sample_connected, o1, Some {})"
    "ap_registry sample_connected = ap_registry sample_app" "ap_catalog sample_connected = sample_state" by (rule sample_opened)
  obtain a o2 where turn: "session_turn sample_config all_providers (\<lambda>_. True) 7 (Incoming (Some (ClientText ''sub'')))
    (sample_connected, {}) = (a, o2, Some {sample_ticker_key})" "hub_routed (ap_hub a) 7 = Some {sample_ticker_key}"
    by (rule sample_turn)
  have "gateway_start 2 (uniform 5) (sample_app, Map.empty)"
    using sample_hub_start by (auto simp: gateway_start_def sample_app_def)
  then have "sample_gateway_reachable (sample_app, Map.empty)" by (rule reachable_start)
  then have opened: "sample_gateway_reachable (sample_connected, Map.empty(7 \<mapsto> {}))"
    by (rule reachable_step) (rule gw_connect [OF _ o1(1)], simp)
  have fits: "turn_fits sample_config 7 (Incoming (Some (ClientText ''sub''))) sample_connected"
    using sample_validated sample_app_ok(3) o1(2,3) by (auto simp: turn_fits_def sample_config_def)
  have "gateway_step sample_config sample_catalog sample_new_channel sample_try_send sample_rx
      (sample_connected, Map.empty(7 \<mapsto> {})) (a, (Map.empty(7 \<mapsto> {}))(7 \<mapsto> {sample_ticker_key}))"
    by (rule gw_turn [OF _ set_all_providers fits turn(1)]) simp
  with opened have "sample_gateway_reachable (a, (Map.empty(7 \<mapsto> {}))(7 \<mapsto> {sample_ticker_key}))"
    by (rule reachable_step)
  then show thesis using turn(2) by (intro that) simp_all
qed

theorem gateway_reachable_consistent_witness:
  "\<exists>a. sample_gateway_reachable (a, [7 \<mapsto> {sample_ticker_key}]) \<and>
    rg_snapshot (ap_registry a) = {sample_ticker_key} \<and> mx_downstream_connections (ap_metrics a) = 1"
proof -
  obtain a where r: "sample_gateway_reachable (a, [7 \<mapsto> {sample_ticker_key}])"
    "hub_routed (ap_hub a) 7 = Some {sample_ticker_key}" by (rule sample_gateway_subscribed)
  from gateway_reachable_consistent [OF r(1)] r(1) show ?thesis by (intro exI [of _ a]) simp
qed

end
