(* ===== verification/History.thy ===== *)
theory History
  imports Rest
begin

text \<open>
  The candle history service (\<^verbatim>\<open>src/src/history.rs\<close>): the validated request, the paging loop of
  each venue, the row parsers, and the assembly of the result. The HTTP client, \<open>Url::join\<close> and
  the JSON readers are the fields of \<open>history_client\<close>; every theorem about fetching holds for
  any of them, so for any behaviour of the venue. A loop ends because each round counts a page
  and the count is bounded, which is its termination measure.
\<close>

section \<open>Requests\<close>

definition CANDLE_INTERVAL_MS :: u64 where
  "CANDLE_INTERVAL_MS = 60000"

definition MAX_HISTORY_CANDLES :: usize where
  "MAX_HISTORY_CANDLES = 10000"

definition MAX_HISTORY_RANGE_MS :: u64 where
  "MAX_HISTORY_RANGE_MS = 600000000"

definition BYBIT_PAGE_LIMIT :: usize where
  "BYBIT_PAGE_LIMIT = 1000"

definition BINANCE_PAGE_LIMIT :: usize where
  "BINANCE_PAGE_LIMIT = 1500"

definition OKX_PAGE_LIMIT :: usize where
  "OKX_PAGE_LIMIT = 300"

definition KUCOIN_PAGE_LIMIT :: u64 where
  "KUCOIN_PAGE_LIMIT = 500"

definition MEXC_PAGE_LIMIT :: u64 where
  "MEXC_PAGE_LIMIT = 2000"

definition BINGX_PAGE_LIMIT :: u64 where
  "BINGX_PAGE_LIMIT = 1440"

definition MAX_UPSTREAM_PAGES :: usize where
  "MAX_UPSTREAM_PAGES = 40"

definition MAX_RESPONSE_BYTES :: usize where
  "MAX_RESPONSE_BYTES = 4 * 1024 * 1024"

record history_sources =
  hs_bybit :: string
  hs_binance :: string
  hs_okx :: string
  hs_kucoin :: string
  hs_mexc :: string
  hs_bingx :: string

definition default_history_sources :: history_sources where
  "default_history_sources = \<lparr>hs_bybit = ''https://api.bybit.com/'', hs_binance = ''https://fapi.binance.com/'',
     hs_okx = ''https://www.okx.com/'', hs_kucoin = ''https://api-futures.kucoin.com/'',
     hs_mexc = ''https://api.mexc.com/'', hs_bingx = ''https://open-api.bingx.com/''\<rparr>"

record history_request =
  hr_provider :: provider
  hr_symbol :: string
  hr_start_time_ms :: u64
  hr_end_time_ms :: u64
  hr_limit :: usize

datatype history_error =
    InvalidRequest string
  | ClientBuild string
  | Transport provider string
  | HttpStatus provider nat string
  | ProviderRejected provider string string
  | InvalidHistory provider string
  | PaginationStalled provider u64

definition ascii_alphanumeric :: "string \<Rightarrow> bool" where
  "ascii_alphanumeric v \<longleftrightarrow> v \<noteq> [] \<and> list_all (\<lambda>b. is_ascii_alphanumeric (of_char b)) v"

definition unicode_alphanumeric :: "ext \<Rightarrow> string \<Rightarrow> bool" where
  "unicode_alphanumeric E v \<longleftrightarrow>
     v \<noteq> [] \<and> list_all (\<lambda>g. is_alphanumeric (uni_alnum E) (code_point g)) (chars v)"

definition history_okx_symbol :: "string \<Rightarrow> bool" where
  "history_okx_symbol symbol = (case strip_suffix ''-SWAP'' symbol of
     None \<Rightarrow> False
   | Some pair \<Rightarrow> (case split_once CHR ''-'' pair of
       None \<Rightarrow> False
     | Some (base, quote) \<Rightarrow>
         CHR ''-'' \<notin> set base \<and> ascii_alphanumeric base \<and> (quote = ''USDT'' \<or> quote = ''USDC'')))"

definition history_mexc_symbol :: "string \<Rightarrow> bool" where
  "history_mexc_symbol symbol = (case split_once CHR ''_'' symbol of
     None \<Rightarrow> False
   | Some (base, quote) \<Rightarrow>
       CHR ''_'' \<notin> set base \<and> ascii_alphanumeric base \<and> (quote = ''USDT'' \<or> quote = ''USDC''))"

definition history_bingx_symbol :: "string \<Rightarrow> bool" where
  "history_bingx_symbol symbol = (case split_once CHR ''-'' symbol of
     None \<Rightarrow> False
   | Some (base, quote) \<Rightarrow>
       CHR ''-'' \<notin> set base \<and> ascii_alphanumeric base \<and> (quote = ''USDT'' \<or> quote = ''USDC''))"

definition provider_symbol :: "ext \<Rightarrow> provider \<Rightarrow> string \<Rightarrow> bool" where
  "provider_symbol E p symbol = (case p of
     Bybit \<Rightarrow> ascii_alphanumeric symbol \<and> (ends_with ''USDT'' symbol \<or> ends_with ''USDC'' symbol)
   | Binance \<Rightarrow> unicode_alphanumeric E symbol \<and> (ends_with ''USDT'' symbol \<or> ends_with ''USDC'' symbol)
   | Okx \<Rightarrow> history_okx_symbol symbol
   | Kucoin \<Rightarrow> ascii_alphanumeric symbol \<and> (ends_with ''USDTM'' symbol \<or> ends_with ''USDCM'' symbol)
   | Mexc \<Rightarrow> history_mexc_symbol symbol
   | Bingx \<Rightarrow> history_bingx_symbol symbol)"

definition validate_provider_symbol :: "ext \<Rightarrow> provider \<Rightarrow> string \<Rightarrow> history_error + unit" where
  "validate_provider_symbol E p symbol =
     (if provider_symbol E p symbol then Inr ()
      else Inl (InvalidRequest (symbol @ '' is not an exact '' @ provider_name p @ '' linear perpetual symbol'')))"

definition new_history_request ::
  "ext \<Rightarrow> provider \<Rightarrow> string \<Rightarrow> u64 \<Rightarrow> u64 \<Rightarrow> usize \<Rightarrow> history_error + history_request" where
  "new_history_request E p provided_symbol start_time_ms end_time_ms limit =
     and_then (map_err (\<lambda>e. InvalidRequest (domain_error_text e)) (normalize_symbol E provided_symbol)) (\<lambda>normalized.
     if provided_symbol \<noteq> normalized
     then Inl (InvalidRequest ''symbol must be the exact uppercase venue symbol without surrounding whitespace'')
     else
       and_then (validate_provider_symbol E p normalized) (\<lambda>_.
       if start_time_ms = 0 \<or> \<not> is_multiple_of start_time_ms CANDLE_INTERVAL_MS
         \<or> \<not> is_multiple_of end_time_ms CANDLE_INTERVAL_MS
       then Inl (InvalidRequest ''history bounds must be positive UTC minute boundaries'')
       else
         and_then (ok_or (InvalidRequest ''end_time_ms must be greater than start_time_ms'')
           (checked_sub end_time_ms start_time_ms)) (\<lambda>range.
         if range = 0 then Inl (InvalidRequest ''end_time_ms must be greater than start_time_ms'')
         else if range > MAX_HISTORY_RANGE_MS
         then Inl (InvalidRequest (''history range exceeds '' @ show_nat (unat MAX_HISTORY_RANGE_MS) @ '' milliseconds''))
         else if \<not> (1 \<le> limit \<and> limit \<le> MAX_HISTORY_CANDLES)
         then Inl (InvalidRequest (''history limit must be between 1 and '' @ show_nat MAX_HISTORY_CANDLES))
         else Inr \<lparr>hr_provider = p, hr_symbol = normalized, hr_start_time_ms = start_time_ms,
                   hr_end_time_ms = end_time_ms, hr_limit = limit\<rparr>)))"

record history_candle =
  hcd_provider :: provider
  hcd_market :: market_kind
  hcd_symbol :: string
  hcd_candle :: candle

record history_result =
  hres_provider :: provider
  hres_market :: market_kind
  hres_symbol :: string
  hres_start_time_ms :: u64
  hres_end_time_ms :: u64
  hres_candles :: "history_candle list"

section \<open>Assembly of the result\<close>

definition in_request :: "history_request \<Rightarrow> candle \<Rightarrow> bool" where
  "in_request rq c \<longleftrightarrow> cd_start_time_ms c \<ge> hr_start_time_ms rq \<and> cd_end_time_ms c \<le> hr_end_time_ms rq"

text \<open>The loop over the sorted candles; \<open>unique\<close> is the vector it builds.\<close>

fun unique_candles :: "provider \<Rightarrow> candle list \<Rightarrow> candle list \<Rightarrow> history_error + candle list" where
  "unique_candles p unique [] = Inr unique"
| "unique_candles p unique (c # cs) =
     (if unique \<noteq> [] \<and> cd_start_time_ms (last unique) = cd_start_time_ms c
      then if last unique \<noteq> c
           then Inl (InvalidHistory p (''conflicting duplicate candle at '' @ show_nat (unat (cd_start_time_ms c))))
           else unique_candles p unique cs
      else unique_candles p (unique @ [c]) cs)"

definition finish_sorted :: "history_request \<Rightarrow> candle list \<Rightarrow> history_error + history_result" where
  "finish_sorted rq sorted_candles =
     and_then (unique_candles (hr_provider rq) [] sorted_candles) (\<lambda>unique.
     Inr \<lparr>hres_provider = hr_provider rq, hres_market = LinearPerpetual, hres_symbol = hr_symbol rq,
          hres_start_time_ms = hr_start_time_ms rq, hres_end_time_ms = hr_end_time_ms rq,
          hres_candles = map (\<lambda>c. \<lparr>hcd_provider = hr_provider rq, hcd_market = LinearPerpetual,
              hcd_symbol = hr_symbol rq, hcd_candle = c\<rparr>) (take (hr_limit rq) unique)\<rparr>)"

definition finish_result :: "history_request \<Rightarrow> candle list \<Rightarrow> history_error + history_result" where
  "finish_result rq candles = finish_sorted rq (sort_key cd_start_time_ms (filter (in_request rq) candles))"

section \<open>Candles\<close>

record candle_fields =
  cf_start_time_ms :: u64
  cf_open :: string
  cf_high :: string
  cf_low :: string
  cf_close :: string
  cf_base_volume :: "string option"
  cf_quote_volume :: "string option"
  cf_contract_volume :: "string option"
  cf_finality :: candle_finality
  cf_data_quality :: "data_quality list"

definition history_decimal :: "ext \<Rightarrow> provider \<Rightarrow> string \<Rightarrow> string \<Rightarrow> history_error + decimal_value" where
  "history_decimal E p v field =
     and_then (if CHR ''e'' \<in> set v \<or> CHR ''E'' \<in> set v
         then ok_or (InvalidHistory p (''invalid '' @ field @ '': '' @ v))
           (map_option (dec_to_string E) (dec_from_scientific E v))
         else Inr v) (\<lambda>normalized.
       map_err (\<lambda>e. InvalidHistory p (''invalid '' @ field @ '': '' @ domain_error_text e))
         (new_decimal_value E normalized))"

definition optional_history_decimal ::
  "ext \<Rightarrow> provider \<Rightarrow> string option \<Rightarrow> string \<Rightarrow> history_error + decimal_value option" where
  "optional_history_decimal E p v field = transpose_opt (\<lambda>s. history_decimal E p s field) v"

definition candle_end :: "provider \<Rightarrow> u64 \<Rightarrow> history_error + u64" where
  "candle_end p start_time_ms =
     ok_or (InvalidHistory p ''candle end timestamp overflow'') (checked_add start_time_ms CANDLE_INTERVAL_MS)"

definition build_candle :: "ext \<Rightarrow> provider \<Rightarrow> candle_fields \<Rightarrow> history_error + candle" where
  "build_candle E p f =
     (if \<not> is_multiple_of (cf_start_time_ms f) CANDLE_INTERVAL_MS
      then Inl (InvalidHistory p (''candle start '' @ show_nat (unat (cf_start_time_ms f)) @ '' is not a UTC minute boundary''))
      else
        and_then (candle_end p (cf_start_time_ms f)) (\<lambda>end_time_ms.
        and_then (history_decimal E p (cf_open f) ''open'') (\<lambda>open'.
        and_then (history_decimal E p (cf_high f) ''high'') (\<lambda>high.
        and_then (history_decimal E p (cf_low f) ''low'') (\<lambda>low.
        and_then (history_decimal E p (cf_close f) ''close'') (\<lambda>close.
        and_then (optional_history_decimal E p (cf_base_volume f) ''base volume'') (\<lambda>base.
        and_then (optional_history_decimal E p (cf_quote_volume f) ''quote volume'') (\<lambda>quote.
        and_then (optional_history_decimal E p (cf_contract_volume f) ''contract volume'') (\<lambda>contract.
          let candle = \<lparr>cd_interval = ''1m'', cd_start_time_ms = cf_start_time_ms f,
            cd_end_time_ms = end_time_ms, cd_open = open', cd_high = high, cd_low = low, cd_close = close,
            cd_base_volume = base, cd_quote_volume = quote, cd_contract_volume = contract,
            cd_finality = cf_finality f, cd_data_quality = cf_data_quality f\<rparr>
          in and_then (map_err (\<lambda>e. InvalidHistory p (domain_error_text e)) (validate_candle E candle))
               (\<lambda>_. Inr candle))))))))))"

definition elapsed_finality :: "u64 \<Rightarrow> u64 \<Rightarrow> candle_finality" where
  "elapsed_finality end_time_ms server_time_ms = (if end_time_ms \<le> server_time_ms then Closed else Open)"

section \<open>Raw tokens\<close>

definition raw_decimal :: "raw_lib \<Rightarrow> provider \<Rightarrow> string \<Rightarrow> string \<Rightarrow> history_error + string" where
  "raw_decimal J p raw field =
     (if starts_with [CHR 0x22] raw
      then map_err (\<lambda>e. InvalidHistory p (''invalid '' @ field @ '': '' @ e))
        (case js_from_str J raw of
           Inl e \<Rightarrow> Inl e
         | Inr v \<Rightarrow> ok_or (js_error J v) (js_as_str v))
      else Inr raw)"

definition parse_u64_text :: "provider \<Rightarrow> string \<Rightarrow> string \<Rightarrow> history_error + u64" where
  "parse_u64_text p v field =
     (if v = [] \<or> \<not> all_digits v then Inl (InvalidHistory p (field @ '' must be an unsigned integer''))
      else ok_or (InvalidHistory p (field @ '' is out of range'')) (parse_u64 v))"

definition raw_u64 :: "raw_lib \<Rightarrow> provider \<Rightarrow> string \<Rightarrow> string \<Rightarrow> history_error + u64" where
  "raw_u64 J p raw field = and_then (raw_decimal J p raw field) (\<lambda>t. parse_u64_text p t field)"

definition require_len :: "provider \<Rightarrow> nat \<Rightarrow> nat \<Rightarrow> history_error + unit" where
  "require_len p actual expected =
     (if actual = expected then Inr ()
      else Inl (InvalidHistory p (''candle row has '' @ show_nat actual @ '' fields; expected '' @ show_nat expected)))"

definition parse_json :: "raw_lib \<Rightarrow> (string \<Rightarrow> 'a option) \<Rightarrow> string \<Rightarrow> provider \<Rightarrow> history_error + 'a" where
  "parse_json J decode body p = ok_or (InvalidHistory p (''invalid JSON: '' @ raw_error J body)) (decode body)"

section \<open>Venue responses\<close>

subsection \<open>Bybit\<close>

record bybit_header =
  byh_ret_code :: int
  byh_ret_msg :: string

record bybit_result =
  byr_category :: string
  byr_symbol :: string
  byr_list :: "string list list"

record bybit_response =
  bys_ret_code :: int
  bys_result :: bybit_result
  bys_time :: u64

definition decode_bybit_header :: "raw_lib \<Rightarrow> string \<Rightarrow> bybit_header option" where
  "decode_bybit_header J t =
     Option.bind (raw_struct J [''retCode'', ''retMsg''] 2 t) (\<lambda>fs.
     Option.bind (raw_field (raw_int64 J) fs ''retCode'') (\<lambda>code.
     Option.bind (raw_field (raw_string J) fs ''retMsg'') (\<lambda>msg.
     Some \<lparr>byh_ret_code = code, byh_ret_msg = msg\<rparr>)))"

definition decode_bybit_result :: "raw_lib \<Rightarrow> string \<Rightarrow> bybit_result option" where
  "decode_bybit_result J t =
     Option.bind (raw_struct J [''category'', ''symbol'', ''list''] 3 t) (\<lambda>fs.
     Option.bind (raw_field (raw_string J) fs ''category'') (\<lambda>category.
     Option.bind (raw_field (raw_string J) fs ''symbol'') (\<lambda>symbol.
     Option.bind (raw_field (raw_list J (raw_list J (raw_string J))) fs ''list'') (\<lambda>rows.
     Some \<lparr>byr_category = category, byr_symbol = symbol, byr_list = rows\<rparr>))))"

definition decode_bybit_response :: "raw_lib \<Rightarrow> string \<Rightarrow> bybit_response option" where
  "decode_bybit_response J t =
     Option.bind (raw_struct J [''retCode'', ''result'', ''time''] 3 t) (\<lambda>fs.
     Option.bind (raw_field (raw_int64 J) fs ''retCode'') (\<lambda>code.
     Option.bind (raw_field (decode_bybit_result J) fs ''result'') (\<lambda>result.
     Option.bind (raw_field (raw_word64 J) fs ''time'') (\<lambda>time.
     Some \<lparr>bys_ret_code = code, bys_result = result, bys_time = time\<rparr>))))"

definition parse_bybit_row :: "ext \<Rightarrow> u64 \<Rightarrow> string list \<Rightarrow> history_error + candle" where
  "parse_bybit_row E server_time_ms row =
     and_then (require_len Bybit (length row) 7) (\<lambda>_.
     and_then (parse_u64_text Bybit (row ! 0) ''start time'') (\<lambda>start_time_ms.
     and_then (candle_end Bybit start_time_ms) (\<lambda>end_time_ms.
     build_candle E Bybit \<lparr>cf_start_time_ms = start_time_ms, cf_open = row ! 1, cf_high = row ! 2,
       cf_low = row ! 3, cf_close = row ! 4, cf_base_volume = Some (row ! 5),
       cf_quote_volume = Some (row ! 6), cf_contract_volume = None,
       cf_finality = elapsed_finality end_time_ms server_time_ms, cf_data_quality = []\<rparr>)))"

definition parse_bybit :: "ext \<Rightarrow> raw_lib \<Rightarrow> string \<Rightarrow> string \<Rightarrow> history_error + candle list" where
  "parse_bybit E J body expected_symbol =
     and_then (parse_json J (decode_bybit_header J) body Bybit) (\<lambda>header.
     if byh_ret_code header \<noteq> 0
     then Inl (ProviderRejected Bybit (show_int (byh_ret_code header)) (byh_ret_msg header))
     else
       and_then (parse_json J (decode_bybit_response J) body Bybit) (\<lambda>response.
       if bys_ret_code response \<noteq> 0
       then Inl (InvalidHistory Bybit ''successful envelope changed retCode while parsing'')
       else if byr_category (bys_result response) \<noteq> ''linear''
         \<or> byr_symbol (bys_result response) \<noteq> expected_symbol
       then Inl (InvalidHistory Bybit ''response category or symbol does not match request'')
       else collect_results (parse_bybit_row E (bys_time response)) (byr_list (bys_result response))))"

subsection \<open>Binance\<close>

definition parse_binance_row :: "ext \<Rightarrow> raw_lib \<Rightarrow> u64 \<Rightarrow> string list \<Rightarrow> history_error + candle" where
  "parse_binance_row E J server_time_ms row =
     and_then (require_len Binance (length row) 12) (\<lambda>_.
     and_then (raw_u64 J Binance (row ! 0) ''open time'') (\<lambda>start_time_ms.
     and_then (raw_u64 J Binance (row ! 6) ''close time'') (\<lambda>close_time_ms.
     and_then (candle_end Binance start_time_ms) (\<lambda>end_time_ms.
     if checked_add close_time_ms 1 \<noteq> Some end_time_ms
     then Inl (InvalidHistory Binance ''one-minute close time is not open time plus 59,999 milliseconds'')
     else
       and_then (raw_decimal J Binance (row ! 1) ''open'') (\<lambda>open'.
       and_then (raw_decimal J Binance (row ! 2) ''high'') (\<lambda>high.
       and_then (raw_decimal J Binance (row ! 3) ''low'') (\<lambda>low.
       and_then (raw_decimal J Binance (row ! 4) ''close'') (\<lambda>close.
       and_then (raw_decimal J Binance (row ! 5) ''base volume'') (\<lambda>base.
       and_then (raw_decimal J Binance (row ! 7) ''quote volume'') (\<lambda>quote.
       build_candle E Binance \<lparr>cf_start_time_ms = start_time_ms, cf_open = open', cf_high = high,
         cf_low = low, cf_close = close, cf_base_volume = Some base, cf_quote_volume = Some quote,
         cf_contract_volume = None, cf_finality = elapsed_finality end_time_ms server_time_ms,
         cf_data_quality = []\<rparr>))))))))))"

definition parse_binance :: "ext \<Rightarrow> raw_lib \<Rightarrow> string \<Rightarrow> u64 \<Rightarrow> history_error + candle list" where
  "parse_binance E J body server_time_ms =
     and_then (ok_or (InvalidHistory Binance (''response is not a kline array: '' @ raw_error J body))
       (raw_list J (raw_elements J) body)) (\<lambda>rows.
     collect_results (parse_binance_row E J server_time_ms) rows)"

definition decode_binance_time :: "raw_lib \<Rightarrow> string \<Rightarrow> u64 option" where
  "decode_binance_time J t =
     Option.bind (raw_struct J [''serverTime''] 1 t) (\<lambda>fs. raw_field (raw_word64 J) fs ''serverTime'')"

definition parse_binance_server_time :: "raw_lib \<Rightarrow> string \<Rightarrow> history_error + u64" where
  "parse_binance_server_time J body =
     and_then (parse_json J (decode_binance_time J) body Binance) (\<lambda>server_time.
     if server_time = 0 then Inl (InvalidHistory Binance ''serverTime must be positive'')
     else Inr server_time)"

subsection \<open>OKX\<close>

definition decode_okx_header :: "raw_lib \<Rightarrow> string \<Rightarrow> (string \<times> string) option" where
  "decode_okx_header J t =
     Option.bind (raw_struct J [''code'', ''msg''] 2 t) (\<lambda>fs.
     Option.bind (raw_field (raw_string J) fs ''code'') (\<lambda>code.
     Option.bind (raw_field (raw_string J) fs ''msg'') (\<lambda>msg. Some (code, msg))))"

definition decode_okx_response :: "raw_lib \<Rightarrow> string \<Rightarrow> (string \<times> string list list) option" where
  "decode_okx_response J t =
     Option.bind (raw_struct J [''code'', ''data''] 2 t) (\<lambda>fs.
     Option.bind (raw_field (raw_string J) fs ''code'') (\<lambda>code.
     Option.bind (raw_field (raw_list J (raw_list J (raw_string J))) fs ''data'') (\<lambda>data. Some (code, data))))"

definition parse_okx_row :: "ext \<Rightarrow> string list \<Rightarrow> history_error + candle" where
  "parse_okx_row E row =
     and_then (require_len Okx (length row) 9) (\<lambda>_.
     and_then (if row ! 8 = ''0'' then Inr Open
       else if row ! 8 = ''1'' then Inr Closed
       else Inl (InvalidHistory Okx (''unknown confirm value '' @ row ! 8))) (\<lambda>finality.
     and_then (parse_u64_text Okx (row ! 0) ''start time'') (\<lambda>start_time_ms.
     build_candle E Okx \<lparr>cf_start_time_ms = start_time_ms, cf_open = row ! 1, cf_high = row ! 2,
       cf_low = row ! 3, cf_close = row ! 4, cf_base_volume = Some (row ! 6),
       cf_quote_volume = Some (row ! 7), cf_contract_volume = Some (row ! 5),
       cf_finality = finality, cf_data_quality = []\<rparr>)))"

definition parse_okx :: "ext \<Rightarrow> raw_lib \<Rightarrow> string \<Rightarrow> history_error + candle list" where
  "parse_okx E J body =
     and_then (parse_json J (decode_okx_header J) body Okx) (\<lambda>(code, msg).
     if code \<noteq> ''0'' then Inl (ProviderRejected Okx code msg)
     else
       and_then (parse_json J (decode_okx_response J) body Okx) (\<lambda>(code', data).
       if code' \<noteq> ''0'' then Inl (InvalidHistory Okx ''successful envelope changed code while parsing'')
       else collect_results (parse_okx_row E) data))"

subsection \<open>KuCoin\<close>

definition decode_kucoin_header :: "raw_lib \<Rightarrow> string \<Rightarrow> (string \<times> string) option" where
  "decode_kucoin_header J t =
     Option.bind (raw_struct J [''code'', ''msg''] 1 t) (\<lambda>fs.
     Option.bind (raw_field (raw_string J) fs ''code'') (\<lambda>code.
     Option.bind (raw_field_default [] (raw_string J) fs ''msg'') (\<lambda>msg. Some (code, msg))))"

definition decode_kucoin_response :: "raw_lib \<Rightarrow> string \<Rightarrow> (string \<times> string list list) option" where
  "decode_kucoin_response J t =
     Option.bind (raw_struct J [''code'', ''data''] 2 t) (\<lambda>fs.
     Option.bind (raw_field (raw_string J) fs ''code'') (\<lambda>code.
     Option.bind (raw_field (raw_list J (raw_elements J)) fs ''data'') (\<lambda>data. Some (code, data))))"

definition parse_kucoin_row :: "ext \<Rightarrow> raw_lib \<Rightarrow> string list \<Rightarrow> history_error + candle" where
  "parse_kucoin_row E J row =
     and_then (require_len Kucoin (length row) 7) (\<lambda>_.
     and_then (raw_u64 J Kucoin (row ! 0) ''start time'') (\<lambda>start_time_ms.
     and_then (raw_decimal J Kucoin (row ! 1) ''open'') (\<lambda>open'.
     and_then (raw_decimal J Kucoin (row ! 2) ''high'') (\<lambda>high.
     and_then (raw_decimal J Kucoin (row ! 3) ''low'') (\<lambda>low.
     and_then (raw_decimal J Kucoin (row ! 4) ''close'') (\<lambda>close.
     build_candle E Kucoin \<lparr>cf_start_time_ms = start_time_ms, cf_open = open', cf_high = high,
       cf_low = low, cf_close = close, cf_base_volume = None, cf_quote_volume = None,
       cf_contract_volume = None, cf_finality = Unknown,
       cf_data_quality = [ProviderVolumeUntrusted]\<rparr>))))))"

definition parse_kucoin :: "ext \<Rightarrow> raw_lib \<Rightarrow> string \<Rightarrow> history_error + candle list" where
  "parse_kucoin E J body =
     and_then (parse_json J (decode_kucoin_header J) body Kucoin) (\<lambda>(code, msg).
     if code \<noteq> ''200000'' then Inl (ProviderRejected Kucoin code msg)
     else
       and_then (parse_json J (decode_kucoin_response J) body Kucoin) (\<lambda>(code', data).
       if code' \<noteq> ''200000'' then Inl (InvalidHistory Kucoin ''successful envelope changed code while parsing'')
       else collect_results (parse_kucoin_row E J) data))"

subsection \<open>MEXC\<close>

record mexc_history_data =
  mhd_time :: "string list"
  mhd_open :: "string list"
  mhd_close :: "string list"
  mhd_high :: "string list"
  mhd_low :: "string list"
  mhd_vol :: "string list"
  mhd_amount :: "string list"

record mexc_history_envelope =
  mhe_success :: bool
  mhe_code :: int
  mhe_data :: mexc_history_data

definition decode_mexc_history_data :: "raw_lib \<Rightarrow> string \<Rightarrow> mexc_history_data option" where
  "decode_mexc_history_data J t =
     Option.bind (raw_struct J [''time'', ''open'', ''close'', ''high'', ''low'', ''vol'', ''amount''] 7 t) (\<lambda>fs.
     Option.bind (raw_field (raw_elements J) fs ''time'') (\<lambda>time.
     Option.bind (raw_field (raw_elements J) fs ''open'') (\<lambda>open'.
     Option.bind (raw_field (raw_elements J) fs ''close'') (\<lambda>close.
     Option.bind (raw_field (raw_elements J) fs ''high'') (\<lambda>high.
     Option.bind (raw_field (raw_elements J) fs ''low'') (\<lambda>low.
     Option.bind (raw_field (raw_elements J) fs ''vol'') (\<lambda>vol.
     Option.bind (raw_field (raw_elements J) fs ''amount'') (\<lambda>amount.
     Some \<lparr>mhd_time = time, mhd_open = open', mhd_close = close, mhd_high = high, mhd_low = low,
           mhd_vol = vol, mhd_amount = amount\<rparr>))))))))"

definition decode_mexc_history :: "raw_lib \<Rightarrow> string \<Rightarrow> mexc_history_envelope option" where
  "decode_mexc_history J t =
     Option.bind (raw_struct J [''success'', ''code'', ''data''] 3 t) (\<lambda>fs.
     Option.bind (raw_field (raw_bool J) fs ''success'') (\<lambda>success.
     Option.bind (raw_field (raw_int64 J) fs ''code'') (\<lambda>code.
     Option.bind (raw_field (decode_mexc_history_data J) fs ''data'') (\<lambda>data.
     Some \<lparr>mhe_success = success, mhe_code = code, mhe_data = data\<rparr>))))"

definition show_bool :: "bool \<Rightarrow> string" where
  "show_bool b = (if b then ''true'' else ''false'')"

fun check_parallel :: "nat \<Rightarrow> (string \<times> nat) list \<Rightarrow> history_error + unit" where
  "check_parallel expected [] = Inr ()"
| "check_parallel expected ((field, actual) # rest) =
     (if actual \<noteq> expected
      then Inl (InvalidHistory Mexc (''parallel '' @ field @ '' array has '' @ show_nat actual
        @ '' rows; expected '' @ show_nat expected))
      else check_parallel expected rest)"

definition parse_mexc_row ::
  "ext \<Rightarrow> raw_lib \<Rightarrow> u64 \<Rightarrow> mexc_history_data \<Rightarrow> nat \<Rightarrow> history_error + candle" where
  "parse_mexc_row E J server_time_ms data i =
     and_then (raw_u64 J Mexc (mhd_time data ! i) ''time'') (\<lambda>seconds.
     and_then (ok_or (InvalidHistory Mexc ''candle start timestamp overflow'') (checked_mul seconds 1000)) (\<lambda>start_time_ms.
     and_then (candle_end Mexc start_time_ms) (\<lambda>end_time_ms.
     and_then (raw_decimal J Mexc (mhd_open data ! i) ''open'') (\<lambda>open'.
     and_then (raw_decimal J Mexc (mhd_high data ! i) ''high'') (\<lambda>high.
     and_then (raw_decimal J Mexc (mhd_low data ! i) ''low'') (\<lambda>low.
     and_then (raw_decimal J Mexc (mhd_close data ! i) ''close'') (\<lambda>close.
     and_then (raw_decimal J Mexc (mhd_amount data ! i) ''quote volume'') (\<lambda>quote.
     and_then (raw_decimal J Mexc (mhd_vol data ! i) ''contract volume'') (\<lambda>contract.
     build_candle E Mexc \<lparr>cf_start_time_ms = start_time_ms, cf_open = open', cf_high = high,
       cf_low = low, cf_close = close, cf_base_volume = None, cf_quote_volume = Some quote,
       cf_contract_volume = Some contract, cf_finality = elapsed_finality end_time_ms server_time_ms,
       cf_data_quality = []\<rparr>)))))))))"

definition parse_mexc :: "ext \<Rightarrow> raw_lib \<Rightarrow> string \<Rightarrow> u64 \<Rightarrow> history_error + candle list" where
  "parse_mexc E J body server_time_ms =
     and_then (parse_json J (decode_mexc_history J) body Mexc) (\<lambda>response.
     if \<not> mhe_success response \<or> mhe_code response \<noteq> 0
     then Inl (ProviderRejected Mexc (show_int (mhe_code response)) (''success='' @ show_bool (mhe_success response)))
     else
       let data = mhe_data response; expected = length (mhd_time data)
       in and_then (check_parallel expected
            [(''open'', length (mhd_open data)), (''close'', length (mhd_close data)),
             (''high'', length (mhd_high data)), (''low'', length (mhd_low data)),
             (''vol'', length (mhd_vol data)), (''amount'', length (mhd_amount data))]) (\<lambda>_.
          collect_results (parse_mexc_row E J server_time_ms data) [0 ..< expected]))"

definition decode_mexc_time :: "raw_lib \<Rightarrow> string \<Rightarrow> (bool \<times> int \<times> u64) option" where
  "decode_mexc_time J t =
     Option.bind (raw_struct J [''success'', ''code'', ''data''] 3 t) (\<lambda>fs.
     Option.bind (raw_field (raw_bool J) fs ''success'') (\<lambda>success.
     Option.bind (raw_field (raw_int64 J) fs ''code'') (\<lambda>code.
     Option.bind (raw_field (raw_word64 J) fs ''data'') (\<lambda>data. Some (success, code, data)))))"

definition parse_mexc_server_time :: "raw_lib \<Rightarrow> string \<Rightarrow> history_error + u64" where
  "parse_mexc_server_time J body =
     and_then (parse_json J (decode_mexc_time J) body Mexc) (\<lambda>(success, code, data).
     if \<not> success \<or> code \<noteq> 0
     then Inl (ProviderRejected Mexc (show_int code) (''success='' @ show_bool success))
     else if data = 0 then Inl (InvalidHistory Mexc ''server time must be positive'')
     else Inr data)"

subsection \<open>BingX\<close>

record bingx_history_envelope =
  bhe_code :: int
  bhe_msg :: string
  bhe_data :: "string list"

record bingx_history_object =
  bho_open :: string
  bho_close :: string
  bho_high :: string
  bho_low :: string
  bho_volume :: string
  bho_time :: string

definition decode_bingx_history :: "raw_lib \<Rightarrow> string \<Rightarrow> bingx_history_envelope option" where
  "decode_bingx_history J t =
     Option.bind (raw_struct J [''code'', ''msg'', ''data''] 3 t) (\<lambda>fs.
     Option.bind (raw_field (raw_int64 J) fs ''code'') (\<lambda>code.
     Option.bind (raw_field_default [] (raw_string J) fs ''msg'') (\<lambda>msg.
     Option.bind (raw_field (raw_elements J) fs ''data'') (\<lambda>data.
     Some \<lparr>bhe_code = code, bhe_msg = msg, bhe_data = data\<rparr>))))"

definition decode_bingx_object :: "raw_lib \<Rightarrow> string \<Rightarrow> bingx_history_object option" where
  "decode_bingx_object J t =
     Option.bind (raw_struct J [''open'', ''close'', ''high'', ''low'', ''volume'', ''time''] 6 t) (\<lambda>fs.
     Option.bind (map_of fs ''open'') (\<lambda>open'.
     Option.bind (map_of fs ''close'') (\<lambda>close.
     Option.bind (map_of fs ''high'') (\<lambda>high.
     Option.bind (map_of fs ''low'') (\<lambda>low.
     Option.bind (map_of fs ''volume'') (\<lambda>volume.
     Option.bind (map_of fs ''time'') (\<lambda>time.
     Some \<lparr>bho_open = open', bho_close = close, bho_high = high, bho_low = low, bho_volume = volume,
           bho_time = time\<rparr>)))))))"

definition bingx_object_fields :: "raw_lib \<Rightarrow> u64 \<Rightarrow> string \<Rightarrow> history_error + candle_fields" where
  "bingx_object_fields J server_time_ms raw =
     and_then (ok_or (InvalidHistory Bingx (''invalid object candle row: '' @ raw_error J raw))
       (decode_bingx_object J raw)) (\<lambda>row.
     and_then (raw_u64 J Bingx (bho_time row) ''time'') (\<lambda>start_time_ms.
     and_then (candle_end Bingx start_time_ms) (\<lambda>end_time_ms.
     and_then (raw_decimal J Bingx (bho_open row) ''open'') (\<lambda>open'.
     and_then (raw_decimal J Bingx (bho_high row) ''high'') (\<lambda>high.
     and_then (raw_decimal J Bingx (bho_low row) ''low'') (\<lambda>low.
     and_then (raw_decimal J Bingx (bho_close row) ''close'') (\<lambda>close.
     and_then (raw_decimal J Bingx (bho_volume row) ''base volume'') (\<lambda>base.
     Inr \<lparr>cf_start_time_ms = start_time_ms, cf_open = open', cf_high = high, cf_low = low,
          cf_close = close, cf_base_volume = Some base, cf_quote_volume = None,
          cf_contract_volume = None, cf_finality = elapsed_finality end_time_ms server_time_ms,
          cf_data_quality = []\<rparr>))))))))"

definition bingx_array_fields :: "raw_lib \<Rightarrow> u64 \<Rightarrow> string \<Rightarrow> history_error + candle_fields" where
  "bingx_array_fields J server_time_ms raw =
     and_then (ok_or (InvalidHistory Bingx (''invalid array candle row: '' @ raw_error J raw))
       (raw_elements J raw)) (\<lambda>row.
     and_then (require_len Bingx (length row) 11) (\<lambda>_.
     and_then (raw_u64 J Bingx (row ! 0) ''open time'') (\<lambda>start_time_ms.
     and_then (candle_end Bingx start_time_ms) (\<lambda>end_time_ms.
     and_then (raw_u64 J Bingx (row ! 6) ''close time'') (\<lambda>close_time_ms.
     if checked_add close_time_ms 1 \<noteq> Some end_time_ms
     then Inl (InvalidHistory Bingx ''one-minute candle close time is inconsistent with open time'')
     else
       and_then (raw_decimal J Bingx (row ! 1) ''open'') (\<lambda>open'.
       and_then (raw_decimal J Bingx (row ! 2) ''high'') (\<lambda>high.
       and_then (raw_decimal J Bingx (row ! 3) ''low'') (\<lambda>low.
       and_then (raw_decimal J Bingx (row ! 4) ''close'') (\<lambda>close.
       and_then (raw_decimal J Bingx (row ! 5) ''base volume'') (\<lambda>base.
       and_then (raw_decimal J Bingx (row ! 7) ''quote volume'') (\<lambda>quote.
       Inr \<lparr>cf_start_time_ms = start_time_ms, cf_open = open', cf_high = high, cf_low = low,
            cf_close = close, cf_base_volume = Some base, cf_quote_volume = Some quote,
            cf_contract_volume = None, cf_finality = elapsed_finality end_time_ms server_time_ms,
            cf_data_quality = []\<rparr>)))))))))))"

definition trim_start :: "string \<Rightarrow> string" where
  "trim_start s = concat (trim_start_chars (chars s))"

definition parse_bingx_row :: "ext \<Rightarrow> raw_lib \<Rightarrow> u64 \<Rightarrow> string \<Rightarrow> history_error + candle" where
  "parse_bingx_row E J server_time_ms row =
     (let raw = trim_start row
      in and_then (if starts_with ''{'' raw then bingx_object_fields J server_time_ms raw
           else if starts_with ''['' raw then bingx_array_fields J server_time_ms raw
           else Inl (InvalidHistory Bingx ''candle row must be an object or array'')) (build_candle E Bingx))"

definition parse_bingx :: "ext \<Rightarrow> raw_lib \<Rightarrow> string \<Rightarrow> u64 \<Rightarrow> history_error + candle list" where
  "parse_bingx E J body server_time_ms =
     and_then (parse_json J (decode_bingx_history J) body Bingx) (\<lambda>response.
     if bhe_code response \<noteq> 0
     then Inl (ProviderRejected Bingx (show_int (bhe_code response)) (bhe_msg response))
     else collect_results (parse_bingx_row E J server_time_ms) (bhe_data response))"

definition decode_bingx_time :: "raw_lib \<Rightarrow> string \<Rightarrow> (int \<times> string \<times> u64) option" where
  "decode_bingx_time J t =
     Option.bind (raw_struct J [''code'', ''msg'', ''data''] 3 t) (\<lambda>fs.
     Option.bind (raw_field (raw_int64 J) fs ''code'') (\<lambda>code.
     Option.bind (raw_field_default [] (raw_string J) fs ''msg'') (\<lambda>msg.
     Option.bind (raw_field (decode_binance_time J) fs ''data'') (\<lambda>server_time.
     Some (code, msg, server_time)))))"

definition parse_bingx_server_time :: "raw_lib \<Rightarrow> string \<Rightarrow> history_error + u64" where
  "parse_bingx_server_time J body =
     and_then (parse_json J (decode_bingx_time J) body Bingx) (\<lambda>(code, msg, server_time).
     if code \<noteq> 0 then Inl (ProviderRejected Bingx (show_int code) msg)
     else if server_time = 0 then Inl (InvalidHistory Bingx ''serverTime must be positive'')
     else Inr server_time)"

section \<open>HTTP\<close>

record 'h history_client =
  hc_sources :: history_sources
  hc_send :: "'h http_send"
  hc_join :: "string \<Rightarrow> string \<Rightarrow> string + string"
  hc_json :: raw_lib
  hc_ext :: ext

definition summarize :: "string \<Rightarrow> string" where
  "summarize v = (let summary = take_chars 256 v in if summary = [] then ''empty response'' else summary)"

definition provider_error_details :: "raw_lib \<Rightarrow> provider \<Rightarrow> string \<Rightarrow> (string \<times> string) option" where
  "provider_error_details J p body = (case js_from_str J body of
     Inl _ \<Rightarrow> None
   | Inr object \<Rightarrow>
       let (code_field, message_field) = (if p = Bybit then (''retCode'', ''retMsg'') else (''code'', ''msg''))
       in Option.bind (js_get object code_field) (\<lambda>code.
          Some ((case js_as_str code of Some s \<Rightarrow> s | None \<Rightarrow> js_to_string J code),
            (case get_str object message_field of Some m \<Rightarrow> m | None \<Rightarrow> ''provider rejected request''))))"

definition http_error :: "raw_lib \<Rightarrow> provider \<Rightarrow> nat \<Rightarrow> string \<Rightarrow> history_error" where
  "http_error J p status body = (case provider_error_details J p body of
     Some (code, message) \<Rightarrow> ProviderRejected p code message
   | None \<Rightarrow> HttpStatus p status (summarize body))"

definition get_text :: "'h history_client \<Rightarrow> provider \<Rightarrow> rest_url \<Rightarrow> ('h, history_error, string) query" where
  "get_text C p url h = (case hc_send C h url of
     (h', Inl source) \<Rightarrow> (h', Inl (Transport p source))
   | (h', Inr (status, Inl source)) \<Rightarrow> (h', Inl (Transport p source))
   | (h', Inr (status, Inr bytes)) \<Rightarrow>
       (h', if length bytes > MAX_RESPONSE_BYTES
            then Inl (InvalidHistory p (''response exceeds '' @ show_nat MAX_RESPONSE_BYTES @ '' bytes''))
            else case from_utf8 bytes of
              None \<Rightarrow> Inl (InvalidHistory p ''response is not UTF-8'')
            | Some body \<Rightarrow> if \<not> is_success status then Inl (http_error (hc_json C) p status body) else Inr body))"

definition rest_endpoint :: "'h history_client \<Rightarrow> string \<Rightarrow> string \<Rightarrow> provider \<Rightarrow> history_error + string" where
  "rest_endpoint C base path p =
     map_err (\<lambda>e. InvalidHistory p (''invalid REST source: '' @ e)) (hc_join C base path)"

definition exclusive_query_end :: "u64 \<Rightarrow> history_error + u64" where
  "exclusive_query_end end_time_ms =
     ok_or (InvalidRequest ''exclusive end timestamp must be positive'') (checked_sub end_time_ms 1)"

definition count_page :: "provider \<Rightarrow> usize \<Rightarrow> history_error + usize" where
  "count_page p pages = (if pages \<ge> MAX_UPSTREAM_PAGES then Inl (PaginationStalled p 0) else Inr (pages + 1))"

definition show_u64 :: "u64 \<Rightarrow> string" where
  "show_u64 n = show_nat (unat n)"

section \<open>Paging\<close>

text \<open>
  Backward paging (Bybit, OKX): every page ends where the oldest candle so far begins. \<open>page\<close>
  fetches one page for the cursor.
\<close>

function backward_pages ::
  "provider \<Rightarrow> usize \<Rightarrow> u64 \<Rightarrow> (u64 \<Rightarrow> ('h, history_error, candle list) query) \<Rightarrow>
     u64 \<Rightarrow> usize \<Rightarrow> candle list \<Rightarrow> ('h, history_error, candle list) query" where
  "backward_pages p page_limit start_time_ms page cursor_end pages candles h =
     (case count_page p pages of
        Inl e \<Rightarrow> (h, Inl e)
      | Inr pages' \<Rightarrow> (case page cursor_end h of
          (h', Inl e) \<Rightarrow> (h', Inl e)
        | (h', Inr batch) \<Rightarrow>
            if batch = [] then (h', Inr candles)
            else let oldest = Min (set (map cd_start_time_ms batch))
              in if oldest \<ge> cursor_end then (h', Inl (PaginationStalled p cursor_end))
                 else if oldest \<le> start_time_ms \<or> length batch < page_limit then (h', Inr (candles @ batch))
                 else backward_pages p page_limit start_time_ms page oldest pages' (candles @ batch) h'))"
  by pat_completeness auto
termination
  by (relation "measure (\<lambda>(p, l, s, f, c, n, cs, h). MAX_UPSTREAM_PAGES - n)")
    (auto simp: count_page_def split: if_splits)

text \<open>Forward paging (Binance): every page starts one interval after the newest candle so far.\<close>

function forward_pages ::
  "u64 \<Rightarrow> (u64 \<Rightarrow> ('h, history_error, candle list) query) \<Rightarrow>
     u64 \<Rightarrow> usize \<Rightarrow> candle list \<Rightarrow> ('h, history_error, candle list) query" where
  "forward_pages end_time_ms page cursor_start pages candles h =
     (if cursor_start < end_time_ms then
        (case count_page Binance pages of
           Inl e \<Rightarrow> (h, Inl e)
         | Inr pages' \<Rightarrow> (case page cursor_start h of
             (h', Inl e) \<Rightarrow> (h', Inl e)
           | (h', Inr batch) \<Rightarrow>
               if batch = [] then (h', Inr candles)
               else let newest = Max (set (map cd_start_time_ms batch))
                 in (case checked_add newest CANDLE_INTERVAL_MS of
                      None \<Rightarrow> (h', Inl (InvalidHistory Binance ''pagination timestamp overflow''))
                    | Some nxt \<Rightarrow>
                        if nxt \<le> cursor_start then (h', Inl (PaginationStalled Binance cursor_start))
                        else if nxt \<ge> end_time_ms \<or> length batch < BINANCE_PAGE_LIMIT
                        then (h', Inr (candles @ batch))
                        else forward_pages end_time_ms page nxt pages' (candles @ batch) h')))
      else (h, Inr candles))"
  by pat_completeness auto
termination
  by (relation "measure (\<lambda>(e, f, c, n, cs, h). MAX_UPSTREAM_PAGES - n)")
    (auto simp: count_page_def split: if_splits)

text \<open>Fixed spans (KuCoin, MEXC, BingX): \<open>page\<close> fetches the half-open window it is given.\<close>

definition page_end_of :: "u64 \<Rightarrow> u64 \<Rightarrow> u64 \<Rightarrow> u64" where
  "page_end_of page_span end_time_ms cursor_start = min (saturating_add cursor_start page_span) end_time_ms"

function span_pages ::
  "provider \<Rightarrow> u64 \<Rightarrow> u64 \<Rightarrow> (u64 \<Rightarrow> u64 \<Rightarrow> ('h, history_error, candle list) query) \<Rightarrow>
     u64 \<Rightarrow> usize \<Rightarrow> candle list \<Rightarrow> ('h, history_error, candle list) query" where
  "span_pages p page_span end_time_ms page cursor_start pages candles h =
     (if cursor_start < end_time_ms then
        (case count_page p pages of
           Inl e \<Rightarrow> (h, Inl e)
         | Inr pages' \<Rightarrow>
             let page_end = page_end_of page_span end_time_ms cursor_start
             in (case page cursor_start page_end h of
                  (h', Inl e) \<Rightarrow> (h', Inl e)
                | (h', Inr batch) \<Rightarrow>
                    if page_end \<le> cursor_start then (h', Inl (PaginationStalled p cursor_start))
                    else span_pages p page_span end_time_ms page page_end pages' (candles @ batch) h'))
      else (h, Inr candles))"
  by pat_completeness auto
termination
  by (relation "measure (\<lambda>(p, sp, e, f, c, n, cs, h). MAX_UPSTREAM_PAGES - n)")
    (auto simp: count_page_def split: if_splits)

declare backward_pages.simps [simp del] forward_pages.simps [simp del] span_pages.simps [simp del]

section \<open>Fetching\<close>

definition bybit_page :: "'h history_client \<Rightarrow> history_request \<Rightarrow> u64 \<Rightarrow> ('h, history_error, candle list) query" where
  "bybit_page C rq cursor_end =
     query_bind (query_lift (rest_endpoint C (hs_bybit (hc_sources C)) ''v5/market/kline'' Bybit)) (\<lambda>base.
     query_bind (query_lift (exclusive_query_end cursor_end)) (\<lambda>query_end.
     query_bind (get_text C Bybit (base,
       [(''category'', ''linear''), (''symbol'', hr_symbol rq), (''interval'', ''1''),
        (''start'', show_u64 (hr_start_time_ms rq)), (''end'', show_u64 query_end),
        (''limit'', show_nat BYBIT_PAGE_LIMIT)])) (\<lambda>body.
     query_lift (parse_bybit (hc_ext C) (hc_json C) body (hr_symbol rq)))))"

definition fetch_bybit :: "'h history_client \<Rightarrow> history_request \<Rightarrow> ('h, history_error, candle list) query" where
  "fetch_bybit C rq =
     backward_pages Bybit BYBIT_PAGE_LIMIT (hr_start_time_ms rq) (bybit_page C rq) (hr_end_time_ms rq) 0 []"

definition binance_server_time :: "'h history_client \<Rightarrow> ('h, history_error, u64) query" where
  "binance_server_time C =
     query_bind (query_lift (rest_endpoint C (hs_binance (hc_sources C)) ''fapi/v1/time'' Binance)) (\<lambda>base.
     query_bind (get_text C Binance (base, [])) (\<lambda>body.
     query_lift (parse_binance_server_time (hc_json C) body)))"

definition binance_page ::
  "'h history_client \<Rightarrow> history_request \<Rightarrow> u64 \<Rightarrow> u64 \<Rightarrow> ('h, history_error, candle list) query" where
  "binance_page C rq server_time_ms cursor_start =
     query_bind (query_lift (rest_endpoint C (hs_binance (hc_sources C)) ''fapi/v1/klines'' Binance)) (\<lambda>base.
     query_bind (query_lift (exclusive_query_end (hr_end_time_ms rq))) (\<lambda>query_end.
     query_bind (get_text C Binance (base,
       [(''symbol'', hr_symbol rq), (''interval'', ''1m''), (''startTime'', show_u64 cursor_start),
        (''endTime'', show_u64 query_end), (''limit'', show_nat BINANCE_PAGE_LIMIT)])) (\<lambda>body.
     query_lift (parse_binance (hc_ext C) (hc_json C) body server_time_ms))))"

definition fetch_binance :: "'h history_client \<Rightarrow> history_request \<Rightarrow> ('h, history_error, candle list) query" where
  "fetch_binance C rq =
     query_bind (binance_server_time C) (\<lambda>server_time_ms.
     forward_pages (hr_end_time_ms rq) (binance_page C rq server_time_ms) (hr_start_time_ms rq) 0 [])"

definition okx_page :: "'h history_client \<Rightarrow> history_request \<Rightarrow> u64 \<Rightarrow> ('h, history_error, candle list) query" where
  "okx_page C rq cursor_end =
     query_bind (query_lift (rest_endpoint C (hs_okx (hc_sources C)) ''api/v5/market/history-candles'' Okx)) (\<lambda>base.
     query_bind (get_text C Okx (base,
       [(''instId'', hr_symbol rq), (''bar'', ''1m''), (''after'', show_u64 cursor_end),
        (''before'', show_u64 (hr_start_time_ms rq - 1)), (''limit'', show_nat OKX_PAGE_LIMIT)])) (\<lambda>body.
     query_lift (parse_okx (hc_ext C) (hc_json C) body)))"

definition fetch_okx :: "'h history_client \<Rightarrow> history_request \<Rightarrow> ('h, history_error, candle list) query" where
  "fetch_okx C rq =
     backward_pages Okx OKX_PAGE_LIMIT (hr_start_time_ms rq) (okx_page C rq) (hr_end_time_ms rq) 0 []"

definition page_span_of :: "provider \<Rightarrow> u64 \<Rightarrow> history_error + u64" where
  "page_span_of p page_limit =
     ok_or (InvalidHistory p ''page span overflow'') (checked_mul page_limit CANDLE_INTERVAL_MS)"

definition kucoin_page ::
  "'h history_client \<Rightarrow> history_request \<Rightarrow> u64 \<Rightarrow> u64 \<Rightarrow> ('h, history_error, candle list) query" where
  "kucoin_page C rq cursor_start page_end =
     query_bind (query_lift (rest_endpoint C (hs_kucoin (hc_sources C)) ''api/v1/kline/query'' Kucoin)) (\<lambda>base.
     query_bind (query_lift (exclusive_query_end page_end)) (\<lambda>query_end.
     query_bind (get_text C Kucoin (base,
       [(''symbol'', hr_symbol rq), (''granularity'', ''60''), (''from'', show_u64 cursor_start),
        (''to'', show_u64 query_end)])) (\<lambda>body.
     query_lift (parse_kucoin (hc_ext C) (hc_json C) body))))"

definition fetch_kucoin :: "'h history_client \<Rightarrow> history_request \<Rightarrow> ('h, history_error, candle list) query" where
  "fetch_kucoin C rq =
     query_bind (query_lift (page_span_of Kucoin KUCOIN_PAGE_LIMIT)) (\<lambda>page_span.
     span_pages Kucoin page_span (hr_end_time_ms rq) (kucoin_page C rq) (hr_start_time_ms rq) 0 [])"

definition mexc_server_time :: "'h history_client \<Rightarrow> ('h, history_error, u64) query" where
  "mexc_server_time C =
     query_bind (query_lift (rest_endpoint C (hs_mexc (hc_sources C)) ''api/v1/contract/ping'' Mexc)) (\<lambda>base.
     query_bind (get_text C Mexc (base, [])) (\<lambda>body.
     query_lift (parse_mexc_server_time (hc_json C) body)))"

definition mexc_page ::
  "'h history_client \<Rightarrow> history_request \<Rightarrow> u64 \<Rightarrow> u64 \<Rightarrow> u64 \<Rightarrow> ('h, history_error, candle list) query" where
  "mexc_page C rq server_time_ms cursor_start page_end =
     query_bind (query_lift (rest_endpoint C (hs_mexc (hc_sources C)) (''api/v1/contract/kline/'' @ hr_symbol rq) Mexc)) (\<lambda>base.
     query_bind (query_lift (ok_or (InvalidHistory Mexc ''page end underflow'')
       (checked_sub page_end CANDLE_INTERVAL_MS))) (\<lambda>inclusive_last_start.
     query_bind (get_text C Mexc (base,
       [(''interval'', ''Min1''), (''start'', show_u64 (cursor_start div 1000)),
        (''end'', show_u64 (inclusive_last_start div 1000))])) (\<lambda>body.
     query_lift (parse_mexc (hc_ext C) (hc_json C) body server_time_ms))))"

definition fetch_mexc :: "'h history_client \<Rightarrow> history_request \<Rightarrow> ('h, history_error, candle list) query" where
  "fetch_mexc C rq =
     query_bind (mexc_server_time C) (\<lambda>server_time_ms.
     query_bind (query_lift (page_span_of Mexc MEXC_PAGE_LIMIT)) (\<lambda>page_span.
     span_pages Mexc page_span (hr_end_time_ms rq) (mexc_page C rq server_time_ms) (hr_start_time_ms rq) 0 []))"

definition bingx_server_time :: "'h history_client \<Rightarrow> ('h, history_error, u64) query" where
  "bingx_server_time C =
     query_bind (query_lift (rest_endpoint C (hs_bingx (hc_sources C)) ''openApi/swap/v2/server/time'' Bingx)) (\<lambda>base.
     query_bind (get_text C Bingx (base, [])) (\<lambda>body.
     query_lift (parse_bingx_server_time (hc_json C) body)))"

definition bingx_page ::
  "'h history_client \<Rightarrow> history_request \<Rightarrow> u64 \<Rightarrow> u64 \<Rightarrow> u64 \<Rightarrow> ('h, history_error, candle list) query" where
  "bingx_page C rq server_time_ms cursor_start page_end =
     query_bind (query_lift (rest_endpoint C (hs_bingx (hc_sources C)) ''openApi/swap/v3/quote/klines'' Bingx)) (\<lambda>base.
     let requested = (page_end - cursor_start) div CANDLE_INTERVAL_MS
     in query_bind (query_lift (exclusive_query_end page_end)) (\<lambda>query_end.
        query_bind (get_text C Bingx (base,
          [(''symbol'', hr_symbol rq), (''interval'', ''1m''), (''startTime'', show_u64 cursor_start),
           (''endTime'', show_u64 query_end), (''limit'', show_u64 requested)])) (\<lambda>body.
        query_lift (parse_bingx (hc_ext C) (hc_json C) body server_time_ms))))"

definition fetch_bingx :: "'h history_client \<Rightarrow> history_request \<Rightarrow> ('h, history_error, candle list) query" where
  "fetch_bingx C rq =
     query_bind (bingx_server_time C) (\<lambda>server_time_ms.
     query_bind (query_lift (page_span_of Bingx BINGX_PAGE_LIMIT)) (\<lambda>page_span.
     span_pages Bingx page_span (hr_end_time_ms rq) (bingx_page C rq server_time_ms) (hr_start_time_ms rq) 0 []))"

definition fetch_candles :: "'h history_client \<Rightarrow> history_request \<Rightarrow> ('h, history_error, candle list) query" where
  "fetch_candles C rq = (case hr_provider rq of
     Bybit \<Rightarrow> fetch_bybit C rq
   | Binance \<Rightarrow> fetch_binance C rq
   | Okx \<Rightarrow> fetch_okx C rq
   | Kucoin \<Rightarrow> fetch_kucoin C rq
   | Mexc \<Rightarrow> fetch_mexc C rq
   | Bingx \<Rightarrow> fetch_bingx C rq)"

definition fetch :: "'h history_client \<Rightarrow> history_request \<Rightarrow> ('h, history_error, history_result) query" where
  "fetch C rq = query_bind (fetch_candles C rq) (\<lambda>candles. query_lift (finish_result rq candles))"

section \<open>Lemmas\<close>

subsection \<open>Duplicates\<close>

definition conflicts :: "candle set \<Rightarrow> u64 set" where
  "conflicts S = {cd_start_time_ms a | a. a \<in> S \<and> (\<exists>b \<in> S. cd_start_time_ms b = cd_start_time_ms a \<and> b \<noteq> a)}"

definition finish_spec :: "history_request \<Rightarrow> candle list \<Rightarrow> history_error + history_result" where
  "finish_spec rq candles =
     (let kept = filter (in_request rq) candles; clash = conflicts (set kept)
      in if clash = {}
         then Inr \<lparr>hres_provider = hr_provider rq, hres_market = LinearPerpetual, hres_symbol = hr_symbol rq,
            hres_start_time_ms = hr_start_time_ms rq, hres_end_time_ms = hr_end_time_ms rq,
            hres_candles = map (\<lambda>c. \<lparr>hcd_provider = hr_provider rq, hcd_market = LinearPerpetual,
              hcd_symbol = hr_symbol rq, hcd_candle = c\<rparr>)
                (take (hr_limit rq) (sort_key cd_start_time_ms (remdups kept)))\<rparr>
         else Inl (InvalidHistory (hr_provider rq)
            (''conflicting duplicate candle at '' @ show_nat (unat (Min clash)))))"

lemma conflicts_finite: "finite S \<Longrightarrow> finite (conflicts S)"
  by (rule finite_subset [of _ "cd_start_time_ms ` S"]) (auto simp: conflicts_def)

lemma conflicts_empty: "conflicts S = {} \<longleftrightarrow> inj_on cd_start_time_ms S"
  by (auto simp: conflicts_def inj_on_def)

lemma conflict_Min:
  assumes sorted: "sorted (map cd_start_time_ms (u @ c # ys))"
    and distinct: "distinct (map cd_start_time_ms u)"
    and clash: "u \<noteq> []" "cd_start_time_ms (last u) = cd_start_time_ms c" "last u \<noteq> c"
  shows "Min (conflicts (set (u @ c # ys))) = cd_start_time_ms c"
proof (rule Min_eqI)
  show "finite (conflicts (set (u @ c # ys)))" by (rule conflicts_finite) simp
  show "cd_start_time_ms c \<in> conflicts (set (u @ c # ys))"
    unfolding conflicts_def using clash last_in_set [of u] by auto
next
  fix t assume "t \<in> conflicts (set (u @ c # ys))"
  then obtain a b where ab: "a \<in> set (u @ c # ys)" "b \<in> set (u @ c # ys)" "a \<noteq> b"
    and t: "cd_start_time_ms a = t" "cd_start_time_ms b = t"
    unfolding conflicts_def by blast
  have "a \<notin> set u \<or> b \<notin> set u"
    using distinct ab(3) t by (auto simp: distinct_map inj_on_def)
  with ab t have "\<exists>x \<in> set (c # ys). cd_start_time_ms x = t" by auto
  with sorted show "cd_start_time_ms c \<le> t" by (auto simp: sorted_append)
qed

lemma unique_candles_spec:
  assumes "sorted (map cd_start_time_ms (u @ ys))" and "distinct (map cd_start_time_ms u)"
  shows "case unique_candles p u ys of
      Inr w \<Rightarrow> conflicts (set (u @ ys)) = {} \<and> set w = set (u @ ys)
        \<and> sorted (map cd_start_time_ms w) \<and> distinct (map cd_start_time_ms w)
    | Inl e \<Rightarrow> conflicts (set (u @ ys)) \<noteq> {} \<and> e = InvalidHistory p
        (''conflicting duplicate candle at '' @ show_nat (unat (Min (conflicts (set (u @ ys))))))"
  using assms
proof (induction ys arbitrary: u)
  case Nil
  then show ?case by (simp add: conflicts_empty distinct_map)
next
  case (Cons c ys)
  show ?case
  proof (cases "u \<noteq> [] \<and> cd_start_time_ms (last u) = cd_start_time_ms c")
    case same: True
    show ?thesis
    proof (cases "last u = c")
      case True
      with same have eq: "set (u @ c # ys) = set (u @ ys)" using last_in_set [of u] by auto
      have "sorted (map cd_start_time_ms (u @ ys))" using Cons.prems(1) by (simp add: sorted_append)
      then show ?thesis unfolding eq using Cons.IH [of u] Cons.prems(2) same True by simp
    next
      case False
      have "conflicts (set (u @ c # ys)) \<noteq> {}"
        unfolding conflicts_def using same False last_in_set [of u] by auto
      with conflict_Min [OF Cons.prems] same False show ?thesis by simp
    qed
  next
    case new: False
    have "cd_start_time_ms x \<noteq> cd_start_time_ms c" if "x \<in> set u" for x
    proof -
      from that have ne: "u \<noteq> []" by auto
      then have "cd_start_time_ms x \<le> cd_start_time_ms (last u)"
        using that Cons.prems(1) by (induction u rule: rev_induct) (auto simp: sorted_append)
      moreover have "cd_start_time_ms (last u) \<le> cd_start_time_ms c"
        using ne Cons.prems(1) last_in_set [of u] by (auto simp: sorted_append)
      ultimately show ?thesis using new ne by auto
    qed
    then have "distinct (map cd_start_time_ms (u @ [c]))" using Cons.prems(2) by (simp add: image_iff) metis
    moreover have "unique_candles p u (c # ys) = unique_candles p (u @ [c]) ys" using new by auto
    moreover have "u @ c # ys = (u @ [c]) @ ys" by simp
    ultimately show ?thesis using Cons.IH [of "u @ [c]"] Cons.prems(1) by (simp only:)
  qed
qed

lemma finish_sorted_spec:
  assumes "mset ys = mset (filter (in_request rq) candles)" and "sorted (map cd_start_time_ms ys)"
  shows "finish_sorted rq ys = finish_spec rq candles"
proof -
  let ?kept = "filter (in_request rq) candles"
  have same: "set ys = set ?kept" using assms(1) by (metis set_mset_mset)
  show ?thesis
  proof (cases "unique_candles (hr_provider rq) [] ys")
    case (Inl e)
    with unique_candles_spec [of "[]" ys "hr_provider rq"] assms(2) same show ?thesis
      by (simp add: finish_sorted_def finish_spec_def Let_def)
  next
    case (Inr w)
    with unique_candles_spec [of "[]" ys "hr_provider rq"] assms(2)
    have w: "conflicts (set ys) = {}" "set w = set ys" "sorted (map cd_start_time_ms w)" "distinct (map cd_start_time_ms w)"
      by simp_all
    from w(1) same have inj: "inj_on cd_start_time_ms (set ?kept)" by (simp add: conflicts_empty)
    have "w = sort_key cd_start_time_ms (remdups ?kept)"
    proof (rule map_sorted_distinct_set_unique [OF _ w(3,4)])
      show "inj_on cd_start_time_ms (set w \<union> set (sort_key cd_start_time_ms (remdups ?kept)))"
        using inj w(2) same by simp
      have "inj_on cd_start_time_ms (set (sort_key cd_start_time_ms (remdups ?kept)))" using inj by simp
      then show "distinct (map cd_start_time_ms (sort_key cd_start_time_ms (remdups ?kept)))"
        by (simp add: distinct_map)
    qed (use w(2) same in simp_all)
    with Inr w(1) same show ?thesis
      by (simp add: finish_sorted_def finish_spec_def Let_def)
  qed
qed

lemma finish_result_spec: "finish_result rq candles = finish_spec rq candles"
  unfolding finish_result_def by (rule finish_sorted_spec) simp_all

lemma finish_spec_set:
  assumes kept: "set (filter (in_request rq) xs) = set (filter (in_request rq) ys)"
  shows "finish_spec rq xs = finish_spec rq ys"
proof -
  show ?thesis
  proof (cases "conflicts (set (filter (in_request rq) xs)) = {}")
    case True
    have "sort_key cd_start_time_ms (remdups (filter (in_request rq) xs)) =
        sort_key cd_start_time_ms (remdups (filter (in_request rq) ys))" (is "?s = ?t")
    proof (rule map_sorted_distinct_set_unique [where f = cd_start_time_ms])
      have inj: "inj_on cd_start_time_ms (set ?s)" "inj_on cd_start_time_ms (set ?t)" "set ?s = set ?t"
        using True kept by (simp_all add: conflicts_empty)
      then show "inj_on cd_start_time_ms (set ?s \<union> set ?t)" "set ?s = set ?t" by simp_all
      from inj show "distinct (map cd_start_time_ms ?s)" "distinct (map cd_start_time_ms ?t)"
        by (simp_all add: distinct_map)
    qed simp_all
    then show ?thesis using True kept by (simp add: finish_spec_def Let_def)
  qed (use kept in \<open>simp add: finish_spec_def Let_def\<close>)
qed

subsection \<open>Rows\<close>

definition sound_row :: "ext \<Rightarrow> candle \<Rightarrow> bool" where
  "sound_row E c \<longleftrightarrow> sound_candle E c \<and> 60000 dvd unat (cd_start_time_ms c)"

lemma is_multiple_of_interval: "is_multiple_of n CANDLE_INTERVAL_MS \<longleftrightarrow> 60000 dvd unat n"
proof -
  have "n mod 60000 = 0 \<longleftrightarrow> unat n mod 60000 = 0"
    by (simp add: unat_eq_zero [symmetric] unat_mod del: unat_eq_zero)
  then show ?thesis by (simp add: CANDLE_INTERVAL_MS_def is_multiple_of_def dvd_eq_mod_eq_0)
qed

lemma build_candle_sound:
  assumes "build_candle E p f = Inr c"
  shows "sound_row E c"
proof -
  from assms have "is_multiple_of (cf_start_time_ms f) CANDLE_INTERVAL_MS"
    by (rule contrapos_pp) (simp add: build_candle_def)
  with assms have "validate_candle E c = Inr () \<and> cd_start_time_ms c = cf_start_time_ms f"
    unfolding build_candle_def by (auto simp: Let_def and_then_Inr map_err_Inr simp del: append_Cons)
  then show ?thesis
    using validate_candle_sound [of E c] \<open>is_multiple_of _ _\<close> by (simp add: sound_row_def is_multiple_of_interval)
qed

lemma parse_rows_sound:
  "parse_bybit_row E t r = Inr c \<Longrightarrow> sound_row E c"
  "parse_binance_row E J t r = Inr c \<Longrightarrow> sound_row E c"
  "parse_okx_row E r = Inr c \<Longrightarrow> sound_row E c"
  "parse_kucoin_row E J r = Inr c \<Longrightarrow> sound_row E c"
  "parse_mexc_row E J t d i = Inr c \<Longrightarrow> sound_row E c"
  "parse_bingx_row E J t raw = Inr c \<Longrightarrow> sound_row E c"
  unfolding parse_bybit_row_def parse_binance_row_def parse_okx_row_def parse_kucoin_row_def
    parse_mexc_row_def parse_bingx_row_def Let_def
  by (auto simp: and_then_Inr intro: build_candle_sound split: if_split_asm)

lemma collect_sound:
  "collect_results f xs = Inr ys \<Longrightarrow> (\<And>x y. f x = Inr y \<Longrightarrow> P y) \<Longrightarrow> list_all P ys"
  by (induction xs arbitrary: ys) (auto simp: and_then_Inr split: sum.splits)

lemma parse_pages_sound:
  "parse_bybit E J b s = Inr cs \<Longrightarrow> list_all (sound_row E) cs"
  "parse_binance E J b t = Inr cs \<Longrightarrow> list_all (sound_row E) cs"
  "parse_okx E J b = Inr cs \<Longrightarrow> list_all (sound_row E) cs"
  "parse_kucoin E J b = Inr cs \<Longrightarrow> list_all (sound_row E) cs"
  "parse_mexc E J b t = Inr cs \<Longrightarrow> list_all (sound_row E) cs"
  "parse_bingx E J b t = Inr cs \<Longrightarrow> list_all (sound_row E) cs"
  unfolding parse_bybit_def parse_binance_def parse_okx_def parse_kucoin_def parse_mexc_def parse_bingx_def Let_def
  by (auto simp: and_then_Inr elim!: collect_sound intro: parse_rows_sound split: if_split_asm)

subsection \<open>Pages\<close>

text \<open>One round of each paging loop.\<close>

lemma backward_pages_round:
  assumes "backward_pages p l s page c n cs h = (h', r)"
  obtains (limit) "n \<ge> MAX_UPSTREAM_PAGES" "h' = h" "r = Inl (PaginationStalled p 0)"
    | (failed) e where "n < MAX_UPSTREAM_PAGES" "page c h = (h', Inl e)" "r = Inl e"
    | (empty) "n < MAX_UPSTREAM_PAGES" "page c h = (h', Inr [])" "r = Inr cs"
    | (stalled) b where "n < MAX_UPSTREAM_PAGES" "page c h = (h', Inr b)" "b \<noteq> []"
        "\<forall>x \<in> set b. c \<le> cd_start_time_ms x" "r = Inl (PaginationStalled p c)"
    | (last_page) b x where "n < MAX_UPSTREAM_PAGES" "page c h = (h', Inr b)"
        "x \<in> set b" "cd_start_time_ms x \<le> s \<or> length b < l" "r = Inr (cs @ b)"
    | (next_page) b x h1 where "n < MAX_UPSTREAM_PAGES" "page c h = (h1, Inr b)" "l \<le> length b" "x \<in> set b"
        "\<forall>y \<in> set b. cd_start_time_ms x \<le> cd_start_time_ms y" "s < cd_start_time_ms x" "cd_start_time_ms x < c"
        "backward_pages p l s page (cd_start_time_ms x) (Suc n) (cs @ b) h1 = (h', r)"
proof (cases "n \<ge> MAX_UPSTREAM_PAGES")
  case True
  with assms limit show ?thesis by (subst (asm) backward_pages.simps) (simp add: count_page_def)
next
  case n: False
  obtain h1 q where q: "page c h = (h1, q)" by fastforce
  show ?thesis
  proof (cases q)
    case (Inl e)
    with assms n q have "h' = h1 \<and> r = Inl e" by (subst (asm) backward_pages.simps) (simp add: count_page_def)
    with n q Inl show ?thesis by (intro failed) simp_all
  next
    case (Inr b)
    show ?thesis
    proof (cases "b = []")
      case True
      with assms n q Inr empty show ?thesis by (subst (asm) backward_pages.simps) (simp add: count_page_def)
    next
      case False
      let ?m = "Min (set (map cd_start_time_ms b))"
      have "?m \<in> set (map cd_start_time_ms b)" using False by (intro Min_in) auto
      then obtain x where x: "x \<in> set b" "cd_start_time_ms x = ?m" by auto
      have least: "\<forall>y \<in> set b. cd_start_time_ms x \<le> cd_start_time_ms y" unfolding x(2) by simp
      from assms n q Inr False
      have "(if cd_start_time_ms x \<ge> c then (h1, Inl (PaginationStalled p c))
         else if cd_start_time_ms x \<le> s \<or> length b < l then (h1, Inr (cs @ b))
         else backward_pages p l s page (cd_start_time_ms x) (Suc n) (cs @ b) h1) = (h', r)"
        unfolding x(2) by (subst (asm) backward_pages.simps) (simp add: count_page_def Let_def del: set_map Min_le_iff Min_ge_iff)
      with n q Inr False x(1) least stalled [of b] last_page [of b x] next_page [of h1 b x] show ?thesis
        by (auto split: if_split_asm intro: order_trans)
    qed
  qed
qed

lemma forward_pages_round:
  assumes "forward_pages e page c n cs h = (h', r)"
  obtains (finished) "e \<le> c" "h' = h" "r = Inr cs"
    | (limit) "c < e" "n \<ge> MAX_UPSTREAM_PAGES" "h' = h" "r = Inl (PaginationStalled Binance 0)"
    | (failed) x where "n < MAX_UPSTREAM_PAGES" "page c h = (h', Inl x)" "r = Inl x"
    | (empty) "n < MAX_UPSTREAM_PAGES" "page c h = (h', Inr [])" "r = Inr cs"
    | (overflow) b x where "n < MAX_UPSTREAM_PAGES" "page c h = (h', Inr b)" "x \<in> set b"
        "checked_add (cd_start_time_ms x) CANDLE_INTERVAL_MS = None"
        "r = Inl (InvalidHistory Binance ''pagination timestamp overflow'')"
    | (stalled) b x m where "n < MAX_UPSTREAM_PAGES" "page c h = (h', Inr b)" "x \<in> set b"
        "checked_add (cd_start_time_ms x) CANDLE_INTERVAL_MS = Some m"
        "m \<le> c" "r = Inl (PaginationStalled Binance c)"
    | (last_page) b x m where "n < MAX_UPSTREAM_PAGES" "page c h = (h', Inr b)" "x \<in> set b"
        "checked_add (cd_start_time_ms x) CANDLE_INTERVAL_MS = Some m"
        "e \<le> m \<or> length b < BINANCE_PAGE_LIMIT" "r = Inr (cs @ b)"
    | (next_page) b x m h1 where "c < e" "n < MAX_UPSTREAM_PAGES" "page c h = (h1, Inr b)" "x \<in> set b"
        "BINANCE_PAGE_LIMIT \<le> length b" "\<forall>y \<in> set b. cd_start_time_ms y \<le> cd_start_time_ms x"
        "checked_add (cd_start_time_ms x) CANDLE_INTERVAL_MS = Some m" "c < m" "m < e"
        "forward_pages e page m (Suc n) (cs @ b) h1 = (h', r)"
proof (cases "c < e")
  case c: True
  show ?thesis
  proof (cases "n \<ge> MAX_UPSTREAM_PAGES")
    case True
    with assms c limit show ?thesis by (subst (asm) forward_pages.simps) (simp add: count_page_def)
  next
    case n: False
    obtain h1 q where q: "page c h = (h1, q)" by fastforce
    show ?thesis
    proof (cases q)
      case (Inl x)
      with assms c n q have "h' = h1 \<and> r = Inl x" by (subst (asm) forward_pages.simps) (simp add: count_page_def)
      with n q Inl show ?thesis by (intro failed) simp_all
    next
      case (Inr b)
      show ?thesis
      proof (cases "b = []")
        case True
        with assms c n q Inr empty show ?thesis by (subst (asm) forward_pages.simps) (simp add: count_page_def)
      next
        case False
        let ?m = "Max (set (map cd_start_time_ms b))"
        have "?m \<in> set (map cd_start_time_ms b)" using False by (intro Max_in) auto
        then obtain x where x: "x \<in> set b" "cd_start_time_ms x = ?m" by auto
        have greatest: "\<forall>y \<in> set b. cd_start_time_ms y \<le> cd_start_time_ms x" unfolding x(2) by simp
        from assms c n q Inr False
        have "(case checked_add (cd_start_time_ms x) CANDLE_INTERVAL_MS of
             None \<Rightarrow> (h1, Inl (InvalidHistory Binance ''pagination timestamp overflow''))
           | Some nxt \<Rightarrow> if nxt \<le> c then (h1, Inl (PaginationStalled Binance c))
               else if nxt \<ge> e \<or> length b < BINANCE_PAGE_LIMIT then (h1, Inr (cs @ b))
               else forward_pages e page nxt (Suc n) (cs @ b) h1) = (h', r)"
          unfolding x(2)
          by (subst (asm) forward_pages.simps) (simp add: count_page_def Let_def del: set_map Max_le_iff Max_ge_iff)
        with c n q Inr x(1) greatest overflow [of b x] stalled [of b x] last_page [of b x] next_page [of h1 b x]
        show ?thesis by (auto split: if_split_asm option.split_asm)
      qed
    qed
  qed
next
  case False
  with assms finished show ?thesis by (subst (asm) forward_pages.simps) simp
qed

lemma span_pages_round:
  assumes "span_pages p sp e page c n cs h = (h', r)"
  obtains (finished) "e \<le> c" "h' = h" "r = Inr cs"
    | (limit) "c < e" "n \<ge> MAX_UPSTREAM_PAGES" "h' = h" "r = Inl (PaginationStalled p 0)"
    | (failed) x where "c < e" "n < MAX_UPSTREAM_PAGES" "page c (page_end_of sp e c) h = (h', Inl x)" "r = Inl x"
    | (stalled) b where "c < e" "n < MAX_UPSTREAM_PAGES" "page c (page_end_of sp e c) h = (h', Inr b)"
        "page_end_of sp e c \<le> c" "r = Inl (PaginationStalled p c)"
    | (next_page) b h1 where "c < e" "n < MAX_UPSTREAM_PAGES" "page c (page_end_of sp e c) h = (h1, Inr b)"
        "c < page_end_of sp e c"
        "span_pages p sp e page (page_end_of sp e c) (Suc n) (cs @ b) h1 = (h', r)"
proof -
  from assms have "(if c < e then (if n \<ge> MAX_UPSTREAM_PAGES then (h, Inl (PaginationStalled p 0))
      else case page c (page_end_of sp e c) h of
          (h', Inl e) \<Rightarrow> (h', Inl e)
        | (h', Inr b) \<Rightarrow> if page_end_of sp e c \<le> c then (h', Inl (PaginationStalled p c))
            else span_pages p sp e page (page_end_of sp e c) (Suc n) (cs @ b) h')
      else (h, Inr cs)) = (h', r)"
    by (subst (asm) span_pages.simps) (simp add: count_page_def Let_def split: if_split_asm)
  then show ?thesis
    using that by (auto split: if_split_asm prod.split_asm sum.split_asm)
qed


text \<open>A property of every candle a page delivers holds of every candle a paging loop returns.\<close>

lemma backward_pages_all:
  assumes page: "\<And>c h h' b. page c h = (h', Inr b) \<Longrightarrow> list_all P b"
  shows "backward_pages p l s page c n cs h = (h', Inr r) \<Longrightarrow> list_all P cs \<Longrightarrow> list_all P r"
proof (induction "MAX_UPSTREAM_PAGES - n" arbitrary: c n cs h rule: less_induct)
  case less
  from less.prems(1) show ?case
  proof (cases rule: backward_pages_round)
    case (next_page b x h1)
    with less.prems(2) page show ?thesis by (intro less.hyps [OF _ next_page(8)]) auto
  qed (use less.prems(2) page in auto)
qed

lemma forward_pages_all:
  assumes page: "\<And>c h h' b. page c h = (h', Inr b) \<Longrightarrow> list_all P b"
  shows "forward_pages e page c n cs h = (h', Inr r) \<Longrightarrow> list_all P cs \<Longrightarrow> list_all P r"
proof (induction "MAX_UPSTREAM_PAGES - n" arbitrary: c n cs h rule: less_induct)
  case less
  from less.prems(1) show ?case
  proof (cases rule: forward_pages_round)
    case (next_page b x m h1)
    with less.prems(2) page show ?thesis by (intro less.hyps [OF _ next_page(10)]) auto
  qed (use less.prems(2) page in auto)
qed

lemma span_pages_all:
  assumes page: "\<And>a b h h' cs. page a b h = (h', Inr cs) \<Longrightarrow> list_all P cs"
  shows "span_pages p sp e page c n cs h = (h', Inr r) \<Longrightarrow> list_all P cs \<Longrightarrow> list_all P r"
proof (induction "MAX_UPSTREAM_PAGES - n" arbitrary: c n cs h rule: less_induct)
  case less
  from less.prems(1) show ?case
  proof (cases rule: span_pages_round)
    case (next_page b h1)
    with less.prems(2) page show ?thesis by (intro less.hyps [OF _ next_page(5)]) auto
  qed (use less.prems(2) page in auto)
qed

text \<open>A counter of the client's state that a page moves by at most one moves by at most the page limit.\<close>

lemma backward_pages_count:
  fixes cnt :: "'h \<Rightarrow> nat"
  assumes page: "\<And>c h. cnt (fst (page c h)) \<le> Suc (cnt h)"
  shows "backward_pages p l s page c n cs h = (h', r) \<Longrightarrow> cnt h' \<le> cnt h + (MAX_UPSTREAM_PAGES - n)"
proof (induction "MAX_UPSTREAM_PAGES - n" arbitrary: c n cs h rule: less_induct)
  case less
  from less.prems show ?case
  proof (cases rule: backward_pages_round)
    case (next_page b x h1)
    with less.hyps [OF _ next_page(8)] page [of c h] show ?thesis by fastforce
  qed (use page [of c h] in auto)
qed

lemma forward_pages_count:
  fixes cnt :: "'h \<Rightarrow> nat"
  assumes page: "\<And>c h. cnt (fst (page c h)) \<le> Suc (cnt h)"
  shows "forward_pages e page c n cs h = (h', r) \<Longrightarrow> cnt h' \<le> cnt h + (MAX_UPSTREAM_PAGES - n)"
proof (induction "MAX_UPSTREAM_PAGES - n" arbitrary: c n cs h rule: less_induct)
  case less
  from less.prems show ?case
  proof (cases rule: forward_pages_round)
    case (next_page b x m h1)
    with less.hyps [OF _ next_page(10)] page [of c h] show ?thesis by fastforce
  qed (use page [of c h] in auto)
qed

lemma span_pages_count:
  fixes cnt :: "'h \<Rightarrow> nat"
  assumes page: "\<And>a b h. cnt (fst (page a b h)) \<le> Suc (cnt h)"
  shows "span_pages p sp e page c n cs h = (h', r) \<Longrightarrow> cnt h' \<le> cnt h + (MAX_UPSTREAM_PAGES - n)"
proof (induction "MAX_UPSTREAM_PAGES - n" arbitrary: c n cs h rule: less_induct)
  case less
  from less.prems show ?case
  proof (cases rule: span_pages_round)
    case (next_page b h1)
    with less.hyps [OF _ next_page(5)] page [of c "page_end_of sp e c" h] show ?thesis by fastforce
  qed (use page [of c "page_end_of sp e c" h] in auto)
qed


subsection \<open>Complete answers\<close>

text \<open>
  The candles of a series that start in a half-open window; \<open>aligned\<close>: the series has one candle
  per UTC minute at most.
\<close>

definition window :: "candle set \<Rightarrow> u64 \<Rightarrow> u64 \<Rightarrow> candle set" where
  "window S a b = {c \<in> S. a \<le> cd_start_time_ms c \<and> cd_start_time_ms c < b}"

definition aligned :: "candle set \<Rightarrow> bool" where
  "aligned S \<longleftrightarrow> inj_on cd_start_time_ms S \<and> (\<forall>c \<in> S. 60000 dvd unat (cd_start_time_ms c))"

text \<open>
  A page of at most \<open>l\<close> candles of a window: all of them, or \<open>l\<close> of them with none newer
  (older) left out.
\<close>

definition newest_page :: "nat \<Rightarrow> candle set \<Rightarrow> candle list \<Rightarrow> bool" where
  "newest_page l W b \<longleftrightarrow> set b \<subseteq> W \<and> (length b < l \<longrightarrow> set b = W) \<and>
     (l \<le> length b \<longrightarrow> distinct b \<and> (\<forall>x \<in> W - set b. \<forall>y \<in> set b. cd_start_time_ms x < cd_start_time_ms y))"

definition oldest_page :: "nat \<Rightarrow> candle set \<Rightarrow> candle list \<Rightarrow> bool" where
  "oldest_page l W b \<longleftrightarrow> set b \<subseteq> W \<and> (length b < l \<longrightarrow> set b = W) \<and>
     (l \<le> length b \<longrightarrow> distinct b \<and> (\<forall>x \<in> W - set b. \<forall>y \<in> set b. cd_start_time_ms y < cd_start_time_ms x))"

lemma aligned_span:
  assumes "aligned S" and "set b \<subseteq> S" and "distinct b"
    and range: "\<And>y. y \<in> set b \<Longrightarrow> m \<le> unat (cd_start_time_ms y) \<and> unat (cd_start_time_ms y) < k"
    and "60000 dvd k" "60000 dvd m" "b \<noteq> []"
  shows "length b * 60000 + m \<le> k"
proof -
  let ?f = "\<lambda>y. unat (cd_start_time_ms y) div 60000"
  have "inj_on ?f (set b)"
  proof (rule inj_onI)
    fix x y assume xy: "x \<in> set b" "y \<in> set b" "?f x = ?f y"
    with assms(1,2) have "60000 dvd unat (cd_start_time_ms x)" "60000 dvd unat (cd_start_time_ms y)"
      by (auto simp: aligned_def)
    with xy(3) have "unat (cd_start_time_ms x) = unat (cd_start_time_ms y)" by (metis dvd_div_mult_self)
    then have "cd_start_time_ms x = cd_start_time_ms y" by (simp add: word_unat_eq_iff)
    with assms(1,2) xy show "x = y" by (auto simp: aligned_def inj_on_def)
  qed
  moreover have "?f ` set b \<subseteq> {m div 60000 ..< k div 60000}"
  proof
    fix i assume "i \<in> ?f ` set b"
    then obtain y where y: "y \<in> set b" "i = ?f y" by blast
    with assms(5) range [OF y(1)] show "i \<in> {m div 60000 ..< k div 60000}"
      by (auto simp: div_le_mono elim!: dvdE intro: less_mult_imp_div_less)
  qed
  ultimately have "card (set b) \<le> k div 60000 - m div 60000"
    by (metis card_atLeastLessThan card_image card_mono finite_atLeastLessThan)
  then have "length b \<le> k div 60000 - m div 60000" using assms(3) by (simp add: distinct_card)
  moreover have "m \<le> k" using range assms(7) by (metis last_in_set less_imp_le_nat order_trans)
  ultimately show ?thesis using assms(5,6) by (auto elim!: dvdE)
qed

lemma backward_pages_complete:
  assumes S: "aligned S" and l: "0 < l"
    and page: "\<And>c h. s < c \<Longrightarrow> c \<le> e \<Longrightarrow> 60000 dvd unat c \<Longrightarrow>
      \<exists>h' b. page c h = (h', Inr b) \<and> newest_page l (window S s c) b"
  shows "s < c \<Longrightarrow> 60000 dvd unat c \<Longrightarrow> c \<le> e \<Longrightarrow> unat c \<le> unat s + (MAX_UPSTREAM_PAGES - n) * (l * 60000) \<Longrightarrow>
    \<exists>h' r. backward_pages p l s page c n cs h = (h', Inr r) \<and> set r = set cs \<union> window S s c"
proof (induction "MAX_UPSTREAM_PAGES - n" arbitrary: c n cs h rule: less_induct)
  case less
  obtain h1 b where b: "page c h = (h1, Inr b)" "newest_page l (window S s c) b"
    using page [OF less.prems(1) less.prems(3) less.prems(2)] by blast
  obtain h' r where run: "backward_pages p l s page c n cs h = (h', r)" by fastforce
  then show ?case
  proof (cases rule: backward_pages_round)
    case limit
    with less.prems(1,4) show ?thesis by (simp add: word_less_nat_alt)
  next
    case (failed x)
    with b show ?thesis by simp
  next
    case empty
    with b l run show ?thesis by (auto simp: newest_page_def)
  next
    case (stalled b')
    with b have "b' = b" "b \<noteq> []" "set b \<subseteq> window S s c" by (auto simp: newest_page_def)
    with stalled(4) have False by (auto simp: window_def neq_Nil_conv)
    then show ?thesis ..
  next
    case (last_page b' x)
    with b have [simp]: "b' = b" by simp
    have "set b = window S s c"
    proof (cases "length b < l")
      case False
      with last_page b(2) have "cd_start_time_ms x \<le> s" "x \<in> set b"
        and newer: "\<forall>z \<in> window S s c - set b. cd_start_time_ms z < cd_start_time_ms x"
        by (auto simp: newest_page_def)
      have "z \<in> set b" if "z \<in> window S s c" for z
      proof (rule ccontr)
        assume "z \<notin> set b"
        with newer that have "cd_start_time_ms z < cd_start_time_ms x" by blast
        with \<open>cd_start_time_ms x \<le> s\<close> that show False by (auto simp: window_def)
      qed
      then show ?thesis using b(2) by (auto simp: newest_page_def)
    qed (use b(2) in \<open>simp add: newest_page_def\<close>)
    with run last_page show ?thesis by auto
  next
    case (next_page b' x h2)
    with b have [simp]: "b' = b" "h2 = h1" by simp_all
    have page_b: "set b \<subseteq> window S s c" "distinct b" "b \<noteq> []"
      "\<forall>z \<in> window S s c - set b. cd_start_time_ms z < cd_start_time_ms x"
      using b(2) next_page(3,4) by (auto simp: newest_page_def)
    have x: "60000 dvd unat (cd_start_time_ms x)"
      using S page_b(1) next_page(4) by (auto simp: aligned_def window_def)
    have "length b * 60000 + unat (cd_start_time_ms x) \<le> unat c"
    proof (rule aligned_span [OF S])
      show "set b \<subseteq> S" using page_b(1) by (auto simp: window_def)
    next
      fix y assume "y \<in> set b"
      with next_page(5) page_b(1) show "unat (cd_start_time_ms x) \<le> unat (cd_start_time_ms y) \<and> unat (cd_start_time_ms y) < unat c"
        by (auto simp: window_def word_le_nat_alt word_less_nat_alt)
    qed (use page_b x less.prems(2) in auto)
    moreover have "l * 60000 \<le> length b * 60000" using next_page(3) by simp
    moreover have "(MAX_UPSTREAM_PAGES - n) * (l * 60000) = l * 60000 + (MAX_UPSTREAM_PAGES - Suc n) * (l * 60000)"
      using next_page(1) by (metis Suc_diff_Suc mult_Suc)
    ultimately have "unat (cd_start_time_ms x) \<le> unat s + (MAX_UPSTREAM_PAGES - Suc n) * (l * 60000)"
      using less.prems(4) by linarith
    moreover have fewer: "MAX_UPSTREAM_PAGES - Suc n < MAX_UPSTREAM_PAGES - n" using next_page(1) by linarith
    moreover have le: "cd_start_time_ms x \<le> e" using next_page(7) less.prems(3) by simp
    ultimately obtain h3 r' where r': "backward_pages p l s page (cd_start_time_ms x) (Suc n) (cs @ b) h1 = (h3, Inr r')"
      "set r' = set (cs @ b) \<union> window S s (cd_start_time_ms x)"
      using less.hyps [of "Suc n" "cd_start_time_ms x" "cs @ b" h1, OF fewer] next_page(6) x le by auto
    moreover have "set b \<union> window S s (cd_start_time_ms x) = window S s c"
      using page_b(1,4) next_page(7) by (auto simp: window_def)
    ultimately show ?thesis using run next_page(8) by auto
  qed
qed


lemma aligned_next:
  assumes "60000 dvd m" and "60000 dvd k" and "m < k"
  shows "m + 60000 \<le> (k :: nat)"
  using assms by (auto elim!: dvdE)

lemma forward_pages_complete:
  assumes S: "aligned S" and e: "60000 dvd unat e"
    and page: "\<And>c h. s \<le> c \<Longrightarrow> c < e \<Longrightarrow> 60000 dvd unat c \<Longrightarrow>
      \<exists>h' b. page c h = (h', Inr b) \<and> oldest_page BINANCE_PAGE_LIMIT (window S c e) b"
  shows "60000 dvd unat c \<Longrightarrow> s \<le> c \<Longrightarrow> unat e \<le> unat c + (MAX_UPSTREAM_PAGES - n) * (BINANCE_PAGE_LIMIT * 60000) \<Longrightarrow>
    \<exists>h' r. forward_pages e page c n cs h = (h', Inr r) \<and> set r = set cs \<union> window S c e"
proof (induction "MAX_UPSTREAM_PAGES - n" arbitrary: c n cs h rule: less_induct)
  case less
  show ?case
  proof (cases "c < e")
    case True
    obtain h1 b where b: "page c h = (h1, Inr b)" "oldest_page BINANCE_PAGE_LIMIT (window S c e) b"
      using page [OF less.prems(2) True less.prems(1)] by blast
    have sub: "set b \<subseteq> window S c e" using b(2) by (simp add: oldest_page_def)
    have after: "unat m = unat (cd_start_time_ms x) + 60000 \<and> unat m \<le> unat e"
      if "x \<in> set b" "checked_add (cd_start_time_ms x) CANDLE_INTERVAL_MS = Some m" for x m
      using that sub S e aligned_next [of "unat (cd_start_time_ms x)" "unat e"]
      by (auto simp: checked_add_Some CANDLE_INTERVAL_MS_def aligned_def window_def word_less_nat_alt)
    have later: "z \<in> window S m e"
      if "x \<in> set b" "checked_add (cd_start_time_ms x) CANDLE_INTERVAL_MS = Some m"
        "z \<in> window S c e" "z \<notin> set b" "BINANCE_PAGE_LIMIT \<le> length b" for x m z
    proof -
      from that b(2) have "cd_start_time_ms x < cd_start_time_ms z" by (auto simp: oldest_page_def)
      moreover from S sub that have "60000 dvd unat (cd_start_time_ms x)" "60000 dvd unat (cd_start_time_ms z)"
        by (auto simp: aligned_def window_def)
      ultimately have "m \<le> cd_start_time_ms z"
        using after [OF that(1,2)] aligned_next by (simp add: word_less_nat_alt word_le_nat_alt)
      with that(3) show ?thesis by (simp add: window_def)
    qed
    obtain h' r where run: "forward_pages e page c n cs h = (h', r)" by fastforce
    then show ?thesis
    proof (cases rule: forward_pages_round)
      case finished
      with run show ?thesis by (auto simp: window_def)
    next
      case limit
      with less.prems(3) show ?thesis by (simp add: word_less_nat_alt)
    next
      case (failed x)
      with b show ?thesis by simp
    next
      case empty
      with b run show ?thesis by (auto simp: oldest_page_def BINANCE_PAGE_LIMIT_def)
    next
      case (overflow b' x)
      with b have "x \<in> set b" by simp
      then have "unat (cd_start_time_ms x) + 60000 \<le> unat e"
        using sub S e by (intro aligned_next) (auto simp: aligned_def window_def word_less_nat_alt)
      with overflow(4) unat_u64_less [of e] show ?thesis by (simp add: checked_add_None CANDLE_INTERVAL_MS_def)
    next
      case (stalled b' x m)
      with b have x: "x \<in> set b" by simp
      with after [OF x stalled(4)] sub stalled(5) have False
        by (auto simp: window_def word_le_nat_alt)
      then show ?thesis ..
    next
      case (last_page b' x m)
      with b have [simp]: "b' = b" and x: "x \<in> set b" by simp_all
      have "set b = window S c e"
      proof (cases "length b < BINANCE_PAGE_LIMIT")
        case False
        with last_page later [OF x last_page(4)] have "z \<in> set b" if "z \<in> window S c e" for z
          using that by (force simp: window_def)
        with sub show ?thesis by blast
      qed (use b(2) in \<open>simp add: oldest_page_def\<close>)
      with run last_page show ?thesis by auto
    next
      case (next_page b' x m h2)
      with b have [simp]: "b' = b" "h2 = h1" and x: "x \<in> set b" by simp_all
      have full: "distinct b" "b \<noteq> []" using b(2) next_page(5) x by (auto simp: oldest_page_def)
      have m: "unat m = unat (cd_start_time_ms x) + 60000" "60000 dvd unat m"
        using after [OF x next_page(7)] S sub x by (auto simp: aligned_def window_def)
      have "length b * 60000 + unat c \<le> unat m"
      proof (rule aligned_span [OF S])
        show "set b \<subseteq> S" using sub by (auto simp: window_def)
      next
        fix y assume "y \<in> set b"
        with sub next_page(6) m(1) show "unat c \<le> unat (cd_start_time_ms y) \<and> unat (cd_start_time_ms y) < unat m"
          by (fastforce simp: window_def word_le_nat_alt)
      qed (use full m less.prems(1) in auto)
      moreover have "BINANCE_PAGE_LIMIT * 60000 \<le> length b * 60000" using next_page(5) by simp
      moreover have "(MAX_UPSTREAM_PAGES - n) * (BINANCE_PAGE_LIMIT * 60000) =
          BINANCE_PAGE_LIMIT * 60000 + (MAX_UPSTREAM_PAGES - Suc n) * (BINANCE_PAGE_LIMIT * 60000)"
        using next_page(2) by (metis Suc_diff_Suc mult_Suc)
      ultimately have "unat e \<le> unat m + (MAX_UPSTREAM_PAGES - Suc n) * (BINANCE_PAGE_LIMIT * 60000)"
        using less.prems(3) by linarith
      moreover have fewer: "MAX_UPSTREAM_PAGES - Suc n < MAX_UPSTREAM_PAGES - n" using next_page(2) by linarith
      moreover have le: "s \<le> m" using less.prems(2) next_page(8) by simp
      ultimately obtain h3 r' where r': "forward_pages e page m (Suc n) (cs @ b) h1 = (h3, Inr r')"
        "set r' = set (cs @ b) \<union> window S m e"
        using less.hyps [of "Suc n" m "cs @ b" h1, OF fewer] m(2) le by auto
      moreover have "set b \<union> window S m e = window S c e"
        using later [OF x next_page(7) _ _ next_page(5)[simplified]] sub next_page(8) by (auto simp: window_def)
      ultimately show ?thesis using run next_page(10) by auto
    qed
  next
    case False
    then have "forward_pages e page c n cs h = (h, Inr cs)" by (subst forward_pages.simps) simp
    moreover have "window S c e = {}" using False by (auto simp: window_def)
    ultimately show ?thesis by simp
  qed
qed

lemma page_end_of_bounds:
  assumes "c < e" and "0 < sp"
  shows "c < page_end_of sp e c \<and> page_end_of sp e c \<le> e \<and>
    (page_end_of sp e c = e \<or> unat (page_end_of sp e c) = unat c + unat sp)"
proof -
  have e: "unat e \<le> 18446744073709551615" using unat_u64_less [of e] by linarith
  have "c < saturating_add c sp \<and> (saturating_add c sp < e \<longrightarrow> unat (saturating_add c sp) = unat c + unat sp)"
    using assms e by (auto simp: word_less_nat_alt unat_saturating_add min_def)
  with assms(1) show ?thesis by (auto simp: page_end_of_def min_def)
qed

lemma span_pages_complete:
  assumes sp: "0 < sp" "60000 dvd unat sp" and e: "60000 dvd unat e"
    and page: "\<And>a b h. s \<le> a \<Longrightarrow> a < b \<Longrightarrow> b \<le> e \<Longrightarrow> 60000 dvd unat a \<Longrightarrow> 60000 dvd unat b \<Longrightarrow>
      \<exists>h' cs. page a b h = (h', Inr cs) \<and> set cs = window S a b"
  shows "s \<le> c \<Longrightarrow> 60000 dvd unat c \<Longrightarrow> unat e \<le> unat c + (MAX_UPSTREAM_PAGES - n) * unat sp \<Longrightarrow>
    \<exists>h' r. span_pages p sp e page c n cs h = (h', Inr r) \<and> set r = set cs \<union> window S c e"
proof (induction "MAX_UPSTREAM_PAGES - n" arbitrary: c n cs h rule: less_induct)
  case less
  obtain h' r where run: "span_pages p sp e page c n cs h = (h', r)" by fastforce
  show ?case
  proof (cases "c < e")
    case c: True
    note bounds = page_end_of_bounds [OF c sp(1)]
    then have end_dvd: "60000 dvd unat (page_end_of sp e c)"
      using less.prems(2) sp(2) e by (metis dvd_add)
    obtain h1 b where b: "page c (page_end_of sp e c) h = (h1, Inr b)" "set b = window S c (page_end_of sp e c)"
      using page [OF less.prems(1) _ _ less.prems(2) end_dvd] bounds by blast
    from run show ?thesis
    proof (cases rule: span_pages_round)
      case limit
      with less.prems(3) show ?thesis by (simp add: word_less_nat_alt)
    next
      case (next_page b' h2)
      with b have [simp]: "b' = b" "h2 = h1" by simp_all
      have "(MAX_UPSTREAM_PAGES - n) * unat sp = unat sp + (MAX_UPSTREAM_PAGES - Suc n) * unat sp"
        using next_page(2) by (metis Suc_diff_Suc mult_Suc)
      with bounds less.prems(3) have "unat e \<le> unat (page_end_of sp e c) + (MAX_UPSTREAM_PAGES - Suc n) * unat sp"
        by auto
      moreover have fewer: "MAX_UPSTREAM_PAGES - Suc n < MAX_UPSTREAM_PAGES - n" using next_page(2) by linarith
      moreover have le: "s \<le> page_end_of sp e c" using less.prems(1) bounds by (meson order.strict_implies_order order_trans)
      ultimately obtain h3 r' where "span_pages p sp e page (page_end_of sp e c) (Suc n) (cs @ b) h1 = (h3, Inr r')"
        "set r' = set (cs @ b) \<union> window S (page_end_of sp e c) e"
        using less.hyps [of "Suc n" "page_end_of sp e c" "cs @ b" h1, OF fewer le end_dvd] by auto
      moreover have "window S c (page_end_of sp e c) \<union> window S (page_end_of sp e c) e = window S c e"
        using bounds by (auto simp: window_def)
      ultimately show ?thesis using run next_page(5) b(2) by auto
    qed (use b c bounds in auto)
  next
    case False
    then have "span_pages p sp e page c n cs h = (h, Inr cs)" by (subst span_pages.simps) simp
    moreover have "window S c e = {}" using False by (auto simp: window_def)
    ultimately show ?thesis by simp
  qed
qed


subsection \<open>Fetching\<close>

lemmas page_defs = bybit_page_def binance_page_def okx_page_def kucoin_page_def mexc_page_def bingx_page_def Let_def

lemmas fetch_defs = fetch_bybit_def fetch_binance_def fetch_okx_def fetch_kucoin_def fetch_mexc_def fetch_bingx_def

lemma pages_sound:
  "bybit_page C rq a h = (h', Inr b) \<Longrightarrow> list_all (sound_row (hc_ext C)) b"
  "binance_page C rq t a h = (h', Inr b) \<Longrightarrow> list_all (sound_row (hc_ext C)) b"
  "okx_page C rq a h = (h', Inr b) \<Longrightarrow> list_all (sound_row (hc_ext C)) b"
  "kucoin_page C rq a z h = (h', Inr b) \<Longrightarrow> list_all (sound_row (hc_ext C)) b"
  "mexc_page C rq t a z h = (h', Inr b) \<Longrightarrow> list_all (sound_row (hc_ext C)) b"
  "bingx_page C rq t a z h = (h', Inr b) \<Longrightarrow> list_all (sound_row (hc_ext C)) b"
  unfolding page_defs
  by (auto simp: query_bind_Inr query_lift_eq intro: parse_pages_sound)

lemma fetch_candles_sound:
  assumes "fetch_candles C rq h = (h', Inr cs)"
  shows "list_all (sound_row (hc_ext C)) cs"
proof -
  note backward = backward_pages_all [where cs = "[]" and h = h and P = "sound_row (hc_ext C)", simplified]
  note forward = forward_pages_all [where cs = "[]" and P = "sound_row (hc_ext C)", simplified]
  note span = span_pages_all [where cs = "[]" and P = "sound_row (hc_ext C)", simplified]
  from assms show ?thesis
    unfolding fetch_candles_def fetch_defs
    by (cases "hr_provider rq")
      (auto simp: query_bind_Inr query_lift_eq
        intro: backward [OF pages_sound(1)] backward [OF pages_sound(3)] forward [OF pages_sound(2)]
          span [OF pages_sound(4)] span [OF pages_sound(5)] span [OF pages_sound(6)])
qed

text \<open>Every computation below sends at most one request per call of \<open>get_text\<close>.\<close>

definition sends_counted :: "'h history_client \<Rightarrow> ('h \<Rightarrow> nat) \<Rightarrow> bool" where
  "sends_counted C cnt \<longleftrightarrow> (\<forall>h url. cnt (fst (hc_send C h url)) = Suc (cnt h))"

lemma fst_get_text: "fst (get_text C p url h) = fst (hc_send C h url)"
  by (simp add: get_text_def split: prod.split sum.split)

lemma fst_bind_lift: "fst (query_bind m (\<lambda>x. query_lift (f x)) h) = fst (m h)"
  by (simp add: query_bind_def query_lift_def split: prod.split sum.split)

lemma query_lift_bind: "query_bind (query_lift r) f h = (case r of Inl e \<Rightarrow> (h, Inl e) | Inr x \<Rightarrow> f x h)"
  by (simp add: query_bind_def query_lift_def split: sum.split)

lemma pages_count:
  assumes "sends_counted C cnt"
  shows "cnt (fst (bybit_page C rq a h)) \<le> Suc (cnt h)" "cnt (fst (binance_page C rq t a h)) \<le> Suc (cnt h)"
    "cnt (fst (okx_page C rq a h)) \<le> Suc (cnt h)" "cnt (fst (kucoin_page C rq a z h)) \<le> Suc (cnt h)"
    "cnt (fst (mexc_page C rq t a z h)) \<le> Suc (cnt h)" "cnt (fst (bingx_page C rq t a z h)) \<le> Suc (cnt h)"
    "cnt (fst (binance_server_time C h)) \<le> Suc (cnt h)" "cnt (fst (mexc_server_time C h)) \<le> Suc (cnt h)"
    "cnt (fst (bingx_server_time C h)) \<le> Suc (cnt h)"
  unfolding page_defs binance_server_time_def mexc_server_time_def bingx_server_time_def
  using assms
  by (simp_all add: query_lift_bind fst_bind_lift fst_get_text sends_counted_def split: sum.split del: split_paired_All)

lemma query_bind_count:
  fixes cnt :: "'h \<Rightarrow> nat"
  assumes "cnt (fst (m h)) \<le> cnt h + i" and "\<And>x h. cnt (fst (f x h)) \<le> cnt h + j"
  shows "cnt (fst (query_bind m f h)) \<le> cnt h + (i + j)"
proof (cases "m h")
  case (Pair h1 r)
  with assms(1) assms(2) [of _ h1] show ?thesis
    by (auto simp: query_bind_def split: sum.split intro: order_trans [of _ "cnt h1 + j"])
qed


lemma loops_count:
  fixes cnt :: "'h \<Rightarrow> nat"
  shows "(\<And>c h. cnt (fst (page c h)) \<le> Suc (cnt h)) \<Longrightarrow>
      cnt (fst (backward_pages p l s page c 0 cs h)) \<le> cnt h + MAX_UPSTREAM_PAGES"
    "(\<And>c h. cnt (fst (page c h)) \<le> Suc (cnt h)) \<Longrightarrow>
      cnt (fst (forward_pages e page c 0 cs h)) \<le> cnt h + MAX_UPSTREAM_PAGES"
    "(\<And>a b h. cnt (fst (page' a b h)) \<le> Suc (cnt h)) \<Longrightarrow>
      cnt (fst (span_pages p sp e page' c 0 cs h)) \<le> cnt h + MAX_UPSTREAM_PAGES"
  using backward_pages_count [of cnt page p l s c 0 cs h] forward_pages_count [of cnt page e c 0 cs h]
    span_pages_count [of cnt page' p sp e c 0 cs h]
  by (metis diff_zero prod.collapse)+

lemma fetch_candles_count:
  assumes "sends_counted C cnt"
  shows "cnt (fst (fetch_candles C rq h)) \<le> cnt h + (1 + MAX_UPSTREAM_PAGES)"
proof -
  note pages = pages_count [OF assms]
  have bind: "cnt (fst (query_bind m f h)) \<le> cnt h + (1 + MAX_UPSTREAM_PAGES)"
    if "cnt (fst (m h)) \<le> Suc (cnt h)" "\<And>x h. cnt (fst (f x h)) \<le> cnt h + MAX_UPSTREAM_PAGES" for m f
    using query_bind_count [of cnt m h 1 f MAX_UPSTREAM_PAGES] that by simp
  have lift: "cnt (fst (query_bind (query_lift r) f h)) \<le> cnt h + MAX_UPSTREAM_PAGES"
    if "\<And>x h. cnt (fst (f x h)) \<le> cnt h + MAX_UPSTREAM_PAGES" for r f h
    using that by (simp add: query_lift_bind split: sum.split)
  show ?thesis
  proof (cases "hr_provider rq")
    case Bybit
    then show ?thesis
      using loops_count(1) [of cnt "bybit_page C rq", OF pages(1)] by (simp add: fetch_candles_def fetch_defs le_SucI)
  next
    case Okx
    then show ?thesis
      using loops_count(1) [of cnt "okx_page C rq", OF pages(3)] by (simp add: fetch_candles_def fetch_defs le_SucI)
  next
    case Binance
    then show ?thesis unfolding fetch_candles_def fetch_defs
      by (auto intro!: bind pages loops_count simp del: One_nat_def)
  next
    case Kucoin
    then show ?thesis unfolding fetch_candles_def fetch_defs
      by (auto intro!: order_trans [OF lift] pages loops_count simp del: One_nat_def)
  next
    case Mexc
    then show ?thesis unfolding fetch_candles_def fetch_defs
      by (auto intro!: bind lift pages loops_count simp del: One_nat_def)
  next
    case Bingx
    then show ?thesis unfolding fetch_candles_def fetch_defs
      by (auto intro!: bind lift pages loops_count simp del: One_nat_def)
  qed
qed

subsection \<open>Valid requests\<close>

definition valid_request :: "ext \<Rightarrow> history_request \<Rightarrow> bool" where
  "valid_request E rq \<longleftrightarrow>
     normalize_symbol E (hr_symbol rq) = Inr (hr_symbol rq) \<and> provider_symbol E (hr_provider rq) (hr_symbol rq) \<and>
     0 < unat (hr_start_time_ms rq) \<and> 60000 dvd unat (hr_start_time_ms rq) \<and> 60000 dvd unat (hr_end_time_ms rq) \<and>
     unat (hr_start_time_ms rq) < unat (hr_end_time_ms rq) \<and>
     unat (hr_end_time_ms rq) \<le> unat (hr_start_time_ms rq) + 600000000 \<and>
     1 \<le> hr_limit rq \<and> hr_limit rq \<le> 10000"

lemma guard_Inr: "(if P then Inl e else r) = Inr y \<longleftrightarrow> \<not> P \<and> r = Inr y"
  by simp

lemma new_history_request_Inr:
  "new_history_request E p s a b l = Inr rq \<longleftrightarrow>
     rq = \<lparr>hr_provider = p, hr_symbol = s, hr_start_time_ms = a, hr_end_time_ms = b, hr_limit = l\<rparr> \<and> valid_request E rq"
proof -
  have zero: "a = 0 \<longleftrightarrow> unat a = 0" by (simp add: unat_eq_zero)
  have range: "(\<exists>r. checked_sub b a = Some r \<and> r \<noteq> 0 \<and> \<not> MAX_HISTORY_RANGE_MS < r \<and> Q) \<longleftrightarrow>
      unat a < unat b \<and> unat b \<le> unat a + 600000000 \<and> Q" for Q
    by (auto simp: checked_sub_def MAX_HISTORY_RANGE_MS_def word_less_nat_alt word_le_nat_alt unat_sub not_less
        simp flip: unat_eq_zero split: if_split_asm)
  have "new_history_request E p s a b l = Inr rq \<longleftrightarrow>
      normalize_symbol E s = Inr s \<and> provider_symbol E p s \<and>
      unat a \<noteq> 0 \<and> 60000 dvd unat a \<and> 60000 dvd unat b \<and>
      (\<exists>r. checked_sub b a = Some r \<and> r \<noteq> 0 \<and> \<not> MAX_HISTORY_RANGE_MS < r \<and> (1 \<le> l \<and> l \<le> 10000 \<and>
        rq = \<lparr>hr_provider = p, hr_symbol = s, hr_start_time_ms = a, hr_end_time_ms = b, hr_limit = l\<rparr>))"
    unfolding new_history_request_def validate_provider_symbol_def
    by (simp only: and_then_Inr map_err_Inr ok_or_Inr guard_Inr is_multiple_of_interval zero MAX_HISTORY_CANDLES_def
        if_distrib [of "\<lambda>r. r = Inr _"])
      (auto split: if_split_asm)
  then show ?thesis unfolding range by (auto simp: valid_request_def)
qed


lemma finish_result_Inr:
  assumes "finish_result rq candles = Inr res"
  shows "hres_provider res = hr_provider rq \<and> hres_symbol res = hr_symbol rq \<and>
    hres_start_time_ms res = hr_start_time_ms rq \<and> hres_end_time_ms res = hr_end_time_ms rq \<and>
    map hcd_candle (hres_candles res) =
      take (hr_limit rq) (sort_key cd_start_time_ms (remdups (filter (in_request rq) candles))) \<and>
    inj_on cd_start_time_ms (set (filter (in_request rq) candles)) \<and>
    (\<forall>x \<in> set (hres_candles res). hcd_provider x = hr_provider rq \<and> hcd_symbol x = hr_symbol rq)"
  using assms
  by (auto simp: finish_result_spec finish_spec_def Let_def conflicts_empty comp_def dest: in_set_takeD split: if_split_asm)

lemma strict_sort_key:
  assumes "inj_on f (set xs)"
  shows "sorted_wrt (<) (map f (take n (sort_key f (remdups xs))))"
proof -
  have "distinct (map f (sort_key f (remdups xs)))" using assms by (simp add: distinct_map)
  then have "sorted_wrt (<) (map f (sort_key f (remdups xs)))" by (simp add: strict_sorted_iff)
  then show ?thesis by (metis sorted_wrt_take take_map)
qed

text \<open>
  What a venue that answers in full is assumed to do for a series \<open>S\<close>: each page request of the
  gateway succeeds and returns the candles of \<open>S\<close> in the window asked for, or as many of the newest
  (Bybit, OKX) or oldest (Binance) of them as the page may hold.
\<close>

definition answers_in_full :: "'h history_client \<Rightarrow> history_request \<Rightarrow> candle set \<Rightarrow> bool" where
  "answers_in_full C rq S \<longleftrightarrow>
     (let s = hr_start_time_ms rq; e = hr_end_time_ms rq;
          inside = (\<lambda>a b. s \<le> a \<and> a < b \<and> b \<le> e \<and> 60000 dvd unat a \<and> 60000 dvd unat b);
          time = (\<lambda>m t. \<forall>h. \<exists>h'. m h = (h', Inr t))
      in case hr_provider rq of
       Bybit \<Rightarrow> (\<forall>c h. inside s c \<longrightarrow> (\<exists>h' b. bybit_page C rq c h = (h', Inr b) \<and> newest_page BYBIT_PAGE_LIMIT (window S s c) b))
     | Okx \<Rightarrow> (\<forall>c h. inside s c \<longrightarrow> (\<exists>h' b. okx_page C rq c h = (h', Inr b) \<and> newest_page OKX_PAGE_LIMIT (window S s c) b))
     | Binance \<Rightarrow> (\<exists>t. time (binance_server_time C) t \<and>
         (\<forall>c h. inside c e \<longrightarrow> (\<exists>h' b. binance_page C rq t c h = (h', Inr b) \<and> oldest_page BINANCE_PAGE_LIMIT (window S c e) b)))
     | Kucoin \<Rightarrow> (\<forall>a z h. inside a z \<longrightarrow> (\<exists>h' b. kucoin_page C rq a z h = (h', Inr b) \<and> set b = window S a z))
     | Mexc \<Rightarrow> (\<exists>t. time (mexc_server_time C) t \<and>
         (\<forall>a z h. inside a z \<longrightarrow> (\<exists>h' b. mexc_page C rq t a z h = (h', Inr b) \<and> set b = window S a z)))
     | Bingx \<Rightarrow> (\<exists>t. time (bingx_server_time C) t \<and>
         (\<forall>a z h. inside a z \<longrightarrow> (\<exists>h' b. bingx_page C rq t a z h = (h', Inr b) \<and> set b = window S a z))))"

lemma fetch_candles_complete:
  assumes rq: "valid_request E rq" and S: "aligned S" and full: "answers_in_full C rq S"
  shows "\<exists>h' cs. fetch_candles C rq h = (h', Inr cs) \<and> set cs = window S (hr_start_time_ms rq) (hr_end_time_ms rq)"
proof -
  let ?s = "hr_start_time_ms rq" and ?e = "hr_end_time_ms rq"
  have bounds: "?s < ?e" "60000 dvd unat ?s" "60000 dvd unat ?e" "unat ?e \<le> unat ?s + 600000000"
    using rq by (auto simp: valid_request_def word_less_nat_alt)
  have budget: "unat ?e \<le> unat ?s + (MAX_UPSTREAM_PAGES - 0) * k" if "15000000 \<le> k" for k
  proof -
    have "600000000 \<le> (40 :: nat) * k" using that by linarith
    then show ?thesis using bounds(4) by (simp add: MAX_UPSTREAM_PAGES_def)
  qed
  show ?thesis
  proof (cases "hr_provider rq")
    case Bybit
    with full bounds show ?thesis
      unfolding fetch_candles_def fetch_defs answers_in_full_def Let_def
      using backward_pages_complete [OF S, of BYBIT_PAGE_LIMIT ?s ?e "bybit_page C rq" ?e 0 Bybit "[]" h] budget
      by (simp add: BYBIT_PAGE_LIMIT_def)
  next
    case Okx
    with full bounds show ?thesis
      unfolding fetch_candles_def fetch_defs answers_in_full_def Let_def
      using backward_pages_complete [OF S, of OKX_PAGE_LIMIT ?s ?e "okx_page C rq" ?e 0 Okx "[]" h] budget
      by (simp add: OKX_PAGE_LIMIT_def)
  next
    case Kucoin
    have span: "page_span_of Kucoin KUCOIN_PAGE_LIMIT = Inr 30000000"
      by (simp add: page_span_of_def KUCOIN_PAGE_LIMIT_def CANDLE_INTERVAL_MS_def checked_mul_def)
    from Kucoin full bounds show ?thesis
      unfolding fetch_candles_def fetch_defs answers_in_full_def Let_def
      using span_pages_complete [of 30000000 ?e ?s "kucoin_page C rq" S ?s 0 Kucoin "[]" h] budget
      by (simp add: span)
  next
    case Mexc
    have span: "page_span_of Mexc MEXC_PAGE_LIMIT = Inr 120000000"
      by (simp add: page_span_of_def MEXC_PAGE_LIMIT_def CANDLE_INTERVAL_MS_def checked_mul_def)
    from Mexc full obtain t where t: "\<And>h. \<exists>h'. mexc_server_time C h = (h', Inr t)"
      and page: "\<And>a z h. ?s \<le> a \<Longrightarrow> a < z \<Longrightarrow> z \<le> ?e \<Longrightarrow> 60000 dvd unat a \<Longrightarrow> 60000 dvd unat z \<Longrightarrow>
        \<exists>h' b. mexc_page C rq t a z h = (h', Inr b) \<and> set b = window S a z"
      unfolding answers_in_full_def Let_def by simp blast
    obtain h1 where h1: "mexc_server_time C h = (h1, Inr t)" using t by blast
    from Mexc bounds page show ?thesis
      unfolding fetch_candles_def fetch_defs
      using span_pages_complete [of 120000000 ?e ?s "mexc_page C rq t" S ?s 0 Mexc "[]" h1] budget h1
      by (simp add: span)
  next
    case Bingx
    have span: "page_span_of Bingx BINGX_PAGE_LIMIT = Inr 86400000"
      by (simp add: page_span_of_def BINGX_PAGE_LIMIT_def CANDLE_INTERVAL_MS_def checked_mul_def)
    from Bingx full obtain t where t: "\<And>h. \<exists>h'. bingx_server_time C h = (h', Inr t)"
      and page: "\<And>a z h. ?s \<le> a \<Longrightarrow> a < z \<Longrightarrow> z \<le> ?e \<Longrightarrow> 60000 dvd unat a \<Longrightarrow> 60000 dvd unat z \<Longrightarrow>
        \<exists>h' b. bingx_page C rq t a z h = (h', Inr b) \<and> set b = window S a z"
      unfolding answers_in_full_def Let_def by simp blast
    obtain h1 where h1: "bingx_server_time C h = (h1, Inr t)" using t by blast
    from Bingx bounds page show ?thesis
      unfolding fetch_candles_def fetch_defs
      using span_pages_complete [of 86400000 ?e ?s "bingx_page C rq t" S ?s 0 Bingx "[]" h1] budget h1
      by (simp add: span)
  next
    case Binance
    from Binance full obtain t where t: "\<And>h. \<exists>h'. binance_server_time C h = (h', Inr t)"
      and page: "\<And>c h. ?s \<le> c \<Longrightarrow> c < ?e \<Longrightarrow> 60000 dvd unat c \<Longrightarrow>
        \<exists>h' b. binance_page C rq t c h = (h', Inr b) \<and> oldest_page BINANCE_PAGE_LIMIT (window S c ?e) b"
      using bounds unfolding answers_in_full_def Let_def by simp blast
    obtain h1 where h1: "binance_server_time C h = (h1, Inr t)" using t by blast
    from Binance bounds page show ?thesis
      unfolding fetch_candles_def fetch_defs
      using forward_pages_complete [OF S, of ?e ?s "binance_page C rq t" ?s 0 "[]" h1] budget h1
      by (simp add: BINANCE_PAGE_LIMIT_def)
  qed
qed


section \<open>Properties\<close>


lemma fetch_result_sound:
  assumes "fetch C rq h = (h', Inr res)"
  shows "hres_provider res = hr_provider rq \<and> hres_symbol res = hr_symbol rq \<and>
    length (hres_candles res) \<le> hr_limit rq \<and>
    sorted_wrt (<) (map (\<lambda>x. cd_start_time_ms (hcd_candle x)) (hres_candles res)) \<and>
    list_all (\<lambda>x. hcd_provider x = hr_provider rq \<and> hcd_symbol x = hr_symbol rq \<and>
      hr_start_time_ms rq \<le> cd_start_time_ms (hcd_candle x) \<and> cd_end_time_ms (hcd_candle x) \<le> hr_end_time_ms rq \<and>
      60000 dvd unat (cd_start_time_ms (hcd_candle x)) \<and> sound_candle (hc_ext C) (hcd_candle x)) (hres_candles res)"
proof -
  from assms obtain cs where cs: "fetch_candles C rq h = (h', Inr cs)" and res: "finish_result rq cs = Inr res"
    by (auto simp: fetch_def query_bind_Inr query_lift_eq)
  let ?kept = "filter (in_request rq) cs"
  note fin = finish_result_Inr [OF res]
  then have candles: "map hcd_candle (hres_candles res) = take (hr_limit rq) (sort_key cd_start_time_ms (remdups ?kept))"
    by blast
  have "length (hres_candles res) \<le> hr_limit rq"
    using arg_cong [OF candles, of length] by simp
  moreover have "sorted_wrt (<) (map (\<lambda>x. cd_start_time_ms (hcd_candle x)) (hres_candles res))"
  proof -
    have "sorted_wrt (<) (map cd_start_time_ms (map hcd_candle (hres_candles res)))"
      unfolding candles by (rule strict_sort_key) (use fin in blast)
    then show ?thesis by (simp add: comp_def)
  qed
  moreover have "hcd_candle x \<in> set ?kept" if "x \<in> set (hres_candles res)" for x
  proof -
    from that have "hcd_candle x \<in> set (map hcd_candle (hres_candles res))" by simp
    then show ?thesis unfolding candles by (auto dest!: in_set_takeD)
  qed
  ultimately show ?thesis
    using fin fetch_candles_sound [OF cs] by (simp add: list_all_iff sound_row_def in_request_def)
qed

text \<open>
  (C29) Whatever the venue and the network do, a fetch that succeeds returns a sound answer:
  at most \<open>limit\<close> candles, in strictly ascending order of start time, each stamped with the
  requested provider and symbol, lying in the requested range on a UTC minute, and satisfying the
  candle invariants.
\<close>

theorem fetch_sound:
  assumes "fetch C rq h = (h', Inr res)"
  shows "hres_provider res = hr_provider rq \<and> hres_symbol res = hr_symbol rq \<and>
    length (hres_candles res) \<le> hr_limit rq \<and>
    sorted_wrt (<) (map (\<lambda>x. cd_start_time_ms (hcd_candle x)) (hres_candles res)) \<and>
    list_all (\<lambda>x. hcd_provider x = hr_provider rq \<and> hcd_symbol x = hr_symbol rq \<and>
      hr_start_time_ms rq \<le> cd_start_time_ms (hcd_candle x) \<and> cd_end_time_ms (hcd_candle x) \<le> hr_end_time_ms rq \<and>
      60000 dvd unat (cd_start_time_ms (hcd_candle x)) \<and> sound_candle (hc_ext C) (hcd_candle x)) (hres_candles res)"
  by (rule fetch_result_sound [OF assms])

text \<open>
  (C30) The assembled result does not depend on how the unstable sort orders candles with equal
  start times: every sorted permutation of the candles in range gives the reference result, the
  duplicate-free candles in order, or an error naming the earliest minute on which two candles
  disagree.
\<close>

theorem finish_result_any_sort:
  assumes "mset ys = mset (filter (in_request rq) candles)" and "sorted (map cd_start_time_ms ys)"
  shows "finish_sorted rq ys = finish_result rq candles \<and> finish_result rq candles = finish_spec rq candles"
  using finish_sorted_spec [OF assms] by (simp add: finish_result_spec)

text \<open>
  (C31) A fetch ends after at most 41 HTTP requests, one for the server time and 40 pages, whatever
  the venue answers.
\<close>

theorem fetch_requests_bounded:
  assumes "sends_counted C cnt"
  shows "cnt (fst (fetch C rq h)) \<le> cnt h + 41"
  using fetch_candles_count [OF assms, of rq h] by (simp add: fetch_def fst_bind_lift MAX_UPSTREAM_PAGES_def)

text \<open>
  (C32) A request is accepted exactly when it is well formed, and every value of the request type
  the constructor returns is: an exact venue symbol of the provider, minute-aligned positive bounds
  in order, a range of at most 10,000 minutes and a limit from 1 to 10,000. Every refusal is an
  invalid-request error.
\<close>

theorem new_history_request_exact:
  "case new_history_request E p s a b l of
     Inr rq \<Rightarrow> valid_request E rq \<and> hr_provider rq = p \<and> hr_symbol rq = s \<and>
       hr_start_time_ms rq = a \<and> hr_end_time_ms rq = b \<and> hr_limit rq = l
   | Inl e \<Rightarrow> (\<exists>m. e = InvalidRequest m) \<and>
       \<not> valid_request E \<lparr>hr_provider = p, hr_symbol = s, hr_start_time_ms = a, hr_end_time_ms = b, hr_limit = l\<rparr>"
proof (cases "new_history_request E p s a b l")
  case (Inl e)
  then have "\<exists>m. e = InvalidRequest m"
    unfolding new_history_request_def validate_provider_symbol_def
    by (auto simp: and_then_Inl map_err_Inl ok_or_Inl split: if_split_asm)
  with Inl new_history_request_Inr [of E p s a b l] show ?thesis by auto
next
  case (Inr rq)
  then have "rq = \<lparr>hr_provider = p, hr_symbol = s, hr_start_time_ms = a, hr_end_time_ms = b, hr_limit = l\<rparr> \<and>
      valid_request E rq"
    by (rule new_history_request_Inr [THEN iffD1])
  with Inr show ?thesis by auto
qed

subsection \<open>Witnesses\<close>

text \<open>A KuCoin venue that holds one candle and answers every request with it.\<close>

definition quoted :: "string \<Rightarrow> string" where
  "quoted t = [CHR 0x22] @ t @ [CHR 0x22]"

definition sample_row :: string where
  "sample_row = ''[60000,2,2,2,2,0,0]''"

definition sample_data :: string where
  "sample_data = ''['' @ sample_row @ '']''"

definition sample_body :: string where
  "sample_body = ''{'' @ quoted ''code'' @ '':'' @ quoted ''200000'' @ '','' @ quoted ''data'' @ '':'' @ sample_data @ ''}''"

definition sample_raw :: raw_lib where
  "sample_raw = \<lparr>
     js_from_str = (\<lambda>t. if t = quoted ''200000'' then Inr (JString ''200000'') else Inl ''unexpected token''),
     js_to_string = (\<lambda>_. []), js_error = (\<lambda>_. []), fmt_debug = quoted,
     raw_elements = (\<lambda>t. if t = sample_data then Some [sample_row]
       else if t = sample_row then Some [''60000'', ''2'', ''2'', ''2'', ''2'', ''0'', ''0''] else None),
     raw_fields = (\<lambda>t. if t = sample_body then Some [(''code'', quoted ''200000''), (''data'', sample_data)] else None),
     raw_error = (\<lambda>_. ''unexpected token'')\<rparr>"

definition sample_client :: "nat history_client" where
  "sample_client = \<lparr>
     hc_sources = default_history_sources,
     hc_send = (\<lambda>n url. (Suc n, Inr (200, Inr sample_body))),
     hc_join = (\<lambda>base path. Inr (base @ path)),
     hc_json = sample_raw, hc_ext = sample_lib\<rparr>"

definition sample_candle :: candle where
  "sample_candle = \<lparr>cd_interval = ''1m'', cd_start_time_ms = 60000, cd_end_time_ms = 120000,
     cd_open = DecimalValue ''2'', cd_high = DecimalValue ''2'', cd_low = DecimalValue ''2'',
     cd_close = DecimalValue ''2'', cd_base_volume = None, cd_quote_volume = None, cd_contract_volume = None,
     cd_finality = Unknown, cd_data_quality = [ProviderVolumeUntrusted]\<rparr>"

definition sample_request :: history_request where
  "sample_request = \<lparr>hr_provider = Kucoin, hr_symbol = ''XBTUSDTM'', hr_start_time_ms = 60000,
     hr_end_time_ms = 120000, hr_limit = 10\<rparr>"

lemmas sample_text = trim_def trim_start_chars_def is_cont_def code_point_def is_whitespace_def symbol_char_def
  is_alphanumeric_def is_ascii_alphanumeric_def is_ascii_digit_def to_ascii_uppercase_def ascii_upper_def
  char_of_eq_iff ascii_alphanumeric_def ends_with_def

lemma sample_request_ok: "new_history_request sample_lib Kucoin ''XBTUSDTM'' 60000 120000 10 = Inr sample_request"
proof -
  have "normalize_symbol sample_lib ''XBTUSDTM'' = Inr ''XBTUSDTM''"
    by (simp add: normalize_symbol_def Let_def sample_text)
  moreover have "provider_symbol sample_lib Kucoin ''XBTUSDTM''"
    by (simp add: provider_symbol_def sample_text)
  ultimately show ?thesis
    by (simp add: new_history_request_Inr valid_request_def sample_request_def)
qed

lemma sample_utf8: "from_utf8 sample_body = Some sample_body"
  by (simp add: from_utf8_def sample_body_def sample_data_def sample_row_def quoted_def is_cont_def)

lemma sample_tokens:
  "parse_u64 ''60000'' = Some 60000" "dec_from_str sample_lib ''2'' = Some (Decimal 2 0)"
  by (simp_all add: parse_u64_def all_digits_def is_ascii_digit_def digits_value_def sample_lib_def sample_decimal_def)

lemma sample_page: "kucoin_page sample_client sample_request 60000 120000 h = (Suc h, Inr [sample_candle])"
proof -
  have len: "length sample_body \<le> MAX_RESPONSE_BYTES"
    by (simp add: MAX_RESPONSE_BYTES_def sample_body_def sample_data_def sample_row_def quoted_def)
  have "parse_kucoin_row sample_lib sample_raw [''60000'', ''2'', ''2'', ''2'', ''2'', ''0'', ''0''] = Inr sample_candle"
    by (simp add: parse_kucoin_row_def require_len_def raw_u64_def raw_decimal_def starts_with_def parse_u64_text_def
        sample_tokens all_digits_def is_ascii_digit_def build_candle_def candle_end_def checked_add_def CANDLE_INTERVAL_MS_def is_multiple_of_def
        history_decimal_def new_decimal_value_def optional_history_decimal_def validate_candle_def checked_sub_def
        Domain.decimal_def dec_value_def sample_candle_def)
  moreover have "decode_kucoin_header sample_raw sample_body = Some (''200000'', [])"
    "decode_kucoin_response sample_raw sample_body =
       Some (''200000'', [[''60000'', ''2'', ''2'', ''2'', ''2'', ''0'', ''0'']])"
    by (simp_all add: decode_kucoin_header_def decode_kucoin_response_def raw_struct_def sample_raw_def raw_field_def
        raw_field_default_def raw_string_def raw_value_def raw_list_def sample_data_def)
  ultimately have "parse_kucoin sample_lib sample_raw sample_body = Inr [sample_candle]"
    by (simp add: parse_kucoin_def parse_json_def)
  with len show ?thesis
    by (simp add: kucoin_page_def query_bind_def query_lift_def rest_endpoint_def sample_client_def exclusive_query_end_def
        checked_sub_def get_text_def sample_utf8 is_success_def)
qed

lemma sample_sound: "sound_row sample_lib sample_candle"
  by (simp add: sound_row_def sound_candle_def sample_candle_def sample_tokens dec_value_def sound_volume_def)

lemma sample_answers: "answers_in_full sample_client sample_request (set [sample_candle])"
proof -
  have only: "a = 60000 \<and> z = 120000"
    if "60000 \<le> a" "a < z" "z \<le> 120000" "60000 dvd unat a" "60000 dvd unat z" for a z :: u64
  proof -
    from that have "60000 \<le> unat a" "unat a < unat z" "unat z \<le> 120000"
      by (simp_all add: word_le_nat_alt word_less_nat_alt)
    with that(4,5) have "unat a = 60000 \<and> unat z = 120000" by (auto elim!: dvdE)
    then show ?thesis by (simp add: word_unat_eq_iff)
  qed
  have "window {sample_candle} 60000 120000 = {sample_candle}"
    by (auto simp: window_def sample_candle_def)
  with sample_page show ?thesis
    by (fastforce simp: answers_in_full_def sample_request_def dest: only)
qed


lemma sample_fetch:
  "fetch sample_client sample_request 0 = (1, Inr \<lparr>hres_provider = Kucoin, hres_market = LinearPerpetual,
     hres_symbol = ''XBTUSDTM'', hres_start_time_ms = 60000, hres_end_time_ms = 120000,
     hres_candles = [\<lparr>hcd_provider = Kucoin, hcd_market = LinearPerpetual, hcd_symbol = ''XBTUSDTM'',
       hcd_candle = sample_candle\<rparr>]\<rparr>)"
  using sample_page
  by (simp add: fetch_def fetch_candles_def fetch_kucoin_def sample_request_def query_lift_bind query_bind_def
      page_span_of_def checked_mul_def KUCOIN_PAGE_LIMIT_def CANDLE_INTERVAL_MS_def span_pages.simps count_page_def
      MAX_UPSTREAM_PAGES_def page_end_of_def saturating_add_def finish_result_def finish_sorted_def in_request_def
      sample_candle_def query_lift_def)

theorem fetch_sound_witness:
  "\<exists>h' res. fetch sample_client sample_request 0 = (h', Inr res) \<and> length (hres_candles res) \<le> 10 \<and>
     list_all (\<lambda>x. sound_candle sample_lib (hcd_candle x)) (hres_candles res)"
  using fetch_sound [OF sample_fetch] sample_fetch by (simp add: sample_request_def sample_client_def)

theorem finish_result_any_sort_witness:
  "finish_sorted sample_request [sample_candle, sample_candle] = finish_result sample_request [sample_candle, sample_candle]"
  using finish_result_any_sort [of "[sample_candle, sample_candle]" sample_request "[sample_candle, sample_candle]"]
  by (simp add: in_request_def sample_request_def sample_candle_def)

theorem fetch_requests_bounded_witness:
  "sends_counted sample_client (\<lambda>n. n) \<and> fst (fetch sample_client sample_request 0) \<le> 41"
  using fetch_requests_bounded [of sample_client "\<lambda>n. n" sample_request 0]
  by (simp add: sends_counted_def sample_client_def)

end
