(* ===== verification/Http.thy ===== *)
theory Http
  imports Api Health History
begin

text \<open>
  The HTTP handlers of the downstream API (\<^verbatim>\<open>src/src/api.rs\<close>): readiness, the provider and
  instrument listings, the origin check of the websocket route, and the candle history endpoint
  with its error mapping and the conversion of MEXC contract volumes into base volumes.
\<close>

section \<open>HTTP handlers\<close>

record api_error_body =
  ae_status :: nat
  ae_code :: string
  ae_message :: string

definition api_error :: "nat \<Rightarrow> string \<Rightarrow> string \<Rightarrow> api_error_body" where
  "api_error status code message = \<lparr>ae_status = status, ae_code = code, ae_message = take_chars 500 message\<rparr>"

definition api_liveness :: string where
  "api_liveness = ''live''"

text \<open>The metrics page: \<open>encode\<close> is the Prometheus library's text encoder.\<close>

definition prometheus_metrics :: "(metrics \<Rightarrow> string option) \<Rightarrow> metrics \<Rightarrow> nat \<times> string" where
  "prometheus_metrics encode m = (case encode m of Some text_page \<Rightarrow> (200, text_page) | None \<Rightarrow> (500, ''metrics encoding failed''))"

record service_readiness =
  sr_ready :: bool
  sr_status :: string
  sr_endpoints :: "endpoint_health list"
  sr_catalogs :: "provider_catalog_status list"

definition api_readiness :: "health_registry \<Rightarrow> catalog_state \<Rightarrow> nat \<times> service_readiness" where
  "api_readiness health catalog =
     (let stream = readiness health; catalogs = catalog_statuses catalog;
          catalogs_ready = list_all (\<lambda>c. pcs_last_success_at_ms c \<noteq> None) (filter pcs_enabled catalogs);
          ready = (rd_ready stream \<and> catalogs_ready)
      in (if ready then 200 else 503,
          \<lparr>sr_ready = ready, sr_status = (if ready then ''ready'' else ''degraded''),
           sr_endpoints = rd_endpoints stream, sr_catalogs = catalogs\<rparr>))"

record provider_descriptor =
  pd_provider :: provider
  pd_enabled :: bool
  pd_markets :: "market_kind list"
  pd_channels :: "channel list"

definition api_providers :: "app_config \<Rightarrow> provider_descriptor list" where
  "api_providers cfg = map (\<lambda>p. \<lparr>pd_provider = p, pd_enabled = (p \<in> ac_enabled_providers cfg),
     pd_markets = [LinearPerpetual], pd_channels = [Ticker, Candle1m]\<rparr>) [Bybit, Binance, Okx, Kucoin, Mexc, Bingx]"

definition api_instruments :: "catalog_state \<Rightarrow> catalog_filter \<Rightarrow> instrument list" where
  "api_instruments catalog query = catalog_filtered catalog query"

definition api_catalog_status :: "catalog_state \<Rightarrow> provider_catalog_status list" where
  "api_catalog_status catalog = catalog_statuses catalog"

text \<open>The origin check of the websocket route: no \<open>Origin\<close> header, or an allowed one that is text.\<close>

definition origin_allowed :: "app_config \<Rightarrow> string option option \<Rightarrow> bool" where
  "origin_allowed cfg header = (case header of
     None \<Rightarrow> True
   | Some None \<Rightarrow> False
   | Some (Some origin) \<Rightarrow> ''*'' \<in> ac_allowed_origins cfg \<or> origin \<in> ac_allowed_origins cfg)"

text \<open>The websocket route refuses a foreign origin and otherwise upgrades with the command size as frame limit.\<close>

definition stream_route :: "app_config \<Rightarrow> string option option \<Rightarrow> (nat \<times> string) + usize" where
  "stream_route cfg header =
     (if origin_allowed cfg header then Inr (ac_max_command_bytes cfg) else Inl (403, ''websocket origin is not allowed''))"

record candle_query =
  cq_provider :: provider
  cq_symbol :: string
  cq_start_time_ms :: u64
  cq_end_time_ms :: u64
  cq_limit :: "usize option"

definition enrich_row :: "ext \<Rightarrow> decimal \<Rightarrow> history_candle \<Rightarrow> string + history_candle" where
  "enrich_row E size_value row =
     (let candle = hcd_candle row
      in if cd_base_volume candle \<noteq> None then Inr row
         else
           and_then (ok_or ''MEXC history candle is missing contract volume'' (cd_contract_volume candle)) (\<lambda>contracts.
           and_then (ok_or ''MEXC contract volume is not a decimal'' (dec_from_str E (as_str contracts))) (\<lambda>contracts.
           and_then (ok_or ''MEXC base volume overflowed'' (dec_checked_mul E contracts size_value)) (\<lambda>base_volume.
           and_then (map_err domain_error_text (new_decimal_value E (dec_to_string E (dec_normalize E base_volume)))) (\<lambda>v.
           let candle' = candle\<lparr>cd_base_volume := Some v\<rparr>
           in and_then (map_err domain_error_text (validate_candle E candle')) (\<lambda>_.
              Inr (row\<lparr>hcd_candle := candle'\<rparr>)))))))"

definition enrich_history_volumes :: "ext \<Rightarrow> history_result \<Rightarrow> instrument \<Rightarrow> string + history_result" where
  "enrich_history_volumes E result i =
     (if hres_provider result \<noteq> Mexc then Inr result
      else
        and_then (ok_or ''MEXC instrument is missing contract size'' (in_contract_size i)) (\<lambda>size_text.
        if in_contract_size_asset i \<noteq> Some (in_base_asset i)
        then Inl ''MEXC contract size is not denominated in the base asset''
        else
          and_then (ok_or ''MEXC contract size is not a decimal'' (dec_from_str E (as_str size_text))) (\<lambda>size_value.
          and_then (collect_results (enrich_row E size_value) (hres_candles result)) (\<lambda>rows.
          Inr (result\<lparr>hres_candles := rows\<rparr>)))))"

fun history_error_text :: "history_error \<Rightarrow> string" where
  "history_error_text (InvalidRequest m) = ''invalid history request: '' @ m"
| "history_error_text (ClientBuild e) = ''could not build history HTTP client: '' @ e"
| "history_error_text (Transport p e) = provider_name p @ '' history transport error: '' @ e"
| "history_error_text (HttpStatus p s m) = provider_name p @ '' history endpoint returned HTTP '' @ show_nat s @ '': '' @ m"
| "history_error_text (ProviderRejected p c m) = provider_name p @ '' rejected history request with code '' @ c @ '': '' @ m"
| "history_error_text (InvalidHistory p m) = ''invalid '' @ provider_name p @ '' history payload: '' @ m"
| "history_error_text (PaginationStalled p c) = provider_name p @ '' history pagination did not advance from '' @ show_nat (unat c)"

definition count_history :: "provider \<Rightarrow> bool \<Rightarrow> metrics \<Rightarrow> metrics" where
  "count_history p failed m =
     (let m' = m\<lparr>mx_history_requests := inc (mx_history_requests m) (new_provider_labels p)\<rparr>
      in if failed then m'\<lparr>mx_history_failures := inc (mx_history_failures m') (new_provider_labels p)\<rparr> else m')"

text \<open>\<open>free_slots\<close> is the number of history permits free when the request arrives.\<close>

definition candles ::
  "app_config \<Rightarrow> 'h history_client \<Rightarrow> nat \<Rightarrow> candle_query \<Rightarrow> 'ch app_state \<Rightarrow> 'h \<Rightarrow>
     'h \<times> 'ch app_state \<times> (api_error_body + history_result)" where
  "candles cfg client free_slots query a h =
     (let E = ac_ext cfg; p = cq_provider query;
          unavailable = api_error 502 ''provider_unavailable'' (provider_name p @ '' history request failed'')
      in case new_sub_key E p LinearPerpetual (cq_symbol query) Candle1m of
         Inl e \<Rightarrow> (h, a, Inl (api_error 400 ''invalid_request'' (domain_error_text e)))
       | Inr key \<Rightarrow>
         (case validate_subscription E (ac_sources cfg) (ap_catalog a) key of
            Inl e \<Rightarrow> (h, a, Inl (api_error 422 ''unsupported_instrument'' (show_catalog_error e)))
          | Inr i \<Rightarrow>
            (case new_history_request E p (key_symbol key) (cq_start_time_ms query) (cq_end_time_ms query)
                (case cq_limit query of Some l \<Rightarrow> l | None \<Rightarrow> 1000) of
               Inl e \<Rightarrow> (h, a, Inl (api_error 400 ''invalid_request'' (history_error_text e)))
             | Inr rq \<Rightarrow>
               if free_slots = 0
               then (h, a, Inl (api_error 429 ''history_busy'' ''too many concurrent history requests''))
               else (case fetch client rq h of
                   (h', Inr result) \<Rightarrow>
                     (case enrich_history_volumes E result i of
                        Inl _ \<Rightarrow> (h', a\<lparr>ap_metrics := count_history p True (ap_metrics a)\<rparr>, Inl unavailable)
                      | Inr enriched \<Rightarrow> (h', a\<lparr>ap_metrics := count_history p False (ap_metrics a)\<rparr>, Inr enriched))
                 | (h', Inl (InvalidRequest m)) \<Rightarrow>
                     (h', a\<lparr>ap_metrics := count_history p True (ap_metrics a)\<rparr>, Inl (api_error 400 ''invalid_request'' m))
                 | (h', Inl _) \<Rightarrow>
                     (h', a\<lparr>ap_metrics := count_history p True (ap_metrics a)\<rparr>, Inl unavailable)))))"

section \<open>Lemmas\<close>

lemma take_chars_bound: "length (chars (take_chars n t)) \<le> n"
proof -
  have "wf_chars (take n (chars t))"
    using wf_chars_chars [of t] by (cases n; cases "chars t") (auto simp: wf_chars_def list_all_iff dest: in_set_takeD)
  then show ?thesis by (simp add: take_chars_def chars_concat_wf)
qed

lemma api_error_simps [simp]:
  "ae_status (api_error status code m) = status" "ae_code (api_error status code m) = code"
  "length (chars (ae_message (api_error status code m))) \<le> 500"
  by (simp_all add: api_error_def take_chars_bound)

text \<open>
  What the MEXC conversion does to one candle: the base volume is the decimal of contracts times
  contract size, printed in normal form; everything else, and a candle that has a base volume, stays.
\<close>

definition converted :: "ext \<Rightarrow> instrument \<Rightarrow> history_candle \<Rightarrow> history_candle \<Rightarrow> bool" where
  "converted E i row row' \<longleftrightarrow>
     (if cd_base_volume (hcd_candle row) \<noteq> None then row' = row
      else \<exists>contracts size_text x y z. cd_contract_volume (hcd_candle row) = Some contracts \<and>
        in_contract_size i = Some size_text \<and> dec_from_str E (as_str contracts) = Some x \<and>
        dec_from_str E (as_str size_text) = Some y \<and> dec_checked_mul E x y = Some z \<and>
        row' = row\<lparr>hcd_candle := (hcd_candle row)\<lparr>cd_base_volume :=
          Some (DecimalValue (dec_to_string E (dec_normalize E z)))\<rparr>\<rparr>)"

lemma enrich_row_converted:
  assumes "enrich_row E y row = Inr row'" and "in_contract_size i = Some size_text"
    and "dec_from_str E (as_str size_text) = Some y" and "sound_candle E (hcd_candle row)"
  shows "converted E i row row' \<and> sound_candle E (hcd_candle row') \<and> cd_base_volume (hcd_candle row') \<noteq> None"
  using assms
  by (auto simp: enrich_row_def converted_def and_then_Inr map_err_Inr ok_or_Inr new_decimal_value_def
      validate_candle_sound Let_def split: if_split_asm option.split_asm)

lemma enrich_rows_converted:
  assumes "in_contract_size i = Some size_text" and "dec_from_str E (as_str size_text) = Some y"
  shows "collect_results (enrich_row E y) rows = Inr rows' \<Longrightarrow> list_all (\<lambda>x. sound_candle E (hcd_candle x)) rows \<Longrightarrow>
    list_all2 (converted E i) rows rows' \<and>
    list_all (\<lambda>x. sound_candle E (hcd_candle x) \<and> cd_base_volume (hcd_candle x) \<noteq> None) rows'"
  by (induction rows arbitrary: rows')
    (auto split: sum.splits dest!: enrich_row_converted [OF _ assms])

lemma converted_times:
  "converted E i row row' \<Longrightarrow> cd_start_time_ms (hcd_candle row') = cd_start_time_ms (hcd_candle row) \<and>
     cd_end_time_ms (hcd_candle row') = cd_end_time_ms (hcd_candle row) \<and> hcd_provider row' = hcd_provider row \<and>
     hcd_symbol row' = hcd_symbol row"
  by (auto simp: converted_def split: if_splits)

lemma map_converted:
  "list_all2 (converted E i) rows rows' \<Longrightarrow>
     map (\<lambda>x. cd_start_time_ms (hcd_candle x)) rows' = map (\<lambda>x. cd_start_time_ms (hcd_candle x)) rows"
  by (induction rule: list_all2_induct) (auto dest: converted_times)

text \<open>What a result of the endpoint satisfies, and how it comes from the fetched one.\<close>

definition served_rows :: "ext \<Rightarrow> candle_query \<Rightarrow> usize \<Rightarrow> history_candle list \<Rightarrow> bool" where
  "served_rows E query limit rows \<longleftrightarrow>
     length rows \<le> limit \<and> sorted_wrt (<) (map (\<lambda>x. cd_start_time_ms (hcd_candle x)) rows) \<and>
     list_all (\<lambda>x. hcd_provider x = cq_provider query \<and>
       cq_start_time_ms query \<le> cd_start_time_ms (hcd_candle x) \<and> cd_end_time_ms (hcd_candle x) \<le> cq_end_time_ms query \<and>
       sound_candle E (hcd_candle x)) rows"

lemma converted_served:
  assumes "list_all2 (converted E i) rows rows'" and "served_rows E query limit rows"
    and "list_all (\<lambda>x. sound_candle E (hcd_candle x)) rows'"
  shows "served_rows E query limit rows'"
proof -
  have "list_all (\<lambda>x. hcd_provider x = cq_provider query \<and>
      cq_start_time_ms query \<le> cd_start_time_ms (hcd_candle x) \<and> cd_end_time_ms (hcd_candle x) \<le> cq_end_time_ms query) rows'"
    using assms(1) assms(2) [unfolded served_rows_def, THEN conjunct2, THEN conjunct2]
    by (induction rule: list_all2_induct) (auto dest!: converted_times)
  then show ?thesis
    using assms(2,3) map_converted [OF assms(1)] list_all2_lengthD [OF assms(1)]
    by (simp add: served_rows_def list_all_iff)
qed

lemma fetch_served:
  assumes "fetch client rq h = (h', Inr fetched)" and "hr_provider rq = cq_provider query"
    and "hr_start_time_ms rq = cq_start_time_ms query" and "hr_end_time_ms rq = cq_end_time_ms query"
  shows "hres_provider fetched = cq_provider query \<and> served_rows (hc_ext client) query (hr_limit rq) (hres_candles fetched)"
  using fetch_result_sound [OF assms(1)] assms(2-4) by (auto simp: served_rows_def list_all_iff)

lemma enrich_served:
  assumes "enrich_history_volumes E fetched i = Inr res" and "served_rows E query limit (hres_candles fetched)"
  shows "hres_provider res = hres_provider fetched \<and> served_rows E query limit (hres_candles res) \<and>
    (if hres_provider fetched = Mexc then list_all2 (converted E i) (hres_candles fetched) (hres_candles res) \<and>
       list_all (\<lambda>x. cd_base_volume (hcd_candle x) \<noteq> None) (hres_candles res)
     else res = fetched)"
proof (cases "hres_provider fetched = Mexc")
  case True
  with assms(1) obtain size_text y rows where r: "in_contract_size i = Some size_text"
    "dec_from_str E (as_str size_text) = Some y" "collect_results (enrich_row E y) (hres_candles fetched) = Inr rows"
    "res = fetched\<lparr>hres_candles := rows\<rparr>"
    by (auto simp: enrich_history_volumes_def and_then_Inr ok_or_Inr split: if_split_asm)
  have "list_all (\<lambda>x. sound_candle E (hcd_candle x)) (hres_candles fetched)"
    using assms(2) by (simp add: served_rows_def list_all_iff)
  note rows = enrich_rows_converted [OF r(1,2,3) this]
  then have "served_rows E query limit rows"
    by (intro converted_served [OF _ assms(2), of i]) (simp_all add: list_all_iff)
  with rows r(4) True show ?thesis by (simp add: list_all_iff)
next
  case False
  with assms show ?thesis by (simp add: enrich_history_volumes_def)
qed

text \<open>The endpoint either refuses a query on the spot or answers with what it made of one fetch.\<close>

definition candles_reply ::
  "ext \<Rightarrow> provider \<Rightarrow> instrument \<Rightarrow> history_error + history_result \<Rightarrow> api_error_body + history_result" where
  "candles_reply E p i r = (case r of
     Inl (InvalidRequest m) \<Rightarrow> Inl (api_error 400 ''invalid_request'' m)
   | Inl _ \<Rightarrow> Inl (api_error 502 ''provider_unavailable'' (provider_name p @ '' history request failed''))
   | Inr fetched \<Rightarrow> map_err (\<lambda>_. api_error 502 ''provider_unavailable'' (provider_name p @ '' history request failed''))
       (enrich_history_volumes E fetched i))"

lemma candles_cases:
  obtains (refused) e where "candles cfg client free_slots query a h = (h, a, Inl e)"
      "length (chars (ae_message e)) \<le> 500" "(ae_status e, ae_code e) \<in>
         {(400, ''invalid_request''), (422, ''unsupported_instrument''), (429, ''history_busy'')}"
  | (asked) rq i h' r where "0 < free_slots" "hr_provider rq = cq_provider query"
      "hr_start_time_ms rq = cq_start_time_ms query" "hr_end_time_ms rq = cq_end_time_ms query"
      "hr_limit rq = (case cq_limit query of Some l \<Rightarrow> l | None \<Rightarrow> 1000)" "fetch client rq h = (h', r)"
      "candles cfg client free_slots query a h =
         (h', a\<lparr>ap_metrics := count_history (cq_provider query)
            (\<exists>e. candles_reply (ac_ext cfg) (cq_provider query) i r = Inl e) (ap_metrics a)\<rparr>,
          candles_reply (ac_ext cfg) (cq_provider query) i r)"
proof -
  let ?E = "ac_ext cfg" and ?p = "cq_provider query"
  let ?limit = "case cq_limit query of Some l \<Rightarrow> l | None \<Rightarrow> 1000"
  let ?new = "new_history_request ?E ?p"
  consider (key) e where "new_sub_key ?E ?p LinearPerpetual (cq_symbol query) Candle1m = Inl e"
    | (instr) key e where "new_sub_key ?E ?p LinearPerpetual (cq_symbol query) Candle1m = Inr key"
        "validate_subscription ?E (ac_sources cfg) (ap_catalog a) key = Inl e"
    | (range) key i e where "new_sub_key ?E ?p LinearPerpetual (cq_symbol query) Candle1m = Inr key"
        "validate_subscription ?E (ac_sources cfg) (ap_catalog a) key = Inr i"
        "?new (key_symbol key) (cq_start_time_ms query) (cq_end_time_ms query) ?limit = Inl e"
    | (ok) key i rq where "new_sub_key ?E ?p LinearPerpetual (cq_symbol query) Candle1m = Inr key"
        "validate_subscription ?E (ac_sources cfg) (ap_catalog a) key = Inr i"
        "?new (key_symbol key) (cq_start_time_ms query) (cq_end_time_ms query) ?limit = Inr rq"
    by (metis sumE)
  then show thesis
  proof cases
    case ok
    obtain h' r where f: "fetch client rq h = (h', r)" by fastforce
    show thesis
    proof (cases "free_slots = 0")
      case True
      with ok show thesis
        by (intro refused [of "api_error 429 ''history_busy'' ''too many concurrent history requests''"])
          (simp_all add: candles_def Let_def)
    next
      case False
      have "candles cfg client free_slots query a h =
         (h', a\<lparr>ap_metrics := count_history ?p (\<exists>e. candles_reply ?E ?p i r = Inl e) (ap_metrics a)\<rparr>, candles_reply ?E ?p i r)"
        using ok f False
        by (simp add: candles_def Let_def candles_reply_def map_err_def split: sum.split history_error.split)
      with ok(3) f False show thesis by (intro asked [of rq h' r i]) (auto simp: new_history_request_Inr)
    qed
  qed (auto intro!: refused simp: candles_def Let_def)
qed

section \<open>Properties\<close>

text \<open>
  (C38) The candle endpoint answers every query and accounts for it. A success carries at most the
  asked number of sound candles of the asked provider, in strictly ascending order and in the asked
  range; for MEXC every candle has a base volume, computed as contracts times contract size where the
  venue gave none. A refusal before the venue is asked (bad query 400, unlisted instrument 422, no
  free slot 429) touches nothing; a failure after that is a 400 or 502 and is counted as one request
  and one failure. No error message exceeds 500 characters.
\<close>

theorem candles_answered:
  assumes "hc_ext client = ac_ext cfg"
  shows "case candles cfg client free_slots query a h of
      (h', a', Inr res) \<Rightarrow>
        hres_provider res = cq_provider query \<and>
        served_rows (ac_ext cfg) query (case cq_limit query of Some l \<Rightarrow> l | None \<Rightarrow> 1000) (hres_candles res) \<and>
        (cq_provider query = Mexc \<longrightarrow> list_all (\<lambda>x. cd_base_volume (hcd_candle x) \<noteq> None) (hres_candles res) \<and>
          (\<exists>rq i fetched. fetch client rq h = (h', Inr fetched) \<and>
            list_all2 (converted (ac_ext cfg) i) (hres_candles fetched) (hres_candles res))) \<and>
        a' = a\<lparr>ap_metrics := count_history (cq_provider query) False (ap_metrics a)\<rparr> \<and> 0 < free_slots
    | (h', a', Inl e) \<Rightarrow>
        length (chars (ae_message e)) \<le> 500 \<and>
        (h' = h \<and> a' = a \<and> (ae_status e, ae_code e) \<in>
           {(400, ''invalid_request''), (422, ''unsupported_instrument''), (429, ''history_busy'')} \<or>
         a' = a\<lparr>ap_metrics := count_history (cq_provider query) True (ap_metrics a)\<rparr> \<and>
           (ae_status e, ae_code e) \<in> {(400, ''invalid_request''), (502, ''provider_unavailable'')})"
proof (rule candles_cases [of cfg client free_slots query a h], goal_cases)
  case (1 e)
  then show ?thesis by auto
next
  case asked: (2 rq i h' r)
  let ?E = "ac_ext cfg" and ?p = "cq_provider query"
  show ?thesis
  proof (cases "candles_reply ?E ?p i r")
    case (Inl e)
    then have "length (chars (ae_message e)) \<le> 500 \<and>
        (ae_status e, ae_code e) \<in> {(400, ''invalid_request''), (502, ''provider_unavailable'')}"
      by (auto simp: candles_reply_def map_err_Inl split: sum.splits history_error.splits)
    with asked(7) Inl show ?thesis by simp
  next
    case (Inr res)
    then obtain fetched where r: "r = Inr fetched" and en: "enrich_history_volumes ?E fetched i = Inr res"
      by (auto simp: candles_reply_def map_err_Inr split: sum.splits history_error.splits)
    note sv = fetch_served [OF asked(6) [unfolded r] asked(2,3,4), unfolded assms asked(5)]
    note es = enrich_served [OF en sv [THEN conjunct2]]
    have "a\<lparr>ap_metrics := count_history ?p (\<exists>e. candles_reply ?E ?p i r = Inl e) (ap_metrics a)\<rparr> =
        a\<lparr>ap_metrics := count_history ?p False (ap_metrics a)\<rparr>" using Inr by simp
    moreover have "cq_provider query = Mexc \<longrightarrow> list_all (\<lambda>x. cd_base_volume (hcd_candle x) \<noteq> None) (hres_candles res) \<and>
        (\<exists>rq i fetched. fetch client rq h = (h', Inr fetched) \<and>
          list_all2 (converted ?E i) (hres_candles fetched) (hres_candles res))"
      using es sv asked(6) r by (metis (mono_tags, lifting))
    ultimately show ?thesis using asked(1,7) Inr sv es by simp
  qed
qed

subsection \<open>Witness\<close>

text \<open>A catalog that lists one KuCoin contract, asked for the one candle the sample venue holds.\<close>

definition sample_history_app :: "(nat \<times> market_event list) app_state" where
  "sample_history_app = sample_app\<lparr>ap_catalog := fst (commit_refresh Kucoin 1 2
     (Inr [(''XBTUSDTM'', new_instrument Kucoin ''XBTUSDTM'' ''XBT'' ''USDT'' ''USDT'' ''Open'' (DecimalValue ''1'') (DecimalValue ''1''))])
     (new_catalog default_catalog_sources))\<rparr>"

definition sample_query :: candle_query where
  "sample_query = \<lparr>cq_provider = Kucoin, cq_symbol = ''XBTUSDTM'', cq_start_time_ms = 60000, cq_end_time_ms = 120000, cq_limit = Some 10\<rparr>"

lemma sample_candles:
  "\<exists>h' a' res. candles sample_config sample_client 1 sample_query sample_history_app 0 = (h', a', Inr res)"
proof -
  let ?i = "new_instrument Kucoin ''XBTUSDTM'' ''XBT'' ''USDT'' ''USDT'' ''Open'' (DecimalValue ''1'') (DecimalValue ''1'')"
  have n: "normalize_symbol sample_lib ''XBTUSDTM'' = Inr ''XBTUSDTM''"
    by (simp add: normalize_symbol_def Let_def sample_text)
  have "trim ''XBTUSDTM'' = ''XBTUSDTM''" by (simp add: sample_text)
  then have "catalog_get sample_lib (ap_catalog sample_history_app) Kucoin LinearPerpetual ''XBTUSDTM'' = Some ?i"
    by (simp add: catalog_get_def sample_history_app_def commit_refresh_def new_catalog_def)
  then have v: "validate_subscription sample_lib default_catalog_sources (ap_catalog sample_history_app)
      (SubscriptionKey Kucoin LinearPerpetual ''XBTUSDTM'' Candle1m) = Inr ?i"
    by (simp add: validate_subscription_def default_catalog_sources_def is_enabled_def new_instrument_def capabilities_def)
  show ?thesis
    using n v sample_request_ok sample_fetch
    by (auto simp: candles_def Let_def sample_query_def sample_config_def new_sub_key_def enrich_history_volumes_def)
qed

theorem candles_answered_witness:
  "\<exists>h' a' res. candles sample_config sample_client 1 sample_query sample_history_app 0 = (h', a', Inr res) \<and>
     served_rows sample_lib sample_query 10 (hres_candles res)"
proof -
  obtain h' a' res where "candles sample_config sample_client 1 sample_query sample_history_app 0 = (h', a', Inr res)"
    using sample_candles by blast
  with candles_answered [where client = sample_client and cfg = sample_config and free_slots = 1 and
      query = sample_query and a = sample_history_app and h = 0] show ?thesis
    by (auto simp: sample_config_def sample_client_def sample_query_def)
qed

end
