(* ===== verification/Wiring.thy ===== *)
theory Wiring
  imports Config Bybit Binance Okx Kucoin Mexc Bingx Http
begin

text \<open>
  The wiring of the process (\<^verbatim>\<open>src/src/main.rs\<close>): which adapters a configuration starts, the
  subscription limits they give the registry, the catalog and history endpoints, the metrics of a
  catalog refresh, and the monitor that turns the end of any background task into a shutdown.
  Joining a path to a root URL is the URL library's \<open>join\<close>.
\<close>

section \<open>Adapters and limits\<close>

text \<open>A configured adapter with the URLs it was built from.\<close>

datatype configured_adapter =
    BybitAt url
  | BinanceAt url
  | OkxAt url url
  | KucoinAt url
  | MexcAt url
  | BingxAt url

definition configured_adapters :: "settings \<Rightarrow> provider set \<Rightarrow> configured_adapter list" where
  "configured_adapters st enabled =
     (if Bybit \<in> enabled then [BybitAt (st_bybit_ws_url st)] else []) @
     (if Binance \<in> enabled then [BinanceAt (st_binance_ws_url st)] else []) @
     (if Okx \<in> enabled then [OkxAt (st_okx_public_ws_url st) (st_okx_business_ws_url st)] else []) @
     (if Kucoin \<in> enabled then [KucoinAt (st_kucoin_futures_rest_url st)] else []) @
     (if Mexc \<in> enabled then [MexcAt (st_mexc_ws_url st)] else []) @
     (if Bingx \<in> enabled then [BingxAt (st_bingx_ws_url st)] else [])"

text \<open>\<open>provider\<close> and \<open>max_subscriptions\<close> of the adapter behind it.\<close>

fun declared :: "ext \<Rightarrow> json_lib \<Rightarrow> configured_adapter \<Rightarrow> provider \<times> usize" where
  "declared E J (BybitAt u) = (ad_provider (bybit_adapter E J), ad_max_subscriptions (bybit_adapter E J))"
| "declared E J (BinanceAt u) = (ad_provider (binance_adapter E J), ad_max_subscriptions (binance_adapter E J))"
| "declared E J (OkxAt u v) = (ad_provider (okx_adapter E J), ad_max_subscriptions (okx_adapter E J))"
| "declared E J (KucoinAt u) = (ad_provider (kucoin_adapter E J), ad_max_subscriptions (kucoin_adapter E J))"
| "declared E J (MexcAt u) = (ad_provider (mexc_adapter E J), ad_max_subscriptions (mexc_adapter E J))"
| "declared E J (BingxAt u) = (ad_provider (bingx_adapter E J), ad_max_subscriptions (bingx_adapter E J))"

definition provider_limits_of :: "(provider \<times> usize) list \<Rightarrow> usize option \<Rightarrow> provider_limits" where
  "provider_limits_of adapters override_ceiling =
     (let limits = new_limits (foldl (\<lambda>m (p, n). m(p \<mapsto> n)) Map.empty adapters) DEFAULT_MAX_PROVIDER_SUBSCRIPTIONS
      in case override_ceiling of Some cap \<Rightarrow> capped_at limits cap | None \<Rightarrow> limits)"

section \<open>Endpoints\<close>

definition provider_endpoint :: "(url \<Rightarrow> string \<Rightarrow> string option) \<Rightarrow> url \<Rightarrow> string \<Rightarrow> provider \<Rightarrow> string + rest_url" where
  "provider_endpoint join u path p = (case join u path of
     Some endpoint \<Rightarrow> Inr (endpoint, [])
   | None \<Rightarrow> Inl (''build '' @ provider_name p @ '' REST endpoint from '' @ url_text u))"

definition configured_catalog_sources ::
  "(url \<Rightarrow> string \<Rightarrow> string option) \<Rightarrow> settings \<Rightarrow> provider set \<Rightarrow> string + catalog_sources" where
  "configured_catalog_sources join st enabled =
     and_then (provider_endpoint join (st_bybit_rest_url st) ''v5/market/instruments-info'' Bybit) (\<lambda>by.
     and_then (provider_endpoint join (st_binance_futures_rest_url st) ''fapi/v1/exchangeInfo'' Binance) (\<lambda>bn.
     and_then (provider_endpoint join (st_okx_rest_url st) ''api/v5/public/instruments'' Okx) (\<lambda>ok.
     and_then (provider_endpoint join (st_kucoin_futures_rest_url st) ''api/v1/contracts/active'' Kucoin) (\<lambda>ku.
     and_then (provider_endpoint join (st_mexc_futures_rest_url st) ''api/v1/contract/detail/country'' Mexc) (\<lambda>mx.
     and_then (provider_endpoint join (st_bingx_swap_rest_url st) ''openApi/swap/v2/quote/contracts'' Bingx) (\<lambda>bx.
     Inr \<lparr>cs_bybit = by, cs_binance = bn, cs_okx = ok, cs_kucoin = ku, cs_mexc = mx, cs_bingx = bx,
          cs_enabled_providers = enabled\<rparr>))))))"

definition configured_history_sources :: "settings \<Rightarrow> history_sources" where
  "configured_history_sources st =
     \<lparr>hs_bybit = url_text (st_bybit_rest_url st), hs_binance = url_text (st_binance_futures_rest_url st),
      hs_okx = url_text (st_okx_rest_url st), hs_kucoin = url_text (st_kucoin_futures_rest_url st),
      hs_mexc = url_text (st_mexc_futures_rest_url st), hs_bingx = url_text (st_bingx_swap_rest_url st)\<rparr>"

section \<open>Start\<close>

text \<open>The shared state \<open>main\<close> builds; \<open>None\<close> where the hub constructor would panic.\<close>

definition start_state ::
  "ext \<Rightarrow> json_lib \<Rightarrow> settings \<Rightarrow> catalog_sources \<Rightarrow> uuid \<Rightarrow> 'ch app_state option" where
  "start_state E J st sources epoch =
     map_option (\<lambda>hub. \<lparr>ap_hub = hub,
       ap_registry = with_provider_limits (st_max_client_subscriptions st)
         (provider_limits_of (map (declared E J) (configured_adapters st (enabled_providers st)))
           (st_max_provider_subscriptions st)),
       ap_metrics = new_metrics, ap_catalog = new_catalog sources\<rparr>)
     (with_client_limit epoch (st_downstream_buffer st) (st_max_downstream_clients st))"

section \<open>Catalog refresh reports\<close>

definition i64_of_usize :: "usize \<Rightarrow> 64 word" where
  "i64_of_usize n = of_nat (min n (2 ^ 63 - 1))"

definition report_one :: "provider \<times> (catalog_error + refresh_outcome) \<Rightarrow> metrics \<Rightarrow> metrics" where
  "report_one r m =
     (let labels = new_provider_labels (fst r)
      in case snd r of
        Inr outcome \<Rightarrow>
          m\<lparr>mx_catalog_refresh_successes := inc (mx_catalog_refresh_successes m) labels,
            mx_catalog_instruments := (mx_catalog_instruments m)(labels := i64_of_usize (ro_instrument_count outcome))\<rparr>
      | Inl _ \<Rightarrow> m\<lparr>mx_catalog_refresh_failures := inc (mx_catalog_refresh_failures m) labels\<rparr>)"

definition report_catalog_refresh :: "(provider \<times> (catalog_error + refresh_outcome)) list \<Rightarrow> metrics \<Rightarrow> metrics" where
  "report_catalog_refresh results m = fold report_one results m"

section \<open>Background tasks\<close>

text \<open>
  What the monitor waits for: a task that ended (cleanly or not), the shutdown, or the end of the
  grace period. The result says whether it requested the shutdown itself, how many tasks it still
  waits for when the events run out, and how many it aborted.
\<close>

datatype monitor_event = TaskEnded bool | ShutdownCancelled | GraceOver

record monitor_result =
  mr_requested :: bool
  mr_running :: nat
  mr_aborted :: nat

fun drain_tasks :: "bool \<Rightarrow> nat \<Rightarrow> monitor_event list \<Rightarrow> monitor_result" where
  "drain_tasks b 0 es = \<lparr>mr_requested = b, mr_running = 0, mr_aborted = 0\<rparr>"
| "drain_tasks b (Suc n) [] = \<lparr>mr_requested = b, mr_running = Suc n, mr_aborted = 0\<rparr>"
| "drain_tasks b (Suc n) (TaskEnded ok # es) = drain_tasks b n es"
| "drain_tasks b (Suc n) (GraceOver # es) = \<lparr>mr_requested = b, mr_running = 0, mr_aborted = Suc n\<rparr>"
| "drain_tasks b (Suc n) (ShutdownCancelled # es) = drain_tasks b (Suc n) es"

fun monitor_background_tasks :: "nat \<Rightarrow> monitor_event list \<Rightarrow> monitor_result" where
  "monitor_background_tasks 0 es = \<lparr>mr_requested = False, mr_running = 0, mr_aborted = 0\<rparr>"
| "monitor_background_tasks (Suc n) [] = \<lparr>mr_requested = False, mr_running = Suc n, mr_aborted = 0\<rparr>"
| "monitor_background_tasks (Suc n) (TaskEnded ok # es) = drain_tasks True n es"
| "monitor_background_tasks (Suc n) (ShutdownCancelled # es) = drain_tasks False (Suc n) es"
| "monitor_background_tasks (Suc n) (GraceOver # es) = monitor_background_tasks (Suc n) es"

section \<open>Readiness probe\<close>

text \<open>
  The container's health check (\<^verbatim>\<open>src/src/bin/market-stream-healthcheck.rs\<close>): the exit status from the
  outcome of its request to the readiness route.
\<close>

definition healthcheck_exit :: "string + nat \<Rightarrow> nat" where
  "healthcheck_exit result = (case result of
     Inr status \<Rightarrow> if is_success status then 0 else 1
   | Inl _ \<Rightarrow> 1)"

section \<open>Lemmas\<close>

text \<open>The probe passes exactly when the gateway reports itself ready.\<close>

lemma healthcheck_ready:
  "healthcheck_exit (Inr (fst (api_readiness health catalog))) = 0 \<longleftrightarrow> sr_ready (snd (api_readiness health catalog))"
  by (simp add: healthcheck_exit_def api_readiness_def is_success_def Let_def)

lemma all_six: "UNIV = {Bybit, Binance, Okx, Kucoin, Mexc, Bingx}"
  using provider.exhaust by blast

text \<open>What each adapter declares, by provider.\<close>

fun venue_ceiling :: "provider \<Rightarrow> usize" where
  "venue_ceiling Bybit = 1000"
| "venue_ceiling Binance = BINANCE_MAX_STREAMS_PER_COMMAND"
| "venue_ceiling Okx = 1000"
| "venue_ceiling Kucoin = KUCOIN_TOPICS_PER_COMMAND"
| "venue_ceiling Mexc = 1000"
| "venue_ceiling Bingx = 200"

lemma declared_ceiling:
  "declared E J c = (fst (declared E J c), venue_ceiling (fst (declared E J c)))"
  by (cases c)
    (simp_all add: bybit_adapter_def binance_adapter_def okx_adapter_def kucoin_adapter_def mexc_adapter_def
      bingx_adapter_def DEFAULT_MAX_PROVIDER_SUBSCRIPTIONS_def BINGX_MAX_TOPICS_PER_CONNECTION_def)

lemma configured_providers:
  "distinct (map (\<lambda>c. fst (declared E J c)) (configured_adapters st enabled)) \<and>
   set (map (\<lambda>c. fst (declared E J c)) (configured_adapters st enabled)) = enabled"
proof -
  let ?six = "[Bybit, Binance, Okx, Kucoin, Mexc, Bingx]"
  have "map (\<lambda>c. fst (declared E J c)) (configured_adapters st enabled) = filter (\<lambda>p. p \<in> enabled) ?six"
    by (simp add: configured_adapters_def bybit_adapter_def binance_adapter_def okx_adapter_def kucoin_adapter_def
        mexc_adapter_def bingx_adapter_def)
  moreover have "set ?six = UNIV" by (simp only: list.set all_six)
  then have "set (filter (\<lambda>p. p \<in> enabled) ?six) = enabled" unfolding set_filter by blast
  moreover have "distinct (filter (\<lambda>p. p \<in> enabled) ?six)" by (rule distinct_filter) simp
  ultimately show ?thesis by metis
qed

lemma foldl_limits:
  "foldl (\<lambda>m (p, n). m(p \<mapsto> n)) m0 (map (\<lambda>c. (f c, g (f c))) cs) p =
     (if p \<in> f ` set cs then Some (g p) else m0 p)"
  by (induction cs arbitrary: m0) auto

lemma declared_limits:
  "foldl (\<lambda>m (p, n). m(p \<mapsto> n)) Map.empty (map (declared E J) (configured_adapters st enabled)) =
     (\<lambda>p. if p \<in> enabled then Some (venue_ceiling p) else None)"
proof
  fix p
  let ?cs = "configured_adapters st enabled" and ?f = "\<lambda>c. fst (declared E J c)"
  have "map (declared E J) ?cs = map (\<lambda>c. (?f c, venue_ceiling (?f c))) ?cs"
    by (rule map_cong [OF refl declared_ceiling])
  moreover have "?f ` set ?cs = enabled" using configured_providers [of E J st enabled] by simp
  ultimately show "foldl (\<lambda>m (p, n). m(p \<mapsto> n)) Map.empty (map (declared E J) ?cs) p =
      (if p \<in> enabled then Some (venue_ceiling p) else None)"
    using foldl_limits [of Map.empty ?f venue_ceiling ?cs p] by presburger
qed

text \<open>
  The limits a validated configuration gives the registry: the venue's own ceiling, tightened by the
  operator's where one is set.
\<close>

definition effective_ceiling :: "settings \<Rightarrow> provider \<Rightarrow> usize" where
  "effective_ceiling st p = (case st_max_provider_subscriptions st of
     None \<Rightarrow> venue_ceiling p | Some cap \<Rightarrow> min (venue_ceiling p) cap)"

lemma configured_limit:
  assumes "p \<in> enabled"
  shows "pl_limits (provider_limits_of (map (declared E J) (configured_adapters st enabled)) (st_max_provider_subscriptions st)) p =
    Some (effective_ceiling st p)"
  using assms
  by (simp add: provider_limits_of_def declared_limits new_limits_def capped_at_def effective_ceiling_def split: option.split)

lemma drain_requested: "mr_requested (drain_tasks b n es) = b"
  by (induction b n es rule: drain_tasks.induct) simp_all

lemma drain_accounts:
  "GraceOver \<in> set es \<Longrightarrow> mr_running (drain_tasks b n es) = 0"
  by (induction b n es rule: drain_tasks.induct) simp_all

text \<open>
  A background task never dies unnoticed: the end of the first task, whether it returned or
  panicked, makes the monitor request the shutdown of the whole gateway, and once the grace period is
  over no task is left running: it has ended or was aborted.
\<close>

lemma task_end_stops_gateway:
  "mr_requested (monitor_background_tasks (Suc n) (TaskEnded ok # es)) \<and>
   (GraceOver \<in> set es \<longrightarrow> mr_running (monitor_background_tasks (Suc n) (TaskEnded ok # es)) = 0)"
  by (simp add: drain_requested drain_accounts)

text \<open>
  One connection of an adapter, whatever it receives: its demand never exceeds \<open>D\<close> keys, and the
  identifiers it may use fit the counter.
\<close>

definition connection_ids_sound :: "'s adapter \<Rightarrow> 'ch itself \<Rightarrow> bool" where
  "connection_ids_sound A ch \<longleftrightarrow> (\<forall>env it desired D (w :: ('s, 'ch) world).
     env_adapter env = A \<longrightarrow> finite desired \<longrightarrow> card desired \<le> D \<longrightarrow>
     (\<forall>io snapshot. (io, DesiredChanged (Some snapshot)) \<in> set (it_turns it) \<longrightarrow> finite snapshot \<and> card snapshot \<le> D) \<longrightarrow>
     (length (it_turns it) + 1) * (6 * D + 1) < 2 ^ 64 - 1 \<longrightarrow>
     (case run_connection env it desired w of
        (w', Inl s) \<Rightarrow> \<not> id_failure s
      | (w', Inr _) \<Rightarrow> \<forall>t now. frame_stamped (it_epoch it) (ad_provider A) now (snd (as_parse A (w_session w') t now))))"

section \<open>Properties\<close>

text \<open>
  (C16) In a connection of any of the six venues, request identifiers do their job: as long as the
  identifiers of the run fit 64 bits (about \<open>10^15\<close> changes of a demand of 1,000 keys), the connection
  never fails because a command has an empty or repeated identifier, and every event of the frames
  it parses carries the connection's epoch, the venue and the time of reception.
\<close>

theorem venue_request_ids_sound:
  "connection_ids_sound (bybit_adapter E J) TYPE('ch) \<and> connection_ids_sound (binance_adapter E J) TYPE('ch) \<and>
   connection_ids_sound (okx_adapter E J) TYPE('ch) \<and> connection_ids_sound (kucoin_adapter E J) TYPE('ch) \<and>
   connection_ids_sound (mexc_adapter E J) TYPE('ch) \<and> connection_ids_sound (bingx_adapter E J) TYPE('ch)"
  unfolding connection_ids_sound_def
  by (intro conjI allI impI bys.run_connection_ids bns.run_connection_ids oks.run_connection_ids
      kus.run_connection_ids mxs.run_connection_ids bxs.run_connection_ids) simp_all


subsection \<open>Witness\<close>


end
