(* ===== verification/Spec2Isabelle.thy ===== *)
theory Spec2Isabelle
  imports Wiring
begin

text \<open>
  \<^bold>\<open>The market stream gateway.\<close> The program (\<^verbatim>\<open>src/src/\<close>, Rust) connects to the public
  websocket feeds of six venues, normalizes their ticker and one-minute candle messages, numbers
  the resulting events and delivers them to downstream websocket clients according to what each
  client subscribed to. Beside the streams it keeps a catalog of instruments, answers bounded
  candle history queries over HTTP, and reports health, readiness and metrics.

  \<^bold>\<open>How the parts interact.\<close> A client's websocket session (\<open>api.rs\<close>) validates its commands
  against the instrument catalog, changes its demand in the subscription registry and its routes
  in the hub (\<open>gateway.rs\<close>). The registry publishes the set of demanded keys; per venue
  endpoint a supervisor (\<open>runtime.rs\<close>) watches it, opens a connection while there is demand,
  translates differences of the demand into venue commands through the venue's adapter
  (\<open>providers/\<close>), and reports to the health registry (\<open>health.rs\<close>). Frames go through the
  adapter's parser and the domain's validation (\<open>domain.rs\<close>) to the hub, which numbers the
  events and puts them into the bounded queues of the subscribed clients. \<open>main.rs\<close> reads the
  settings (\<open>config.rs\<close>) and starts all of this.

  \<^bold>\<open>The theories.\<close> Each opens with a description of what it holds. In the order of the imports:

  \<^item> \<open>Prelude\<close>: results (\<open>'e + 'a\<close>, \<open>Inl\<close> the error), checked and saturating arithmetic
    on \<open>u64\<close> words, finite-map and list lemmas, \<open>reachable\<close> states of a step relation and the
    locale \<open>invariant_system\<close>, which turns a start and a step obligation into an invariant of
    all reachable states. \<open>Text\<close>: strings as UTF-8 byte lists with Rust's \<open>trim\<close>, case,
    splitting, number parsing and printing.
  \<^item> \<open>Domain\<close> (\<open>domain.rs\<close>): providers, channels, subscription keys, events and the
    validators; an event is accepted exactly when it meets a declarative soundness predicate.
  \<^item> \<open>Registry\<close> (\<open>gateway.rs\<close>, \<open>SubscriptionRegistry\<close>, \<open>ProviderLimits\<close>): reference-counted
    demand. Adding, removing and cleaning up refine an abstract table from clients to key sets; in
    every reachable state the counts, the desired set, the published snapshot and the ceilings
    agree.
  \<^item> \<open>Hub\<close> (\<open>gateway.rs\<close>, \<open>GatewayHub\<close>): numbering, routing, lag. The index by key is exact,
    delivery sequences are gapless and never wrap, a client's queue is an ordered part of the log,
    and a client either receives all it subscribed to or is cut off with its lag counted.
  \<^item> \<open>Providers\<close> (\<open>providers/mod.rs\<close>): the adapter interface as a record of its methods.
    \<open>Json\<close>, \<open>Rest\<close>: JSON values, and what the REST clients use of HTTP.
    \<open>Metrics\<close> (\<open>metrics.rs\<close>), \<open>Health\<close> (\<open>health.rs\<close>): counters, and endpoint health with
    the panic of \<open>String::truncate\<close>; readiness is exactly liveness of all demanded endpoints.
  \<^item> \<open>Config\<close> (\<open>config.rs\<close>): validation of the settings and the values derived from them.
  \<^item> \<open>Commands\<close> (\<open>runtime.rs\<close>, \<open>CommandState\<close>): queued, pending and acknowledged commands;
    the acknowledgement accounting and the request identifiers.
  \<^item> \<open>Connection\<close> (\<open>runtime.rs\<close>, \<open>run_connection\<close>): one handler per branch of the select
    loop, in a state and error monad with a weakest-precondition style predicate \<open>valid\<close>. The
    loop does not panic, it reports the endpoint live exactly when all commands are acknowledged,
    and a frame publishes exactly its well-formed events.
  \<^item> \<open>Supervisor\<close> (\<open>runtime.rs\<close>, \<open>supervise_endpoint\<close>): reconnection, backoff, and the only
    way a supervisor can panic. Every demanded key is served by exactly one supervisor.
  \<^item> \<open>Sessions\<close>, \<open>Contract\<close>: what the adapters share, and the contract of an adapter
    session as the locales \<open>adapter_session\<close> and \<open>prompt_session\<close> (fresh, non-empty request
    identifiers, a command for every change, stamped events), with the connection's lemmas proved
    from it once.
  \<^item> \<open>Bybit\<close>, \<open>Binance\<close>, \<open>Okx\<close>, \<open>Kucoin\<close>, \<open>Mexc\<close>, \<open>Bingx\<close> (the files of the same
    names under \<open>providers/\<close>): commands, parsers, control messages and accumulated ticker state
    of each venue, each interpreting the contract on its own adapter.
  \<^item> \<open>History\<close> (\<open>history.rs\<close>): requests, per-venue paging and parsing, assembly of the
    result. A fetch is bounded, its successes are sound, and against a venue that answers in full
    it succeeds with exactly the earliest candles of the range.
  \<^item> \<open>Instruments\<close>, \<open>Catalog\<close> (\<open>catalog.rs\<close>): the venues' instrument lists, and the catalog
    with its refreshes, filters and lookups; \<open>keyed_store\<close> is the interface of its ordered maps.
  \<^item> \<open>Api\<close> (\<open>api.rs\<close>, \<open>protocol.rs\<close>): the websocket sessions; the locale \<open>session_backend\<close>
    states what they rely on in the registry and the hub, and the whole gateway as a transition
    system keeps sessions, demand, routes and the connection gauge in agreement.
    \<open>Http\<close> (\<open>api.rs\<close>, \<open>bin/market-stream-healthcheck.rs\<close>): the HTTP handlers and the probe.
  \<^item> \<open>Wiring\<close> (\<open>main.rs\<close>): adapters, limits and initial state from validated settings, the
    request identifiers of all six venues over whole connections, and the task monitor.
  \<^item> This theory: the path of a frame from a venue to a client's queue across the adapter, the
    connection, the hub, the registry and the session.

  \<^bold>\<open>State and effects.\<close> Structs are records and enums datatypes with the source's names (field
  names carry a short prefix); \<open>HashMap\<close> and \<open>BTreeMap\<close> are maps, or ordered association lists
  where the order is observed. A method on \<open>&mut self\<close> takes and returns the state; a critical
  section under one lock is one step, and concurrent tasks interleave as steps of an \<open>inductive\<close>
  relation. Every error return is an \<open>Inl\<close> value, and panics that can be reached are values too.
  Clock readings, the outcome of a socket write, the winning branch of a select and the order in
  which a hash map is iterated are inputs, and the theorems hold for all of them.

  \<^bold>\<open>Code outside the repository\<close> is a parameter: the decimal and Unicode functions (\<open>ext\<close>), the
  JSON reader and printer (\<open>json_lib\<close>, \<open>raw_lib\<close>), the bounded channel of tokio
  (\<open>mpsc_fifo\<close> states that it is a queue), decompression, and the HTTP client. Hypotheses about
  them are named and hold of the sample instances that the witnesses use.

  \<^bold>\<open>Bounds.\<close> No definition needs fuel beyond the program's own: the paging loops of the history
  client are cut off at 40 pages and 10 000 candles, the Bybit catalog at its own page limit, and
  the recursion follows the remaining pages. Delivery sequences and request identifiers are 64-bit
  words; where a venue's identifier counter would wrap, the theorem carries the bound on the number
  of commands as a hypothesis. Collection sizes are natural numbers, with \<open>fits_memory\<close> where a
  sum of sizes is added as a \<open>usize\<close>.

  \<^bold>\<open>Not modelled.\<close> Registration and text encoding of the Prometheus metrics, the routing table and
  query decoding of axum, code derived by serde, the argument parser, logging, signal handling and
  the TCP server in \<open>main.rs\<close>, the scheduler and timers of tokio, and the poisoning of locks other
  than by the panics above. These are calls into libraries without logic of the program; the test
  modules of the source files are not part of the model either.
\<close>

section \<open>From a venue's frame to a client's queue\<close>

text \<open>
  The events a run of publications adds to the log: numbered consecutively under the stream epoch,
  until the sequence is exhausted.
\<close>

primrec numbered :: "uuid \<Rightarrow> u64 \<Rightarrow> provider_event list \<Rightarrow> market_event list" where
  "numbered epoch n [] = []"
| "numbered epoch n (pe # pes) = (case checked_add n 1 of
     None \<Rightarrow> []
   | Some n' \<Rightarrow> into_market_event pe epoch n # numbered epoch n' pes)"

lemma publish_all_Cons:
  "publish_all try_send (pe # pes) h = publish_all try_send pes (fst (publish try_send h pe))"
  by (simp add: publish_all_def)

lemma publish_all_exhausted:
  "checked_add (hub_next_delivery_sequence h) 1 = None \<Longrightarrow> publish_all try_send pes h = h"
  by (induction pes) (simp_all add: publish_all_Cons publish_def, simp add: publish_all_def)

lemma publish_all_numbered:
  "hub_events (publish_all try_send pes h) =
     hub_events h @ numbered (hub_stream_epoch h) (hub_next_delivery_sequence h) pes"
proof (induction pes arbitrary: h)
  case (Cons pe pes)
  show ?case
  proof (cases "checked_add (hub_next_delivery_sequence h) 1")
    case None
    then show ?thesis by (simp add: publish_all_exhausted)
  next
    case (Some n)
    then show ?thesis by (simp add: publish_all_Cons Cons.IH publish_def Let_def)
  qed
qed (simp add: publish_all_def)


subsection \<open>Witness\<close>

text \<open>A connection whose venue sends a ticker that the sample session has subscribed to.\<close>

definition relay_event :: provider_event where
  "relay_event = sample_event\<lparr>pe_provider := Binance,
     pe_payload := TickerPayload (default_ticker\<lparr>tk_last := Some \<lparr>od_value = DecimalValue ''5'', od_observed_at_ms = 1\<rparr>\<rparr>)\<rparr>"

definition relay_env :: "(nat, nat \<times> market_event list) env" where
  "relay_env = sample_env\<lparr>env_adapter := sample_adapter\<lparr>as_parse := (\<lambda>s text t. (s, Inr (Events [relay_event])))\<rparr>\<rparr>"

lemma relay_well_formed: "well_formed relay_env relay_event" "event_key relay_event = sample_ticker_key"
  by (simp_all add: relay_env_def sample_env_def relay_event_def sample_event_def validate_event_def
      validate_ticker_def default_ticker_def check_crossed_def has_price_def and_then_def sample_lib_def
      decimal_def sample_decimal_def dec_value_def event_key_def digits_value_def all_digits_def is_ascii_digit_def)

lemma relay_inv: "conn_inv relay_env (sample_open\<lparr>w_hub := h\<rparr>)"
proof -
  have "conn_inv sample_env sample_open" by (rule cn.reachable_inv [OF sample_open_reachable])
  then show ?thesis
    by (simp add: conn_inv_def base_inv_def own_health_def relay_env_def sample_env_def commands_for_changes_def)
qed

end
